theory Spec2Isabelle
  imports Complex_Main
begin

section \<open>Host-based dense matrix operations of ViennaCL\<close>

text \<open>
  A shallow embedding of \<^verbatim>\<open>viennacl/linalg/host_based/matrix_operations.hpp\<close>.
  Sizes, offsets and strides (\<^verbatim>\<open>vcl_size_t\<close>) are natural numbers; a raw buffer
  (\<^verbatim>\<open>NumericT *\<close>) is a function from element offsets to values; a loop is a
  \<^const>\<open>fold\<close> over its index range, in the order the source runs it. The element
  type \<^verbatim>\<open>NumericT\<close> is a type parameter, as in the templates.
  Every matrix owns its buffer here: two operands of one call never overlap in memory.
\<close>

subsection \<open>Scalars with a not-a-number value\<close>

text \<open>
  The floating-point element types have a value NaN that absorbs every arithmetic
  operation and for which every ordered comparison is false. \<open>numeric\<close> is the exact
  reals extended by that value (no rounding, no infinities, no signed zero): it is the
  instance of \<^verbatim>\<open>NumericT\<close> used wherever a statement speaks of NaN.
\<close>

datatype numeric = Num real | NaN

instantiation numeric :: "{zero, one, plus, times, uminus, ord}"
begin

definition zero_numeric :: numeric where
  "zero_numeric = Num 0"

definition one_numeric :: numeric where
  "one_numeric = Num 1"

fun plus_numeric :: "numeric \<Rightarrow> numeric \<Rightarrow> numeric" where
  "plus_numeric (Num x) (Num y) = Num (x + y)"
| "plus_numeric (Num x) NaN = NaN"
| "plus_numeric NaN y = NaN"

fun times_numeric :: "numeric \<Rightarrow> numeric \<Rightarrow> numeric" where
  "times_numeric (Num x) (Num y) = Num (x * y)"
| "times_numeric (Num x) NaN = NaN"
| "times_numeric NaN y = NaN"

fun uminus_numeric :: "numeric \<Rightarrow> numeric" where
  "uminus_numeric (Num x) = Num (- x)"
| "uminus_numeric NaN = NaN"

fun less_numeric :: "numeric \<Rightarrow> numeric \<Rightarrow> bool" where
  "less_numeric (Num x) (Num y) = (x < y)"
| "less_numeric (Num x) NaN = False"
| "less_numeric NaN y = False"

fun less_eq_numeric :: "numeric \<Rightarrow> numeric \<Rightarrow> bool" where
  "less_eq_numeric (Num x) (Num y) = (x \<le> y)"
| "less_eq_numeric (Num x) NaN = False"
| "less_eq_numeric NaN y = False"

instance ..

end

text \<open>
  Addition and multiplication stay associative and commutative with the absorbing
  value, zero stays neutral for addition and multiplication distributes over addition.
  Multiplication by zero does not give zero: \<open>0 * NaN = NaN\<close>.
\<close>

instance numeric :: comm_monoid_add
proof (standard, goal_cases)
  case (1 x y z)
  show ?case by (cases x; cases y; cases z; simp)
next
  case (2 x y)
  show ?case by (cases x; cases y; simp)
next
  case (3 x)
  show ?case unfolding zero_numeric_def by (cases x; simp)
qed

instance numeric :: comm_semiring
proof (standard, goal_cases)
  case (1 x y z)
  show ?case by (cases x; cases y; cases z; simp)
next
  case (2 x y)
  show ?case by (cases x; cases y; simp)
next
  case (3 x y z)
  show ?case by (cases x; cases y; cases z; simp add: algebra_simps)
qed

subsection \<open>Matrix and vector views\<close>

text \<open>
  \<^verbatim>\<open>matrix_base\<close> as the operations read it through \<^verbatim>\<open>viennacl::traits\<close>:
  the buffer behind the handle, the start offsets, the strides, the logical sizes, the
  padded sizes of the buffer, and the layout flag.
\<close>

record 'a matrix_base =
  elements :: "nat \<Rightarrow> 'a"
  start1 :: nat
  start2 :: nat
  stride1 :: nat
  stride2 :: nat
  size1 :: nat
  size2 :: nat
  internal_size1 :: nat
  internal_size2 :: nat
  row_major :: bool

record 'a vector_base =
  v_elements :: "nat \<Rightarrow> 'a"
  v_start :: nat
  v_stride :: nat
  v_size :: nat

text \<open>
  Modelled from the spec: the layout tags' \<^verbatim>\<open>mem_index\<close> and the accessor class
  \<^verbatim>\<open>matrix_array_wrapper\<close> are declared in headers that are not part of the given
  sources. Section 4.1 of the specification has the physical offset of a logical cell
  computed from the start offsets and strides, per layout, inside the padded physical
  extents; the source spells the accessor out where it is not used
  (\<^verbatim>\<open>data_A[row_major::mem_index(row * A_inc1 + A_start1, col * A_inc2 + A_start2,
  A_internal_size1, A_internal_size2)]\<close>). A row-major buffer stores row \<open>i\<close> at
  \<open>i * num_cols\<close>, a column-major buffer stores column \<open>j\<close> at \<open>j * num_rows\<close>.
\<close>

definition row_major_mem_index :: "nat \<Rightarrow> nat \<Rightarrow> nat \<Rightarrow> nat \<Rightarrow> nat" where
  "row_major_mem_index i j num_rows num_cols = i * num_cols + j"

definition column_major_mem_index :: "nat \<Rightarrow> nat \<Rightarrow> nat \<Rightarrow> nat \<Rightarrow> nat" where
  "column_major_mem_index i j num_rows num_cols = i + j * num_rows"

record matrix_array_wrapper =
  w_row_major :: bool
  w_start1 :: nat
  w_start2 :: nat
  w_inc1 :: nat
  w_inc2 :: nat
  w_internal_size1 :: nat
  w_internal_size2 :: nat

definition wrapper_index :: "matrix_array_wrapper \<Rightarrow> nat \<Rightarrow> nat \<Rightarrow> nat" where
  "wrapper_index w i j =
     (if w_row_major w
      then row_major_mem_index (i * w_inc1 w + w_start1 w) (j * w_inc2 w + w_start2 w)
             (w_internal_size1 w) (w_internal_size2 w)
      else column_major_mem_index (i * w_inc1 w + w_start1 w) (j * w_inc2 w + w_start2 w)
             (w_internal_size1 w) (w_internal_size2 w))"

text \<open>The wrapper the operations build over a whole matrix, for a given layout tag.\<close>

definition wrapper_of :: "bool \<Rightarrow> 'a matrix_base \<Rightarrow> matrix_array_wrapper" where
  "wrapper_of layout m =
     \<lparr> w_row_major = layout, w_start1 = start1 m, w_start2 = start2 m,
       w_inc1 = stride1 m, w_inc2 = stride2 m,
       w_internal_size1 = internal_size1 m, w_internal_size2 = internal_size2 m \<rparr>"

text \<open>Logical element \<open>(i, j)\<close> of a matrix, read through the matrix's own layout.\<close>

definition entry :: "'a matrix_base \<Rightarrow> nat \<Rightarrow> nat \<Rightarrow> 'a" where
  "entry m i j = elements m (wrapper_index (wrapper_of (row_major m) m) i j)"

text \<open>
  The view invariant of section 3 of the specification: strides are not zero and the
  logical extents lie inside the padded physical extents.
\<close>

definition valid_view :: "'a matrix_base \<Rightarrow> bool" where
  "valid_view m =
     (0 < stride1 m \<and> 0 < stride2 m \<and>
      start1 m + (size1 m - 1) * stride1 m < internal_size1 m \<and>
      start2 m + (size2 m - 1) * stride2 m < internal_size2 m)"

subsection \<open>Assignment of a scalar\<close>


subsection \<open>Copying a row or a column into a vector\<close>

text \<open>
  The local variable \<^verbatim>\<open>A_size2\<close> is initialised from \<^verbatim>\<open>traits::size1(A)\<close>, as in the
  source. The vector is written through its raw pointer, without its start or stride.
\<close>

definition copy_vec ::
  "'a matrix_base \<Rightarrow> 'a vector_base \<Rightarrow> nat \<Rightarrow> nat \<Rightarrow> bool \<Rightarrow> 'a vector_base" where
  "copy_vec A V row_start col_start copy_col =
     (let data_A = elements A;
          A_start1 = start1 A; A_start2 = start2 A;
          A_inc1 = stride1 A; A_inc2 = stride2 A;
          A_size1 = size1 A;
          A_size2 = size1 A;
          A_internal_size1 = internal_size1 A;
          A_internal_size2 = internal_size2 A
      in if copy_col
         then (if row_major A
               then V\<lparr>v_elements :=
                      fold (\<lambda>i data_V. data_V(i - row_start :=
                              data_A (row_major_mem_index (i * A_inc1 + A_start1)
                                        (col_start * A_inc2 + A_start2)
                                        A_internal_size1 A_internal_size2)))
                           [row_start..<A_size1] (v_elements V)\<rparr>
               else V\<lparr>v_elements :=
                      fold (\<lambda>i data_V. data_V(i - row_start :=
                              data_A (column_major_mem_index (i * A_inc1 + A_start1)
                                        (col_start * A_inc2 + A_start2)
                                        A_internal_size1 A_internal_size2)))
                           [row_start..<A_size1] (v_elements V)\<rparr>)
         else (if row_major A
               then V\<lparr>v_elements :=
                      fold (\<lambda>i data_V. data_V(i - col_start :=
                              data_A (row_major_mem_index (row_start * A_inc1 + A_start1)
                                        (i * A_inc2 + A_start2)
                                        A_internal_size1 A_internal_size2)))
                           [col_start..<A_size2] (v_elements V)\<rparr>
               else V\<lparr>v_elements :=
                      fold (\<lambda>i data_V. data_V(i - col_start :=
                              data_A (column_major_mem_index (row_start * A_inc1 + A_start1)
                                        (i * A_inc2 + A_start2)
                                        A_internal_size1 A_internal_size2)))
                           [col_start..<A_size2] (v_elements V)\<rparr>))"

text \<open>
  The buffer offsets of the cells \<open>(i, j)\<close>, \<open>i < n1\<close>, \<open>j < n2\<close>, of a wrapper: the
  footprint of an \<open>n1\<close> by \<open>n2\<close> matrix in its buffer.
\<close>

definition cell_addresses :: "matrix_array_wrapper \<Rightarrow> nat \<Rightarrow> nat \<Rightarrow> nat set" where
  "cell_addresses w n1 n2 =
     (\<lambda>(i, j). wrapper_index w i j) ` set (List.product [0..<n1] [0..<n2])"

subsection \<open>Element-wise operations\<close>

text \<open>
  An \<^verbatim>\<open>assert\<close> that fails ends the call before anything is written: the operation
  returns the error and no matrix. Assertions are enabled (no \<^verbatim>\<open>NDEBUG\<close>).
\<close>

datatype error = Assertion_failed

text \<open>\<^verbatim>\<open>static_cast<DestNumericT>\<close> is the parameter \<open>cast\<close>.\<close>

definition convert ::
  "('b \<Rightarrow> 'a) \<Rightarrow> 'a matrix_base \<Rightarrow> 'b matrix_base \<Rightarrow> error + 'a matrix_base" where
  "convert cast mat1 mat2 =
     (if \<not> (row_major mat1 = row_major mat2) then Inl Assertion_failed
      else
        let data_B = elements mat2;
            A_size1 = size1 mat1;
            A_size2 = size2 mat1
        in if row_major mat1
           then (let wrapper_A = wrapper_of True mat1; wrapper_B = wrapper_of True mat2
                 in Inr (mat1\<lparr>elements :=
                      fold (\<lambda>row. fold (\<lambda>col data_A. data_A(wrapper_index wrapper_A row col :=
                                cast (data_B (wrapper_index wrapper_B row col))))
                              [0..<A_size2])
                           [0..<A_size1] (elements mat1)\<rparr>))
           else (let wrapper_A = wrapper_of False mat1; wrapper_B = wrapper_of False mat2
                 in Inr (mat1\<lparr>elements :=
                      fold (\<lambda>col. fold (\<lambda>row data_A. data_A(wrapper_index wrapper_A row col :=
                                cast (data_B (wrapper_index wrapper_B row col))))
                              [0..<A_size1])
                           [0..<A_size2] (elements mat1)\<rparr>)))"

definition am ::
  "'a::{times, uminus, inverse} matrix_base \<Rightarrow> 'a matrix_base \<Rightarrow> 'a \<Rightarrow> nat \<Rightarrow> bool \<Rightarrow> bool
     \<Rightarrow> error + 'a matrix_base" where
  "am mat1 mat2 alpha len_alpha reciprocal_alpha flip_sign_alpha =
     (if \<not> (row_major mat1 = row_major mat2) then Inl Assertion_failed
      else
        let data_B = elements mat2;
            data_alpha = (if flip_sign_alpha then - alpha else alpha);
            A_size1 = size1 mat1;
            A_size2 = size2 mat1
        in if row_major mat1
           then (let wrapper_A = wrapper_of True mat1; wrapper_B = wrapper_of True mat2
                 in if reciprocal_alpha
                    then Inr (mat1\<lparr>elements :=
                      fold (\<lambda>row. fold (\<lambda>col data_A. data_A(wrapper_index wrapper_A row col :=
                                data_B (wrapper_index wrapper_B row col) / data_alpha))
                              [0..<A_size2])
                           [0..<A_size1] (elements mat1)\<rparr>)
                    else Inr (mat1\<lparr>elements :=
                      fold (\<lambda>row. fold (\<lambda>col data_A. data_A(wrapper_index wrapper_A row col :=
                                data_B (wrapper_index wrapper_B row col) * data_alpha))
                              [0..<A_size2])
                           [0..<A_size1] (elements mat1)\<rparr>))
           else (let wrapper_A = wrapper_of False mat1; wrapper_B = wrapper_of False mat2
                 in if reciprocal_alpha
                    then Inr (mat1\<lparr>elements :=
                      fold (\<lambda>col. fold (\<lambda>row data_A. data_A(wrapper_index wrapper_A row col :=
                                data_B (wrapper_index wrapper_B row col) / data_alpha))
                              [0..<A_size1])
                           [0..<A_size2] (elements mat1)\<rparr>)
                    else Inr (mat1\<lparr>elements :=
                      fold (\<lambda>col. fold (\<lambda>row data_A. data_A(wrapper_index wrapper_A row col :=
                                data_B (wrapper_index wrapper_B row col) * data_alpha))
                              [0..<A_size1])
                           [0..<A_size2] (elements mat1)\<rparr>)))"

text \<open>
  The four branches of \<^verbatim>\<open>ambm\<close> on \<^verbatim>\<open>reciprocal_alpha\<close> and \<^verbatim>\<open>reciprocal_beta\<close>
  differ in the value stored only; \<open>ambm_value\<close> is that value.
\<close>

definition ambm_value ::
  "bool \<Rightarrow> bool \<Rightarrow> 'a::{plus, times, inverse} \<Rightarrow> 'a \<Rightarrow> 'a \<Rightarrow> 'a \<Rightarrow> 'a" where
  "ambm_value reciprocal_alpha reciprocal_beta b data_alpha c data_beta =
     (if reciprocal_alpha \<and> reciprocal_beta then b / data_alpha + c / data_beta
      else if reciprocal_alpha \<and> \<not> reciprocal_beta then b / data_alpha + c * data_beta
      else if \<not> reciprocal_alpha \<and> reciprocal_beta then b * data_alpha + c / data_beta
      else b * data_alpha + c * data_beta)"

definition ambm ::
  "'a::{plus, times, uminus, inverse} matrix_base
     \<Rightarrow> 'a matrix_base \<Rightarrow> 'a \<Rightarrow> nat \<Rightarrow> bool \<Rightarrow> bool
     \<Rightarrow> 'a matrix_base \<Rightarrow> 'a \<Rightarrow> nat \<Rightarrow> bool \<Rightarrow> bool
     \<Rightarrow> error + 'a matrix_base" where
  "ambm mat1 mat2 alpha len_alpha reciprocal_alpha flip_sign_alpha
        mat3 beta len_beta reciprocal_beta flip_sign_beta =
     (if \<not> (row_major mat1 = row_major mat2 \<and> row_major mat1 = row_major mat3)
      then Inl Assertion_failed
      else
        let data_B = elements mat2;
            data_C = elements mat3;
            data_alpha = (if flip_sign_alpha then - alpha else alpha);
            data_beta = (if flip_sign_beta then - beta else beta);
            A_size1 = size1 mat1;
            A_size2 = size2 mat1
        in if row_major mat1
           then (let wrapper_A = wrapper_of True mat1; wrapper_B = wrapper_of True mat2;
                     wrapper_C = wrapper_of True mat3
                 in Inr (mat1\<lparr>elements :=
                      fold (\<lambda>row. fold (\<lambda>col data_A. data_A(wrapper_index wrapper_A row col :=
                                ambm_value reciprocal_alpha reciprocal_beta
                                  (data_B (wrapper_index wrapper_B row col)) data_alpha
                                  (data_C (wrapper_index wrapper_C row col)) data_beta))
                              [0..<A_size2])
                           [0..<A_size1] (elements mat1)\<rparr>))
           else (let wrapper_A = wrapper_of False mat1; wrapper_B = wrapper_of False mat2;
                     wrapper_C = wrapper_of False mat3
                 in Inr (mat1\<lparr>elements :=
                      fold (\<lambda>col. fold (\<lambda>row data_A. data_A(wrapper_index wrapper_A row col :=
                                ambm_value reciprocal_alpha reciprocal_beta
                                  (data_B (wrapper_index wrapper_B row col)) data_alpha
                                  (data_C (wrapper_index wrapper_C row col)) data_beta))
                              [0..<A_size1])
                           [0..<A_size2] (elements mat1)\<rparr>)))"

text \<open>
  \<^verbatim>\<open>element_op\<close> for a binary and for a unary operation. The functor
  \<^verbatim>\<open>op_applier<...>::apply(result, x, y)\<close> stores \<open>op x y\<close> in \<open>result\<close>; \<open>op\<close> is a
  parameter. The proxy of the unary operation has a left and a right operand as well;
  only the left one is read.
\<close>

definition element_op ::
  "('a \<Rightarrow> 'a \<Rightarrow> 'a) \<Rightarrow> 'a matrix_base \<Rightarrow> 'a matrix_base \<Rightarrow> 'a matrix_base
     \<Rightarrow> error + 'a matrix_base" where
  "element_op op A proxy_lhs proxy_rhs =
     (if \<not> (row_major A = row_major proxy_lhs \<and> row_major A = row_major proxy_rhs)
      then Inl Assertion_failed
      else
        let data_B = elements proxy_lhs;
            data_C = elements proxy_rhs;
            A_size1 = size1 A;
            A_size2 = size2 A
        in if row_major A
           then (let wrapper_A = wrapper_of True A; wrapper_B = wrapper_of True proxy_lhs;
                     wrapper_C = wrapper_of True proxy_rhs
                 in Inr (A\<lparr>elements :=
                      fold (\<lambda>row. fold (\<lambda>col data_A. data_A(wrapper_index wrapper_A row col :=
                                op (data_B (wrapper_index wrapper_B row col))
                                   (data_C (wrapper_index wrapper_C row col))))
                              [0..<A_size2])
                           [0..<A_size1] (elements A)\<rparr>))
           else (let wrapper_A = wrapper_of False A; wrapper_B = wrapper_of False proxy_lhs;
                     wrapper_C = wrapper_of False proxy_rhs
                 in Inr (A\<lparr>elements :=
                      fold (\<lambda>col. fold (\<lambda>row data_A. data_A(wrapper_index wrapper_A row col :=
                                op (data_B (wrapper_index wrapper_B row col))
                                   (data_C (wrapper_index wrapper_C row col))))
                              [0..<A_size1])
                           [0..<A_size2] (elements A)\<rparr>)))"

definition element_op_unary ::
  "('a \<Rightarrow> 'a) \<Rightarrow> 'a matrix_base \<Rightarrow> 'a matrix_base \<Rightarrow> 'a matrix_base
     \<Rightarrow> error + 'a matrix_base" where
  "element_op_unary op A proxy_lhs proxy_rhs =
     (if \<not> (row_major A = row_major proxy_lhs \<and> row_major A = row_major proxy_rhs)
      then Inl Assertion_failed
      else
        let data_B = elements proxy_lhs;
            A_size1 = size1 A;
            A_size2 = size2 A
        in if row_major A
           then (let wrapper_A = wrapper_of True A; wrapper_B = wrapper_of True proxy_lhs
                 in Inr (A\<lparr>elements :=
                      fold (\<lambda>row. fold (\<lambda>col data_A. data_A(wrapper_index wrapper_A row col :=
                                op (data_B (wrapper_index wrapper_B row col))))
                              [0..<A_size2])
                           [0..<A_size1] (elements A)\<rparr>))
           else (let wrapper_A = wrapper_of False A; wrapper_B = wrapper_of False proxy_lhs
                 in Inr (A\<lparr>elements :=
                      fold (\<lambda>col. fold (\<lambda>row data_A. data_A(wrapper_index wrapper_A row col :=
                                op (data_B (wrapper_index wrapper_B row col))))
                              [0..<A_size1])
                           [0..<A_size2] (elements A)\<rparr>)))"

text \<open>
  A wrapper addresses an \<open>n1\<close> by \<open>n2\<close> matrix without overlap when its strides are not
  zero and the coordinate that the layout stores contiguously stays inside the padded
  extent.
\<close>

definition wrapper_fits :: "matrix_array_wrapper \<Rightarrow> nat \<Rightarrow> nat \<Rightarrow> bool" where
  "wrapper_fits w n1 n2 =
     (0 < w_inc1 w \<and> 0 < w_inc2 w \<and>
      (if w_row_major w then (n2 - 1) * w_inc2 w + w_start2 w < w_internal_size2 w
       else (n1 - 1) * w_inc1 w + w_start1 w < w_internal_size1 w))"

subsection \<open>Transposition\<close>

text \<open>
  \<open>trans_matrix\<close> is \<^verbatim>\<open>trans(proxy, temp_trans)\<close> with \<^verbatim>\<open>proxy.lhs()\<close> as its first
  argument. \<open>wrapper\<close> is the constructor call of \<^verbatim>\<open>matrix_array_wrapper\<close> without
  the data pointer; the destination's wrapper has the layout tag of the branch, which
  is the layout of the source.
\<close>

definition sub_mat_size :: nat where
  "sub_mat_size = 64"

definition wrapper ::
  "bool \<Rightarrow> nat \<Rightarrow> nat \<Rightarrow> nat \<Rightarrow> nat \<Rightarrow> nat \<Rightarrow> nat \<Rightarrow> matrix_array_wrapper" where
  "wrapper layout s1 s2 inc1 inc2 n1 n2 =
     \<lparr> w_row_major = layout, w_start1 = s1, w_start2 = s2, w_inc1 = inc1, w_inc2 = inc2,
       w_internal_size1 = n1, w_internal_size2 = n2 \<rparr>"

definition trans_matrix :: "'a matrix_base \<Rightarrow> 'a matrix_base \<Rightarrow> 'a matrix_base" where
  "trans_matrix proxy_lhs temp_trans =
     (let data_A = elements proxy_lhs;
          A_start1 = start1 proxy_lhs; A_start2 = start2 proxy_lhs;
          A_internal_size1 = internal_size1 proxy_lhs;
          A_internal_size2 = internal_size2 proxy_lhs;
          A_inc1 = stride1 proxy_lhs; A_inc2 = stride2 proxy_lhs;
          A_size1 = size1 proxy_lhs; A_size2 = size2 proxy_lhs;
          B_start1 = start1 temp_trans; B_start2 = start2 temp_trans;
          B_internal_size1 = internal_size1 temp_trans;
          B_internal_size2 = internal_size2 temp_trans;
          B_inc1 = stride1 temp_trans; B_inc2 = stride2 temp_trans;
          row_count = A_size1 div sub_mat_size;
          col_count = A_size2 div sub_mat_size;
          row_count_remainder = A_size1 mod sub_mat_size;
          col_count_remainder = A_size2 mod sub_mat_size
      in if row_major proxy_lhs
         then
           (let main =
                  fold (\<lambda>i data_B.
                     let row = i div col_count;
                         col = i mod col_count;
                         wrapper_A = wrapper True (A_start1 + A_inc1 * (row * sub_mat_size))
                                       (A_start2 + A_inc2 * (col * sub_mat_size)) A_inc1 A_inc2
                                       A_internal_size1 A_internal_size2;
                         wrapper_B = wrapper True (B_start1 + B_inc1 * (col * sub_mat_size))
                                       (B_start2 + B_inc2 * (row * sub_mat_size)) B_inc1 B_inc2
                                       B_internal_size1 B_internal_size2
                     in fold (\<lambda>j. fold (\<lambda>k data_B. data_B(wrapper_index wrapper_B j k :=
                                  data_A (wrapper_index wrapper_A k j)))
                                [0..<sub_mat_size])
                          [0..<sub_mat_size] data_B)
                    [0..<row_count * col_count] (elements temp_trans);
                right =
                  (let wrapper_A = wrapper True A_start1
                                     (A_start2 + A_inc2 * (col_count * sub_mat_size)) A_inc1 A_inc2
                                     A_internal_size1 A_internal_size2;
                       wrapper_B = wrapper True (B_start1 + B_inc1 * (col_count * sub_mat_size))
                                     B_start2 B_inc1 B_inc2 B_internal_size1 B_internal_size2
                   in fold (\<lambda>j. fold (\<lambda>k data_B. data_B(wrapper_index wrapper_B j k :=
                                data_A (wrapper_index wrapper_A k j)))
                              [0..<A_size1])
                        [0..<col_count_remainder] main);
                bottom =
                  (let wrapper_A = wrapper True (A_start1 + A_inc1 * (row_count * sub_mat_size))
                                     A_start2 A_inc1 A_inc2 A_internal_size1 A_internal_size2;
                       wrapper_B = wrapper True B_start1
                                     (B_start2 + B_inc2 * (row_count * sub_mat_size)) B_inc1 B_inc2
                                     B_internal_size1 B_internal_size2
                   in fold (\<lambda>j. fold (\<lambda>k data_B. data_B(wrapper_index wrapper_B k j :=
                                data_A (wrapper_index wrapper_A j k)))
                              [0..<A_size2 - col_count_remainder])
                        [0..<row_count_remainder] right)
            in temp_trans\<lparr>elements := bottom\<rparr>)
         else
           (let main =
                  fold (\<lambda>i data_B.
                     let row = i div col_count;
                         col = i mod col_count;
                         wrapper_A = wrapper False (A_start1 + A_inc1 * (row * sub_mat_size))
                                       (A_start2 + A_inc2 * (col * sub_mat_size)) A_inc1 A_inc2
                                       A_internal_size1 A_internal_size2;
                         wrapper_B = wrapper False (B_start1 + B_inc1 * (col * sub_mat_size))
                                       (B_start2 + B_inc2 * (row * sub_mat_size)) B_inc1 B_inc2
                                       B_internal_size1 B_internal_size2
                     in fold (\<lambda>j. fold (\<lambda>k data_B. data_B(wrapper_index wrapper_B k j :=
                                  data_A (wrapper_index wrapper_A j k)))
                                [0..<sub_mat_size])
                          [0..<sub_mat_size] data_B)
                    [0..<row_count * col_count] (elements temp_trans);
                right =
                  (let wrapper_A = wrapper False A_start1
                                     (A_start2 + A_inc2 * (col_count * sub_mat_size)) A_inc1 A_inc2
                                     A_internal_size1 A_internal_size2;
                       wrapper_B = wrapper False (B_start1 + B_inc1 * (col_count * sub_mat_size))
                                     B_start2 B_inc1 B_inc2 B_internal_size1 B_internal_size2
                   in fold (\<lambda>j. fold (\<lambda>k data_B. data_B(wrapper_index wrapper_B j k :=
                                data_A (wrapper_index wrapper_A k j)))
                              [0..<A_size1])
                        [0..<col_count_remainder] main);
                bottom =
                  (let wrapper_A = wrapper False (A_start1 + A_inc1 * (row_count * sub_mat_size))
                                     A_start2 A_inc1 A_inc2 A_internal_size1 A_internal_size2;
                       wrapper_B = wrapper False B_start1
                                     (B_start2 + B_inc2 * (row_count * sub_mat_size)) B_inc1 B_inc2
                                     B_internal_size1 B_internal_size2
                   in fold (\<lambda>j. fold (\<lambda>k data_B. data_B(wrapper_index wrapper_B k j :=
                                data_A (wrapper_index wrapper_A j k)))
                              [0..<A_size2 - col_count_remainder])
                        [0..<row_count_remainder] right)
            in temp_trans\<lparr>elements := bottom\<rparr>))"

text \<open>
  The index pairs \<open>(i, j)\<close> of the source that the loops of \<open>trans_matrix\<close> read, in
  the order they read them: the sub-matrices of the main part, the remainder on the
  right side, the remainder on the bottom side. The two layouts run the inner loops of
  the main part in opposite order.
\<close>

definition trans_visits :: "bool \<Rightarrow> nat \<Rightarrow> nat \<Rightarrow> (nat \<times> nat) list" where
  "trans_visits layout A_size1 A_size2 =
     (let row_count = A_size1 div sub_mat_size;
          col_count = A_size2 div sub_mat_size;
          row_count_remainder = A_size1 mod sub_mat_size;
          col_count_remainder = A_size2 mod sub_mat_size
      in map (\<lambda>(i, j, k).
               if layout
               then (i div col_count * sub_mat_size + k, i mod col_count * sub_mat_size + j)
               else (i div col_count * sub_mat_size + j, i mod col_count * sub_mat_size + k))
           (List.product [0..<row_count * col_count]
              (List.product [0..<sub_mat_size] [0..<sub_mat_size]))
         @ map (\<lambda>(j, k). (k, col_count * sub_mat_size + j))
             (List.product [0..<col_count_remainder] [0..<A_size1])
         @ map (\<lambda>(j, k). (row_count * sub_mat_size + j, k))
             (List.product [0..<row_count_remainder] [0..<A_size2 - col_count_remainder]))"

subsection \<open>Matrix-matrix product\<close>

text \<open>
  \<^verbatim>\<open>vcl_size_t\<close> subtraction wraps around; \<open>size_sub\<close> writes the wrap-around out
  (64 bits), so that a clipped bound that underflowed would show as a huge bound.
\<close>

definition size_sub :: "nat \<Rightarrow> nat \<Rightarrow> nat" where
  "size_sub a b = (if b \<le> a then a - b else a + 2 ^ 64 - b)"

text \<open>
  The block sizes \<^verbatim>\<open>get_block_sizes<NumericT>(m_size, k_size, n_size, mc, kc, nc, mr, nr)\<close>
  returns through its reference arguments. The function is not part of the given
  sources; it is a parameter of the model.
\<close>

record block_sizes =
  b_mc :: nat
  b_kc :: nat
  b_nc :: nat
  b_mr :: nat
  b_nr :: nat

text \<open>Entry \<open>(i, j)\<close> of \<open>op(M)\<close>: of the transposed matrix when the flag is set.\<close>

definition op_entry :: "'a matrix_base \<Rightarrow> bool \<Rightarrow> nat \<Rightarrow> nat \<Rightarrow> 'a" where
  "op_entry M transposed i j = (if transposed then entry M j i else entry M i j)"

text \<open>
  Modelled from the spec: \<^verbatim>\<open>pack_matrix_A\<close> and \<^verbatim>\<open>pack_matrix_B\<close> (packing.hpp) are
  not part of the given sources. Section 4.3 of the specification: the packer copies the
  requested \<open>mc\<close> by \<open>kc\<close> (or \<open>kc\<close> by \<open>nc\<close>) logical sub-block of \<open>op(A)\<close> (or \<open>op(B)\<close>)
  into the destination as a sequence of contiguous slivers of width \<open>mr\<close> (or \<open>nr\<close>),
  whatever the layout or the transposition flag of the source; in a remainder block it
  packs the valid elements only, and the buffer is not zero-padded. The caller reads
  sliver \<open>s\<close> of the packed \<open>A\<close> at offset \<open>s * mr * kc\<close> and sliver \<open>s\<close> of the packed \<open>B\<close>
  at \<open>s * nr * kc\<close>; within a sliver the micro-slivers of \<open>A\<close> are columns of \<open>mr\<close>
  elements and those of \<open>B\<close> are rows of \<open>nr\<close> elements. A cell of the destination that
  is not written keeps what the buffer held.
\<close>

definition pack_matrix_A ::
  "(nat \<Rightarrow> 'a) \<Rightarrow> nat \<Rightarrow> nat \<Rightarrow> nat \<Rightarrow> nat \<Rightarrow> nat \<Rightarrow> 'a matrix_base \<Rightarrow> bool \<Rightarrow> (nat \<Rightarrow> 'a)" where
  "pack_matrix_A buffer offset_i offset_j mc kc mr A A_trans =
     (\<lambda>idx.
        let sliver = idx div (mr * kc);
            micro = idx mod (mr * kc) div mr;
            lane = idx mod mr;
            row = offset_i + sliver * mr + lane;
            col = offset_j + micro
        in if idx < mc * kc
              \<and> row < (if A_trans then size2 A else size1 A)
              \<and> col < (if A_trans then size1 A else size2 A)
           then op_entry A A_trans row col
           else buffer idx)"

definition pack_matrix_B ::
  "(nat \<Rightarrow> 'a) \<Rightarrow> nat \<Rightarrow> nat \<Rightarrow> nat \<Rightarrow> nat \<Rightarrow> nat \<Rightarrow> 'a matrix_base \<Rightarrow> bool \<Rightarrow> (nat \<Rightarrow> 'a)" where
  "pack_matrix_B buffer offset_i offset_j kc nc nr B B_trans =
     (\<lambda>idx.
        let sliver = idx div (nr * kc);
            micro = idx mod (nr * kc) div nr;
            lane = idx mod nr;
            row = offset_i + micro;
            col = offset_j + sliver * nr + lane
        in if idx < kc * nc
              \<and> row < (if B_trans then size2 B else size1 B)
              \<and> col < (if B_trans then size1 B else size2 B)
           then op_entry B B_trans row col
           else buffer idx)"

text \<open>
  Modelled from the spec: the micro-kernel (gemm_standard_micro_kernel.hpp) is not part
  of the given sources. Section 4.4 of the specification: it adds to the accumulator
  of \<open>mr\<close> by \<open>nr\<close> elements, which the caller has set to zero, the sums
  \<open>tile[i][j] = \<Sum>p < k_count. A_sliver[p][i] * B_sliver[p][j]\<close>, without scaling.
  The caller reads \<open>tile[i][j]\<close> at \<open>buffer_C[i * nr + j]\<close>.
\<close>

definition standard_micro_kernel ::
  "(nat \<Rightarrow> 'a::{plus, times}) \<Rightarrow> (nat \<Rightarrow> 'a) \<Rightarrow> (nat \<Rightarrow> 'a) \<Rightarrow> nat \<Rightarrow> nat \<Rightarrow> nat \<Rightarrow> (nat \<Rightarrow> 'a)" where
  "standard_micro_kernel ptrA ptrB ptrC num_micros_slivers mr nr =
     (\<lambda>idx.
        if idx < mr * nr
        then fold (\<lambda>p acc. acc + ptrA (p * mr + idx div nr) * ptrB (p * nr + idx mod nr))
               [0..<num_micros_slivers] (ptrC idx)
        else ptrC idx)"

text \<open>
  What the loops of \<^verbatim>\<open>detail::prod\<close> read but do not change: the operands, the
  accessor of \<open>C\<close>, the scalars, the product sizes and the block sizes.
\<close>

record 'a gemm_setup =
  g_A :: "'a matrix_base"
  g_A_trans :: bool
  g_B :: "'a matrix_base"
  g_B_trans :: bool
  g_C :: matrix_array_wrapper
  g_alpha :: 'a
  g_beta :: 'a
  g_m_size :: nat
  g_k_size :: nat
  g_n_size :: nat
  g_blocks :: block_sizes

text \<open>What the loops change: the buffer of \<open>C\<close> and the three auxiliary buffers.\<close>

record 'a gemm_state =
  data_C :: "nat \<Rightarrow> 'a"
  buffer_A :: "nat \<Rightarrow> 'a"
  buffer_B :: "nat \<Rightarrow> 'a"
  buffer_C :: "nat \<Rightarrow> 'a"

text \<open>
  The clipped bounds of a remainder tile: the number of micro-slivers the micro-kernel
  runs over in the \<open>k\<close>-block \<open>A2B1_idx\<close>, \<^verbatim>\<open>std::min(kc, k_size - A2B1_idx * kc)\<close>, and
  the bounds of the two write-back loops of the micro-tile whose first cell is
  \<open>(row0, col0)\<close>, \<^verbatim>\<open>std::min(mr, m_size - row0)\<close> and \<^verbatim>\<open>std::min(nr, n_size - col0)\<close>.
\<close>

definition num_micros_slivers :: "'a gemm_setup \<Rightarrow> nat \<Rightarrow> nat" where
  "num_micros_slivers g A2B1_idx =
     min (b_kc (g_blocks g)) (size_sub (g_k_size g) (A2B1_idx * b_kc (g_blocks g)))"

definition tile_rows :: "'a gemm_setup \<Rightarrow> nat \<Rightarrow> nat" where
  "tile_rows g row0 = min (b_mr (g_blocks g)) (size_sub (g_m_size g) row0)"

definition tile_cols :: "'a gemm_setup \<Rightarrow> nat \<Rightarrow> nat" where
  "tile_cols g col0 = min (b_nr (g_blocks g)) (size_sub (g_n_size g) col0)"

text \<open>
  The write-back of one micro-tile whose first cell is \<open>(row0, col0)\<close>, that is
  \<open>(C1A1_idx * mc + sliver_A_idx * mr, C2B2_idx * nc + sliver_B_idx * nr)\<close>. The two
  branches on \<open>beta\<close> are \<open>write_general\<close> and \<open>write_zero\<close>.
\<close>

definition write_general ::
  "'a::{plus, times} gemm_setup \<Rightarrow> nat \<Rightarrow> nat \<Rightarrow> (nat \<Rightarrow> 'a) \<Rightarrow> (nat \<Rightarrow> 'a) \<Rightarrow> (nat \<Rightarrow> 'a)" where
  "write_general g row0 col0 tile C =
     fold (\<lambda>i. fold (\<lambda>j C.
               C(wrapper_index (g_C g) (row0 + i) (col0 + j) :=
                   g_beta g * C (wrapper_index (g_C g) (row0 + i) (col0 + j))
                   + g_alpha g * tile (i * b_nr (g_blocks g) + j)))
             [0..<tile_cols g col0])
       [0..<tile_rows g row0] C"

definition write_zero ::
  "'a::{plus, times} gemm_setup \<Rightarrow> nat \<Rightarrow> nat \<Rightarrow> nat \<Rightarrow> (nat \<Rightarrow> 'a) \<Rightarrow> (nat \<Rightarrow> 'a)
     \<Rightarrow> (nat \<Rightarrow> 'a)" where
  "write_zero g A2B1_idx row0 col0 tile C =
     fold (\<lambda>i. fold (\<lambda>j C.
               if A2B1_idx = 0
               then C(wrapper_index (g_C g) (row0 + i) (col0 + j) :=
                        g_alpha g * tile (i * b_nr (g_blocks g) + j))
               else C(wrapper_index (g_C g) (row0 + i) (col0 + j) :=
                        C (wrapper_index (g_C g) (row0 + i) (col0 + j))
                        + g_alpha g * tile (i * b_nr (g_blocks g) + j)))
             [0..<tile_cols g col0])
       [0..<tile_rows g row0] C"

definition write_result ::
  "'a::{zero, plus, times, ord} gemm_setup \<Rightarrow> nat \<Rightarrow> nat \<Rightarrow> nat \<Rightarrow> (nat \<Rightarrow> 'a) \<Rightarrow> (nat \<Rightarrow> 'a)
     \<Rightarrow> (nat \<Rightarrow> 'a)" where
  "write_result g A2B1_idx row0 col0 tile C =
     (if g_beta g > 0 \<or> g_beta g < 0
      then write_general g row0 col0 tile C
      else write_zero g A2B1_idx row0 col0 tile C)"

text \<open>The body of the loop over \<^verbatim>\<open>sliver_A_idx\<close>: one micro-tile.\<close>

definition micro_tile ::
  "'a::{zero, plus, times, ord} gemm_setup \<Rightarrow> nat \<Rightarrow> nat \<Rightarrow> nat \<Rightarrow> nat \<Rightarrow> nat
     \<Rightarrow> 'a gemm_state \<Rightarrow> 'a gemm_state" where
  "micro_tile g C2B2_idx A2B1_idx C1A1_idx sliver_B_idx sliver_A_idx s =
     (let mc = b_mc (g_blocks g); kc = b_kc (g_blocks g); nc = b_nc (g_blocks g);
          mr = b_mr (g_blocks g); nr = b_nr (g_blocks g);
          zeroed = fold (\<lambda>i b. b(i := 0)) [0..<mr * nr] (buffer_C s);
          ptrA = (\<lambda>t. buffer_A s (sliver_A_idx * mr * kc + t));
          ptrB = (\<lambda>t. buffer_B s (sliver_B_idx * nr * kc + t));
          tile = standard_micro_kernel ptrA ptrB zeroed (num_micros_slivers g A2B1_idx) mr nr
      in s\<lparr>buffer_C := tile,
            data_C := write_result g A2B1_idx (C1A1_idx * mc + sliver_A_idx * mr)
                        (C2B2_idx * nc + sliver_B_idx * nr) tile (data_C s)\<rparr>)"

text \<open>The loops over the slivers of one pair of packed blocks.\<close>

definition loop_slivers ::
  "'a::{zero, plus, times, ord} gemm_setup \<Rightarrow> nat \<Rightarrow> nat \<Rightarrow> nat \<Rightarrow> 'a gemm_state \<Rightarrow> 'a gemm_state" where
  "loop_slivers g C2B2_idx A2B1_idx C1A1_idx s =
     (let mc = b_mc (g_blocks g); nc = b_nc (g_blocks g);
          mr = b_mr (g_blocks g); nr = b_nr (g_blocks g);
          num_slivers_A = mc div mr;
          num_slivers_B = nc div nr;
          num_residue_slivers_A = (g_m_size g mod mc + size_sub mr 1) div mr;
          num_residue_slivers_B = (g_n_size g mod nc + size_sub nr 1) div nr;
          max_sliver_B_idx = (if size_sub (g_n_size g) (C2B2_idx * nc) < nc
                              then num_residue_slivers_B else num_slivers_B)
      in fold (\<lambda>sliver_B_idx s.
                 let max_sliver_A_idx = (if size_sub (g_m_size g) (C1A1_idx * mc) < mc
                                         then num_residue_slivers_A else num_slivers_A)
                 in fold (micro_tile g C2B2_idx A2B1_idx C1A1_idx sliver_B_idx)
                      [0..<max_sliver_A_idx] s)
           [0..<max_sliver_B_idx] s)"

text \<open>The body of the loop over \<^verbatim>\<open>C1A1_idx\<close>: pack a block of \<open>A\<close>, run its slivers.\<close>

definition block_C1A1 ::
  "'a::{zero, plus, times, ord} gemm_setup \<Rightarrow> nat \<Rightarrow> nat \<Rightarrow> nat \<Rightarrow> 'a gemm_state \<Rightarrow> 'a gemm_state" where
  "block_C1A1 g C2B2_idx A2B1_idx C1A1_idx s =
     (let mc = b_mc (g_blocks g); kc = b_kc (g_blocks g); mr = b_mr (g_blocks g)
      in loop_slivers g C2B2_idx A2B1_idx C1A1_idx
           (s\<lparr>buffer_A := pack_matrix_A (buffer_A s) (C1A1_idx * mc) (A2B1_idx * kc) mc kc mr
                               (g_A g) (g_A_trans g)\<rparr>))"

text \<open>The body of the loop over \<^verbatim>\<open>A2B1_idx\<close>: pack a block of \<open>B\<close>, run the blocks of \<open>A\<close>.\<close>

definition block_A2B1 ::
  "'a::{zero, plus, times, ord} gemm_setup \<Rightarrow> nat \<Rightarrow> nat \<Rightarrow> 'a gemm_state \<Rightarrow> 'a gemm_state" where
  "block_A2B1 g C2B2_idx A2B1_idx s =
     (let mc = b_mc (g_blocks g); kc = b_kc (g_blocks g); nc = b_nc (g_blocks g);
          nr = b_nr (g_blocks g);
          num_blocks_C1 = (g_m_size g + size_sub mc 1) div mc
      in fold (block_C1A1 g C2B2_idx A2B1_idx) [0..<num_blocks_C1]
           (s\<lparr>buffer_B := pack_matrix_B (buffer_B s) (A2B1_idx * kc) (C2B2_idx * nc) kc nc nr
                               (g_B g) (g_B_trans g)\<rparr>))"

text \<open>
  The body of the outermost loop, over \<^verbatim>\<open>C2B2_idx\<close>. \<^verbatim>\<open>memory_create\<close> returns memory
  that is not initialised: \<open>fresh C2B2_idx h\<close> is what the buffer of handle \<open>h\<close> (0 for
  \<^verbatim>\<open>h_A\<close>, 1 for \<^verbatim>\<open>h_B\<close>, 2 for \<^verbatim>\<open>h_C\<close>) holds when this iteration allocates it.
\<close>

definition block_C2B2 ::
  "'a::{zero, plus, times, ord} gemm_setup \<Rightarrow> (nat \<Rightarrow> nat \<Rightarrow> nat \<Rightarrow> 'a) \<Rightarrow> nat \<Rightarrow> (nat \<Rightarrow> 'a)
     \<Rightarrow> (nat \<Rightarrow> 'a)" where
  "block_C2B2 g fresh C2B2_idx C =
     (let kc = b_kc (g_blocks g);
          num_blocks_A2 = (g_k_size g + size_sub kc 1) div kc
      in data_C (fold (block_A2B1 g C2B2_idx) [0..<num_blocks_A2]
                   \<lparr> data_C = C, buffer_A = fresh C2B2_idx 0, buffer_B = fresh C2B2_idx 1,
                     buffer_C = fresh C2B2_idx 2 \<rparr>))"

text \<open>
  The setup of \<^verbatim>\<open>detail::prod\<close>: the product sizes, which differ from the sizes in
  memory when an operand is transposed, and the block sizes for them.
\<close>

definition gemm_setup_of ::
  "(nat \<Rightarrow> nat \<Rightarrow> nat \<Rightarrow> block_sizes) \<Rightarrow> 'a matrix_base \<Rightarrow> bool \<Rightarrow> 'a matrix_base \<Rightarrow> bool
     \<Rightarrow> matrix_array_wrapper \<Rightarrow> 'a \<Rightarrow> 'a \<Rightarrow> 'a gemm_setup" where
  "gemm_setup_of get_block_sizes A A_trans B B_trans C alpha beta =
     (let A_size1 = size1 A; A_size2 = size2 A;
          B_size1 = size1 B; B_size2 = size2 B;
          m_size = (if A_trans then A_size2 else A_size1);
          k_size = (if A_trans then A_size1 else A_size2);
          n_size = (if B_trans then B_size1 else B_size2)
      in \<lparr> g_A = A, g_A_trans = A_trans, g_B = B, g_B_trans = B_trans,
           g_C = C, g_alpha = alpha, g_beta = beta,
           g_m_size = m_size, g_k_size = k_size, g_n_size = n_size,
           g_blocks = get_block_sizes m_size k_size n_size \<rparr>)"

text \<open>
  \<^verbatim>\<open>detail::prod\<close>. The accessor \<open>C\<close> and the buffer behind it are separate arguments;
  the result is the buffer of \<open>C\<close> after the call, or the failure of the assertion on
  the block sizes. The test for an empty product comes first: it reads \<open>C_size1\<close>,
  \<open>C_size2\<close> and the inner dimension of \<open>op(A)\<close>.
\<close>

definition detail_prod ::
  "(nat \<Rightarrow> nat \<Rightarrow> nat \<Rightarrow> block_sizes) \<Rightarrow> (nat \<Rightarrow> nat \<Rightarrow> nat \<Rightarrow> 'a)
     \<Rightarrow> 'a::{zero, plus, times, ord} matrix_base \<Rightarrow> bool \<Rightarrow> 'a matrix_base \<Rightarrow> bool
     \<Rightarrow> matrix_array_wrapper \<Rightarrow> (nat \<Rightarrow> 'a) \<Rightarrow> nat \<Rightarrow> nat \<Rightarrow> 'a \<Rightarrow> 'a
     \<Rightarrow> error + (nat \<Rightarrow> 'a)" where
  "detail_prod get_block_sizes fresh A A_trans B B_trans C C_data C_size1 C_size2 alpha beta =
     (let A_size1 = size1 A; A_size2 = size2 A
      in if C_size1 = 0 \<or> C_size2 = 0 \<or> (if A_trans then A_size1 else A_size2) = 0
         then Inr C_data
         else
           let g = gemm_setup_of get_block_sizes A A_trans B B_trans C alpha beta;
               mc = b_mc (g_blocks g); nc = b_nc (g_blocks g);
               mr = b_mr (g_blocks g); nr = b_nr (g_blocks g)
           in if \<not> (mc mod mr = 0 \<and> nc mod nr = 0)
              then Inl Assertion_failed
              else
                let num_blocks_C2 = (g_n_size g + size_sub nc 1) div nc
                in Inr (fold (block_C2B2 g fresh) [0..<num_blocks_C2] C_data))"

text \<open>\<^verbatim>\<open>prod_impl\<close> for two matrices: the dispatch on the layout of \<open>C\<close>.\<close>

definition prod_impl ::
  "(nat \<Rightarrow> nat \<Rightarrow> nat \<Rightarrow> block_sizes) \<Rightarrow> (nat \<Rightarrow> nat \<Rightarrow> nat \<Rightarrow> 'a)
     \<Rightarrow> 'a::{zero, plus, times, ord} matrix_base \<Rightarrow> bool \<Rightarrow> 'a matrix_base \<Rightarrow> bool
     \<Rightarrow> 'a matrix_base \<Rightarrow> 'a \<Rightarrow> 'a \<Rightarrow> error + 'a matrix_base" where
  "prod_impl get_block_sizes fresh A trans_A B trans_B C alpha beta =
     (let C_size1 = size1 C; C_size2 = size2 C
      in if row_major C
         then (let wrapper_C = wrapper_of True C
               in map_sum id (\<lambda>d. C\<lparr>elements := d\<rparr>)
                    (detail_prod get_block_sizes fresh A trans_A B trans_B wrapper_C (elements C)
                       C_size1 C_size2 alpha beta))
         else (let wrapper_C = wrapper_of False C
               in map_sum id (\<lambda>d. C\<lparr>elements := d\<rparr>)
                    (detail_prod get_block_sizes fresh A trans_A B trans_B wrapper_C (elements C)
                       C_size1 C_size2 alpha beta)))"

text \<open>
  The naive triple loop of the specification: \<open>dot\<close> is the innermost loop, the sum over
  the \<open>k\<close> dimension, and \<open>gemm_reference\<close> is the value \<open>C'(i, j)\<close>.
\<close>

definition dot :: "'a::{zero, plus, times} matrix_base \<Rightarrow> bool \<Rightarrow> 'a matrix_base \<Rightarrow> bool \<Rightarrow> nat
     \<Rightarrow> nat \<Rightarrow> nat \<Rightarrow> 'a" where
  "dot A A_trans B B_trans k i j =
     fold (\<lambda>p acc. acc + op_entry A A_trans i p * op_entry B B_trans p j) [0..<k] 0"

definition gemm_reference ::
  "'a::{zero, plus, times} matrix_base \<Rightarrow> bool \<Rightarrow> 'a matrix_base \<Rightarrow> bool \<Rightarrow> 'a matrix_base
     \<Rightarrow> 'a \<Rightarrow> 'a \<Rightarrow> nat \<Rightarrow> nat \<Rightarrow> 'a" where
  "gemm_reference A A_trans B B_trans C alpha beta i j =
     alpha * dot A A_trans B B_trans (if A_trans then size1 A else size2 A) i j
     + beta * entry C i j"

subsection \<open>Notions used to state what the product computes\<close>

text \<open>
  The block sizes \<^verbatim>\<open>detail::prod\<close> relies on: none is zero, and the assertion after
  \<^verbatim>\<open>get_block_sizes\<close> holds.
\<close>

definition valid_blocks :: "block_sizes \<Rightarrow> bool" where
  "valid_blocks b =
     (0 < b_mc b \<and> 0 < b_kc b \<and> 0 < b_nc b \<and> 0 < b_mr b \<and> 0 < b_nr b
      \<and> b_mc b mod b_mr b = 0 \<and> b_nc b mod b_nr b = 0)"

text \<open>
  A setup as \<^verbatim>\<open>detail::prod\<close> builds it from operands whose dimensions the
  dispatcher has checked: the product sizes are those of \<open>op(A)\<close> and \<open>op(B)\<close>, whose inner
  dimensions agree, the block sizes are valid, and the accessor of \<open>C\<close> addresses an
  \<open>m_size\<close> by \<open>n_size\<close> matrix without overlap.
\<close>

definition gemm_ok :: "'a gemm_setup \<Rightarrow> bool" where
  "gemm_ok g =
     (valid_blocks (g_blocks g)
      \<and> wrapper_fits (g_C g) (g_m_size g) (g_n_size g)
      \<and> g_m_size g = (if g_A_trans g then size2 (g_A g) else size1 (g_A g))
      \<and> g_k_size g = (if g_A_trans g then size1 (g_A g) else size2 (g_A g))
      \<and> g_k_size g = (if g_B_trans g then size2 (g_B g) else size1 (g_B g))
      \<and> g_n_size g = (if g_B_trans g then size1 (g_B g) else size2 (g_B g)))"

text \<open>
  The sum a micro-tile holds for cell \<open>(i, j)\<close> in the \<open>k\<close>-block \<open>A2B1_idx\<close>, and the value
  the write-back leaves in a cell of \<open>C\<close> that held \<open>old\<close>.
\<close>

definition tile_dot :: "'a::{zero, plus, times} gemm_setup \<Rightarrow> nat \<Rightarrow> nat \<Rightarrow> nat \<Rightarrow> 'a" where
  "tile_dot g A2B1_idx i j =
     fold (\<lambda>p acc. acc + op_entry (g_A g) (g_A_trans g) i (A2B1_idx * b_kc (g_blocks g) + p)
                        * op_entry (g_B g) (g_B_trans g) (A2B1_idx * b_kc (g_blocks g) + p) j)
       [0..<min (b_kc (g_blocks g)) (g_k_size g - A2B1_idx * b_kc (g_blocks g))] 0"

definition cell_update :: "'a::{zero, plus, times, ord} \<Rightarrow> 'a \<Rightarrow> nat \<Rightarrow> 'a \<Rightarrow> 'a \<Rightarrow> 'a" where
  "cell_update alpha beta A2B1_idx t old =
     (if beta > 0 \<or> beta < 0 then beta * old + alpha * t
      else if A2B1_idx = 0 then alpha * t
      else old + alpha * t)"

text \<open>
  The value the write-backs of all \<open>k\<close>-blocks, in their order, leave in a cell \<open>(i, j)\<close>
  of \<open>C\<close> that held \<open>old\<close>.
\<close>

definition gemm_cell :: "'a::{zero, plus, times, ord} gemm_setup \<Rightarrow> nat \<Rightarrow> nat \<Rightarrow> 'a \<Rightarrow> 'a" where
  "gemm_cell g i j old =
     fold (\<lambda>A2B1_idx c. cell_update (g_alpha g) (g_beta g) A2B1_idx (tile_dot g A2B1_idx i j) c)
       [0..<(g_k_size g + (b_kc (g_blocks g) - 1)) div b_kc (g_blocks g)] old"

text \<open>
  \<open>updated w m n d0 d R f\<close>: buffer \<open>d\<close> is buffer \<open>d0\<close> with \<open>f i j\<close> applied to every cell
  \<open>(i, j)\<close> of region \<open>R\<close> of the \<open>m\<close> by \<open>n\<close> matrix that \<open>w\<close> addresses, and nothing else
  changed.
\<close>

definition updated ::
  "matrix_array_wrapper \<Rightarrow> nat \<Rightarrow> nat \<Rightarrow> (nat \<Rightarrow> 'a) \<Rightarrow> (nat \<Rightarrow> 'a) \<Rightarrow> (nat \<Rightarrow> nat \<Rightarrow> bool)
     \<Rightarrow> (nat \<Rightarrow> nat \<Rightarrow> 'a \<Rightarrow> 'a) \<Rightarrow> bool" where
  "updated w m n d0 d R f =
     ((\<forall>i<m. \<forall>j<n. d (wrapper_index w i j)
          = (if R i j then f i j (d0 (wrapper_index w i j)) else d0 (wrapper_index w i j)))
      \<and> (\<forall>a. a \<notin> cell_addresses w m n \<longrightarrow> d a = d0 a))"

text \<open>The packed buffers hold the valid cells of the blocks they were packed for.\<close>

definition packed_A :: "'a gemm_setup \<Rightarrow> (nat \<Rightarrow> 'a) \<Rightarrow> nat \<Rightarrow> nat \<Rightarrow> bool" where
  "packed_A g buf C1A1_idx A2B1_idx =
     (\<forall>s i p. i < b_mr (g_blocks g) \<longrightarrow> p < b_kc (g_blocks g)
        \<longrightarrow> s * b_mr (g_blocks g) < b_mc (g_blocks g)
        \<longrightarrow> C1A1_idx * b_mc (g_blocks g) + s * b_mr (g_blocks g) + i < g_m_size g
        \<longrightarrow> A2B1_idx * b_kc (g_blocks g) + p < g_k_size g
        \<longrightarrow> buf (s * b_mr (g_blocks g) * b_kc (g_blocks g) + (p * b_mr (g_blocks g) + i))
            = op_entry (g_A g) (g_A_trans g)
                (C1A1_idx * b_mc (g_blocks g) + s * b_mr (g_blocks g) + i)
                (A2B1_idx * b_kc (g_blocks g) + p))"

definition packed_B :: "'a gemm_setup \<Rightarrow> (nat \<Rightarrow> 'a) \<Rightarrow> nat \<Rightarrow> nat \<Rightarrow> bool" where
  "packed_B g buf C2B2_idx A2B1_idx =
     (\<forall>s j p. j < b_nr (g_blocks g) \<longrightarrow> p < b_kc (g_blocks g)
        \<longrightarrow> s * b_nr (g_blocks g) < b_nc (g_blocks g)
        \<longrightarrow> C2B2_idx * b_nc (g_blocks g) + s * b_nr (g_blocks g) + j < g_n_size g
        \<longrightarrow> A2B1_idx * b_kc (g_blocks g) + p < g_k_size g
        \<longrightarrow> buf (s * b_nr (g_blocks g) * b_kc (g_blocks g) + (p * b_nr (g_blocks g) + j))
            = op_entry (g_B g) (g_B_trans g)
                (A2B1_idx * b_kc (g_blocks g) + p)
                (C2B2_idx * b_nc (g_blocks g) + s * b_nr (g_blocks g) + j))"

text \<open>The number of slivers the loops run in block \<open>b\<close> of a dimension of size \<open>n\<close>.\<close>

definition max_sliver_idx :: "nat \<Rightarrow> nat \<Rightarrow> nat \<Rightarrow> nat \<Rightarrow> nat" where
  "max_sliver_idx n bs sr b =
     (if size_sub n (b * bs) < bs then (n mod bs + size_sub sr 1) div sr else bs div sr)"

text \<open>
  What the dispatcher guarantees of a call of \<^verbatim>\<open>prod_impl\<close>: \<open>C\<close> is a valid view of
  the shape of the product, the inner dimensions of \<open>op(A)\<close> and \<open>op(B)\<close> agree, and the
  block sizes chosen for the product are valid.
\<close>

definition prod_impl_ok ::
  "(nat \<Rightarrow> nat \<Rightarrow> nat \<Rightarrow> block_sizes) \<Rightarrow> 'a matrix_base \<Rightarrow> bool \<Rightarrow> 'a matrix_base \<Rightarrow> bool
     \<Rightarrow> 'a matrix_base \<Rightarrow> bool" where
  "prod_impl_ok get_block_sizes A trans_A B trans_B C =
     (valid_view C
      \<and> size1 C = (if trans_A then size2 A else size1 A)
      \<and> size2 C = (if trans_B then size1 B else size2 B)
      \<and> (if trans_A then size1 A else size2 A) = (if trans_B then size2 B else size1 B)
      \<and> valid_blocks (get_block_sizes (if trans_A then size2 A else size1 A)
                         (if trans_A then size1 A else size2 A)
                         (if trans_B then size1 B else size2 B)))"

subsection \<open>Example inputs\<close>

definition example_padded :: "int matrix_base" where
  "example_padded =
     \<lparr> elements = (\<lambda>a. int a), start1 = 0, start2 = 0, stride1 = 1, stride2 = 1,
       size1 = 2, size2 = 2, internal_size1 = 3, internal_size2 = 3, row_major = True \<rparr>"

definition example_tall :: "int matrix_base" where
  "example_tall =
     \<lparr> elements = (\<lambda>a. 10 + int a), start1 = 0, start2 = 0, stride1 = 1, stride2 = 1,
       size1 = 3, size2 = 2, internal_size1 = 3, internal_size2 = 2, row_major = True \<rparr>"

definition example_vector :: "int vector_base" where
  "example_vector = \<lparr> v_elements = (\<lambda>a. - 1), v_start = 0, v_stride = 1, v_size = 3 \<rparr>"

definition example_rat :: "rat matrix_base" where
  "example_rat =
     \<lparr> elements = (\<lambda>a. of_nat a), start1 = 0, start2 = 1, stride1 = 1, stride2 = 2,
       size1 = 2, size2 = 2, internal_size1 = 2, internal_size2 = 4, row_major = True \<rparr>"

definition example_rat_dest :: "rat matrix_base" where
  "example_rat_dest =
     \<lparr> elements = (\<lambda>a. 0), start1 = 0, start2 = 0, stride1 = 1, stride2 = 1,
       size1 = 2, size2 = 2, internal_size1 = 2, internal_size2 = 2, row_major = True \<rparr>"

definition example_rat_col :: "rat matrix_base" where
  "example_rat_col = example_rat_dest\<lparr>row_major := False\<rparr>"

definition example_wide :: "int matrix_base" where
  "example_wide =
     \<lparr> elements = (\<lambda>a. 100 + int a), start1 = 1, start2 = 0, stride1 = 1, stride2 = 2,
       size1 = 2, size2 = 3, internal_size1 = 3, internal_size2 = 6, row_major = True \<rparr>"

definition example_temp :: "int matrix_base" where
  "example_temp =
     \<lparr> elements = (\<lambda>a. 0), start1 = 0, start2 = 1, stride1 = 1, stride2 = 1,
       size1 = 3, size2 = 2, internal_size1 = 3, internal_size2 = 4, row_major = True \<rparr>"

definition example_back :: "int matrix_base" where
  "example_back =
     \<lparr> elements = (\<lambda>a. 0), start1 = 0, start2 = 0, stride1 = 1, stride2 = 1,
       size1 = 2, size2 = 3, internal_size1 = 2, internal_size2 = 3, row_major = True \<rparr>"

text \<open>
  A 1 by 2 matrix times a 2 by 1 matrix with block sizes 1: two \<open>k\<close>-blocks. Over the
  integers, and over \<open>numeric\<close> with a \<open>C\<close> that holds NaN.
\<close>

definition unit_blocks :: "nat \<Rightarrow> nat \<Rightarrow> nat \<Rightarrow> block_sizes" where
  "unit_blocks m k n = \<lparr> b_mc = 1, b_kc = 1, b_nc = 1, b_mr = 1, b_nr = 1 \<rparr>"

definition example_row :: "int matrix_base" where
  "example_row =
     \<lparr> elements = (\<lambda>a. 1), start1 = 0, start2 = 0, stride1 = 1, stride2 = 1,
       size1 = 1, size2 = 2, internal_size1 = 1, internal_size2 = 2, row_major = True \<rparr>"

definition example_col :: "int matrix_base" where
  "example_col =
     \<lparr> elements = (\<lambda>a. 1), start1 = 0, start2 = 0, stride1 = 1, stride2 = 1,
       size1 = 2, size2 = 1, internal_size1 = 2, internal_size2 = 1, row_major = True \<rparr>"

definition example_cell :: "int matrix_base" where
  "example_cell =
     \<lparr> elements = (\<lambda>a. 1), start1 = 0, start2 = 0, stride1 = 1, stride2 = 1,
       size1 = 1, size2 = 1, internal_size1 = 1, internal_size2 = 1, row_major = True \<rparr>"

definition numeric_row :: "numeric matrix_base" where
  "numeric_row =
     \<lparr> elements = (\<lambda>a. if a = 0 then Num 1 else Num 2), start1 = 0, start2 = 0,
       stride1 = 1, stride2 = 1,
       size1 = 1, size2 = 2, internal_size1 = 1, internal_size2 = 2, row_major = True \<rparr>"

definition numeric_col :: "numeric matrix_base" where
  "numeric_col =
     \<lparr> elements = (\<lambda>a. if a = 0 then Num 3 else Num 4), start1 = 0, start2 = 0,
       stride1 = 1, stride2 = 1,
       size1 = 2, size2 = 1, internal_size1 = 2, internal_size2 = 1, row_major = True \<rparr>"

definition numeric_cell :: "numeric matrix_base" where
  "numeric_cell =
     \<lparr> elements = (\<lambda>a. NaN), start1 = 0, start2 = 0, stride1 = 1, stride2 = 1,
       size1 = 1, size2 = 1, internal_size1 = 1, internal_size2 = 1, row_major = True \<rparr>"

text \<open>A 3 by 2 matrix times a 2 by 3 matrix with blocks that do not divide the sizes.\<close>

definition odd_blocks :: "nat \<Rightarrow> nat \<Rightarrow> nat \<Rightarrow> block_sizes" where
  "odd_blocks m k n = \<lparr> b_mc = 2, b_kc = 3, b_nc = 4, b_mr = 2, b_nr = 2 \<rparr>"

definition example_3x2 :: "int matrix_base" where
  "example_3x2 =
     \<lparr> elements = (\<lambda>a. int a), start1 = 0, start2 = 0, stride1 = 1, stride2 = 1,
       size1 = 3, size2 = 2, internal_size1 = 3, internal_size2 = 2, row_major = True \<rparr>"

definition example_2x3 :: "int matrix_base" where
  "example_2x3 =
     \<lparr> elements = (\<lambda>a. int a), start1 = 0, start2 = 0, stride1 = 1, stride2 = 1,
       size1 = 2, size2 = 3, internal_size1 = 2, internal_size2 = 3, row_major = False \<rparr>"

definition example_3x3 :: "int matrix_base" where
  "example_3x3 =
     \<lparr> elements = (\<lambda>a. 50 + int a), start1 = 0, start2 = 0, stride1 = 1, stride2 = 1,
       size1 = 3, size2 = 3, internal_size1 = 4, internal_size2 = 4, row_major = True \<rparr>"

text \<open>An empty product: the inner dimension is zero.\<close>

definition example_2x0 :: "int matrix_base" where
  "example_2x0 =
     \<lparr> elements = (\<lambda>a. 0), start1 = 0, start2 = 0, stride1 = 1, stride2 = 1,
       size1 = 2, size2 = 0, internal_size1 = 2, internal_size2 = 0, row_major = True \<rparr>"

definition example_0x2 :: "int matrix_base" where
  "example_0x2 =
     \<lparr> elements = (\<lambda>a. 0), start1 = 0, start2 = 0, stride1 = 1, stride2 = 1,
       size1 = 0, size2 = 2, internal_size1 = 0, internal_size2 = 2, row_major = True \<rparr>"

text \<open>A setup with \<open>beta = NaN\<close> and \<open>alpha = 2\<close> for a single cell of \<open>C\<close>.\<close>

definition nan_setup :: "numeric gemm_setup" where
  "nan_setup =
     gemm_setup_of unit_blocks numeric_row False numeric_col False
       (wrapper_of True numeric_cell) (Num 2) NaN"

definition odd_setup :: "int gemm_setup" where
  "odd_setup =
     gemm_setup_of odd_blocks example_3x2 False example_2x3 False
       (wrapper_of (row_major example_3x3) example_3x3) 1 1"

text \<open>The setup of the product of \<open>example_row\<close> and \<open>example_col\<close> with \<open>alpha = 1\<close>, \<open>beta = 2\<close>.\<close>

definition two_block_setup :: "int gemm_setup" where
  "two_block_setup =
     gemm_setup_of unit_blocks example_row False example_col False
       (wrapper_of (row_major example_cell) example_cell) 1 2"

text \<open>
  A state of the loops of \<open>odd_setup\<close>: both packed buffers hold 1 everywhere, the
  accumulator holds 9, and the buffer of \<open>C\<close> is that of \<open>example_3x3\<close>.
\<close>

definition example_state :: "int gemm_state" where
  "example_state =
     \<lparr> data_C = elements example_3x3, buffer_A = (\<lambda>t. 1), buffer_B = (\<lambda>t. 1),
       buffer_C = (\<lambda>t. 9) \<rparr>"

section \<open>Properties\<close>

subsection \<open>Loops of cell updates\<close>

lemma fold_product:
  "fold (\<lambda>x. fold (\<lambda>y. f x y) ys) xs = fold (\<lambda>(x, y). f x y) (List.product xs ys)"
proof (induction xs)
  case Nil
  show ?case by simp
next
  case (Cons x xs)
  have "fold (\<lambda>(x, y). f x y) (map (Pair x) ys) = fold (\<lambda>y. f x y) ys"
    by (simp add: fold_map comp_def)
  with Cons show ?case by simp
qed

lemma fold_update_outside:
  "a \<notin> ad ` set xs \<Longrightarrow> fold (\<lambda>x b. b(ad x := h x b)) xs b a = b a"
  by (induction xs arbitrary: b) auto

lemma fold_assign_inside:
  "x \<in> set xs \<Longrightarrow> inj_on ad (set xs) \<Longrightarrow> fold (\<lambda>x b. b(ad x := v x)) xs b (ad x) = v x"
proof (induction xs arbitrary: b)
  case Nil
  then show ?case by simp
next
  case (Cons y ys)
  let ?F = "\<lambda>x b. b(ad x := v x)"
  have step: "fold ?F (y # ys) b = fold ?F ys (b(ad y := v y))"
    by (simp only: fold_simps)
  have inj: "inj_on ad (set ys)"
    using Cons.prems(2) by (simp add: inj_on_def)
  show ?case
  proof (cases "x \<in> set ys")
    case True
    show ?thesis unfolding step by (rule Cons.IH [OF True inj])
  next
    case False
    with Cons.prems have xy: "x = y" by simp
    have "ad y \<notin> ad ` set ys"
      using Cons.prems(2) False xy by (auto simp: inj_on_def)
    then have "fold ?F ys (b(ad y := v y)) (ad y) = (b(ad y := v y)) (ad y)"
      by (rule fold_update_outside)
    then show ?thesis unfolding step xy by (simp only: fun_upd_same)
  qed
qed

lemma fold_const_inside:
  "a \<in> ad ` set xs \<Longrightarrow> fold (\<lambda>x b. b(ad x := s)) xs b a = s"
proof (induction xs arbitrary: b)
  case Nil
  then show ?case by simp
next
  case (Cons y ys)
  let ?F = "\<lambda>x b. b(ad x := s)"
  have step: "fold ?F (y # ys) b = fold ?F ys (b(ad y := s))"
    by (simp only: fold_simps)
  show ?case
  proof (cases "a \<in> ad ` set ys")
    case True
    show ?thesis unfolding step by (rule Cons.IH [OF True])
  next
    case False
    with Cons.prems have ay: "a = ad y" by simp
    have "fold ?F ys (b(ad y := s)) a = (b(ad y := s)) a"
      using False by (rule fold_update_outside)
    then show ?thesis unfolding step ay by (simp only: fun_upd_same)
  qed
qed

lemma cell_addressesI:
  "i < n1 \<Longrightarrow> j < n2 \<Longrightarrow> wrapper_index w i j \<in> cell_addresses w n1 n2"
  unfolding cell_addresses_def by force


subsection \<open>Assignment of a scalar\<close>



subsection \<open>Copying a row or a column into a vector\<close>

text \<open>
  Claim C10. A row copy (\<open>copy_col\<close> false) stores \<open>A(row_start, i)\<close> at
  \<open>V[i - col_start]\<close> for \<open>col_start \<le> i < size1 A\<close>: the bound of the row loop is the
  row count \<open>size1 A\<close>, the same bound as the column loop's, so the number of elements
  copied from a row is \<open>size1 A - col_start\<close> and every later element of \<open>V\<close> keeps its
  value.
\<close>

theorem copy_vec_row:
  assumes "col_start \<le> i" and "i < size1 A" and "row_start \<le> r" and "r < size1 A"
    and "size1 A - col_start \<le> t"
  shows "v_elements (copy_vec A V row_start col_start False) (i - col_start) = entry A row_start i
       \<and> v_elements (copy_vec A V row_start col_start True) (r - row_start) = entry A r col_start
       \<and> v_elements (copy_vec A V row_start col_start False) t = v_elements V t"
proof -
  have inj_c: "inj_on (\<lambda>i. i - col_start) (set [col_start..<size1 A])"
    by (auto simp: inj_on_def)
  have inj_r: "inj_on (\<lambda>i. i - row_start) (set [row_start..<size1 A])"
    by (auto simp: inj_on_def)
  have mem_c: "i \<in> set [col_start..<size1 A]" using assms(1,2) by simp
  have mem_r: "r \<in> set [row_start..<size1 A]" using assms(3,4) by simp
  have out: "t \<notin> (\<lambda>i. i - col_start) ` set [col_start..<size1 A]"
    using assms(5) by auto
  note a = fold_assign_inside [OF mem_c inj_c, where b = "v_elements V"]
  note b = fold_assign_inside [OF mem_r inj_r, where b = "v_elements V"]
  note c = fold_update_outside [OF out, where b = "v_elements V"]
  show ?thesis
    by (simp add: copy_vec_def entry_def wrapper_index_def wrapper_of_def a b c)
qed

text \<open>
  On a 3 by 2 matrix the row copy of row 1 runs to index 2, one past the last column:
  it reads offset 4 of the buffer, which is cell \<open>(2, 0)\<close>.
\<close>

theorem copy_vec_row_witness:
  "v_elements (copy_vec example_tall example_vector 1 0 False) 2 = entry example_tall 1 2
   \<and> entry example_tall 1 2 = 14
   \<and> v_elements (copy_vec example_tall example_vector 1 0 True) 1 = entry example_tall 2 0
   \<and> v_elements (copy_vec example_tall example_vector 1 0 False) 3 = - 1"
  using copy_vec_row [of 0 2 example_tall 1 2 3 example_vector]
  by code_simp

subsection \<open>Distinct cells have distinct offsets\<close>

lemma linear_index_inj:
  fixes a b n :: nat
  assumes "b < n" and "b' < n" and "a * n + b = a' * n + b'"
  shows "a = a' \<and> b = b'"
proof -
  have "(a * n + b) div n = a" "(a' * n + b') div n = a'"
    using assms(1,2) by simp_all
  then have "a = a'" using assms(3) by simp
  with assms(3) show ?thesis by simp
qed

lemma stride_cancel:
  fixes i i' inc s :: nat
  shows "0 < inc \<Longrightarrow> i * inc + s = i' * inc + s \<Longrightarrow> i = i'"
  by simp

lemma wrapper_index_inj:
  assumes fits: "wrapper_fits w n1 n2"
    and "i < n1" "j < n2" "i' < n1" "j' < n2"
    and eq: "wrapper_index w i j = wrapper_index w i' j'"
  shows "i = i' \<and> j = j'"
proof (cases "w_row_major w")
  case True
  let ?I = "w_internal_size2 w"
  have b: "(n2 - 1) * w_inc2 w + w_start2 w < ?I" and p1: "0 < w_inc1 w" and p2: "0 < w_inc2 w"
    using fits True by (simp_all add: wrapper_fits_def)
  have "j * w_inc2 w \<le> (n2 - 1) * w_inc2 w" "j' * w_inc2 w \<le> (n2 - 1) * w_inc2 w"
    using assms(3,5) by (auto intro!: mult_le_mono1)
  then have lt: "j * w_inc2 w + w_start2 w < ?I" "j' * w_inc2 w + w_start2 w < ?I"
    using b by linarith+
  have e: "(i * w_inc1 w + w_start1 w) * ?I + (j * w_inc2 w + w_start2 w)
         = (i' * w_inc1 w + w_start1 w) * ?I + (j' * w_inc2 w + w_start2 w)"
    using eq True unfolding wrapper_index_def row_major_mem_index_def by simp
  from linear_index_inj [OF lt e]
  show ?thesis using stride_cancel [OF p1] stride_cancel [OF p2] by blast
next
  case False
  let ?I = "w_internal_size1 w"
  have b: "(n1 - 1) * w_inc1 w + w_start1 w < ?I" and p1: "0 < w_inc1 w" and p2: "0 < w_inc2 w"
    using fits False by (simp_all add: wrapper_fits_def)
  have "i * w_inc1 w \<le> (n1 - 1) * w_inc1 w" "i' * w_inc1 w \<le> (n1 - 1) * w_inc1 w"
    using assms(2,4) by (auto intro!: mult_le_mono1)
  then have lt: "i * w_inc1 w + w_start1 w < ?I" "i' * w_inc1 w + w_start1 w < ?I"
    using b by linarith+
  have e: "(j * w_inc2 w + w_start2 w) * ?I + (i * w_inc1 w + w_start1 w)
         = (j' * w_inc2 w + w_start2 w) * ?I + (i' * w_inc1 w + w_start1 w)"
    using eq False unfolding wrapper_index_def column_major_mem_index_def
    by (simp add: add.commute)
  from linear_index_inj [OF lt e]
  show ?thesis using stride_cancel [OF p1] stride_cancel [OF p2] by blast
qed

lemma valid_view_fits:
  "valid_view m \<Longrightarrow> wrapper_fits (wrapper_of l m) (size1 m) (size2 m)"
  by (simp add: valid_view_def wrapper_fits_def wrapper_of_def add.commute)

lemma rows_cols_assign:
  assumes "wrapper_fits w n1 n2" and "i < n1" and "j < n2"
  shows "fold (\<lambda>row. fold (\<lambda>col b. b(wrapper_index w row col := v row col)) [0..<n2])
           [0..<n1] b (wrapper_index w i j) = v i j"
proof -
  let ?xs = "List.product [0..<n1] [0..<n2]"
  have inj: "inj_on (\<lambda>(r, c). wrapper_index w r c) (set ?xs)"
    using wrapper_index_inj [OF assms(1)] by (auto simp: inj_on_def)
  have mem: "(i, j) \<in> set ?xs" using assms(2,3) by simp
  have "fold (\<lambda>x b. b((case x of (r, c) \<Rightarrow> wrapper_index w r c) := (case x of (r, c) \<Rightarrow> v r c)))
          ?xs b ((\<lambda>(r, c). wrapper_index w r c) (i, j)) = (case (i, j) of (r, c) \<Rightarrow> v r c)"
    by (rule fold_assign_inside [OF mem inj])
  then show ?thesis
    by (simp add: fold_product case_prod_unfold)
qed

lemma cols_rows_assign:
  assumes "wrapper_fits w n1 n2" and "i < n1" and "j < n2"
  shows "fold (\<lambda>col. fold (\<lambda>row b. b(wrapper_index w row col := v row col)) [0..<n1])
           [0..<n2] b (wrapper_index w i j) = v i j"
proof -
  let ?xs = "List.product [0..<n2] [0..<n1]"
  have inj: "inj_on (\<lambda>(c, r). wrapper_index w r c) (set ?xs)"
    using wrapper_index_inj [OF assms(1)] by (auto simp: inj_on_def)
  have mem: "(j, i) \<in> set ?xs" using assms(2,3) by simp
  have "fold (\<lambda>x b. b((case x of (c, r) \<Rightarrow> wrapper_index w r c) := (case x of (c, r) \<Rightarrow> v r c)))
          ?xs b ((\<lambda>(c, r). wrapper_index w r c) (j, i)) = (case (j, i) of (c, r) \<Rightarrow> v r c)"
    by (rule fold_assign_inside [OF mem inj])
  then show ?thesis
    by (simp add: fold_product case_prod_unfold)
qed

subsection \<open>Element-wise operations\<close>

text \<open>
  Claim C7. Every element-wise operation (\<open>convert\<close>, \<open>am\<close>, \<open>ambm\<close>, \<open>element_op\<close> for
  binary and for unary operations) asserts on entry that all its operands have the same
  \<open>row_major\<close> flag: the call fails, before any cell of the destination is written,
  exactly when two of its operands differ in the flag, and it returns a matrix
  exactly when all flags agree.
\<close>

theorem elementwise_layout_assertion:
  "isl (convert cast (mat1 :: 'a matrix_base) (mat2 :: 'b matrix_base))
     = (row_major mat1 \<noteq> row_major mat2)
   \<and> isl (am (m1 :: 'c::{times, uminus, inverse} matrix_base) m2 alpha len_alpha ra fa)
     = (row_major m1 \<noteq> row_major m2)
   \<and> isl (ambm (a1 :: 'd::{plus, times, uminus, inverse} matrix_base) a2 alpha' la ra' fa'
              a3 beta' lb rb fb)
     = (row_major a1 \<noteq> row_major a2 \<or> row_major a1 \<noteq> row_major a3
        \<or> row_major a2 \<noteq> row_major a3)
   \<and> isl (element_op op (A :: 'e matrix_base) lhs rhs)
     = (row_major A \<noteq> row_major lhs \<or> row_major A \<noteq> row_major rhs
        \<or> row_major lhs \<noteq> row_major rhs)
   \<and> isl (element_op_unary op1 (U :: 'f matrix_base) ulhs urhs)
     = (row_major U \<noteq> row_major ulhs \<or> row_major U \<noteq> row_major urhs
        \<or> row_major ulhs \<noteq> row_major urhs)"
  by (auto simp: convert_def am_def ambm_def element_op_def element_op_unary_def Let_def)

text \<open>
  Claim C8. For matrices of one layout, \<open>am\<close> stores in every logical cell \<open>(i, j)\<close> of
  \<open>mat1\<close> the value \<open>mat2(i, j) * alpha'\<close>, or \<open>mat2(i, j) / alpha'\<close> when
  \<open>reciprocal_alpha\<close> is set, where \<open>alpha'\<close> is \<open>- alpha\<close> when \<open>flip_sign_alpha\<close> is set
  and \<open>alpha\<close> otherwise. With both flags set the factor is \<open>1 / (- alpha)\<close>, which is
  \<open>- (1 / alpha)\<close>. The destination is a valid view, so that no two of its cells share
  a buffer offset; the arithmetic is that of a field.
\<close>

theorem am_cells:
  fixes mat1 mat2 :: "'a::field matrix_base"
  assumes "row_major mat1 = row_major mat2" and "valid_view mat1"
    and "i < size1 mat1" and "j < size2 mat1"
  shows "\<not> isl (am mat1 mat2 alpha len_alpha reciprocal_alpha flip_sign_alpha)
     \<and> entry (projr (am mat1 mat2 alpha len_alpha reciprocal_alpha flip_sign_alpha)) i j =
         (if reciprocal_alpha
          then entry mat2 i j / (if flip_sign_alpha then - alpha else alpha)
          else entry mat2 i j * (if flip_sign_alpha then - alpha else alpha))
     \<and> entry (projr (am mat1 mat2 alpha len_alpha True True)) i j
         = entry mat2 i j * (1 / (- alpha))
     \<and> entry (projr (am mat1 mat2 alpha len_alpha True True)) i j
         = entry mat2 i j * (- (1 / alpha))"
proof -
  have fits: "wrapper_fits (wrapper_of l mat1) (size1 mat1) (size2 mat1)" for l
    using assms(2) by (rule valid_view_fits)
  note rc = rows_cols_assign [OF fits assms(3,4), where b = "elements mat1"]
  note cr = cols_rows_assign [OF fits assms(3,4), where b = "elements mat1"]
  have w: "wrapper_of l (mat1\<lparr>elements := e\<rparr>) = wrapper_of l mat1" for l e
    by (simp add: wrapper_of_def)
  show ?thesis
    using assms(1)
    by (cases "row_major mat2") (simp_all add: am_def Let_def entry_def w rc cr)
qed

text \<open>
  With \<open>alpha = 2\<close> and a source cell holding 5: both flags give \<open>- 5/2\<close>, the sign
  flag alone \<open>- 10\<close>, no flag \<open>10\<close>.
\<close>

theorem am_cells_witness:
  "\<not> isl (am example_rat_dest example_rat 2 1 True True)
   \<and> entry example_rat 1 0 = 5
   \<and> entry (projr (am example_rat_dest example_rat 2 1 True True)) 1 0 = - (5 / 2)
   \<and> entry (projr (am example_rat_dest example_rat 2 1 False True)) 1 0 = - 10
   \<and> entry (projr (am example_rat_dest example_rat 2 1 False False)) 1 0 = 10"
  using am_cells [of example_rat_dest example_rat 1 0 2 1 True True]
    am_cells [of example_rat_dest example_rat 1 0 2 1 False True]
    am_cells [of example_rat_dest example_rat 1 0 2 1 False False]
  by code_simp

text \<open>Each operation on a mixed-layout call and on a same-layout call.\<close>

theorem elementwise_layout_assertion_witness:
  "isl (convert rat_of_int example_rat_col example_padded)
   \<and> \<not> isl (convert rat_of_int example_rat_dest example_padded)
   \<and> isl (am example_rat_col example_rat 2 1 False False)
   \<and> \<not> isl (am example_rat_dest example_rat 2 1 False False)
   \<and> isl (ambm example_rat_dest example_rat 2 1 False False example_rat_col 3 1 False False)
   \<and> \<not> isl (ambm example_rat_dest example_rat 2 1 False False example_rat 3 1 False False)
   \<and> isl (element_op (*) example_rat_dest example_rat_col example_rat)
   \<and> \<not> isl (element_op (*) example_rat_dest example_rat example_rat)
   \<and> isl (element_op_unary uminus example_rat_col example_rat example_rat)
   \<and> \<not> isl (element_op_unary uminus example_rat_dest example_rat example_rat)"
  using elementwise_layout_assertion [of rat_of_int example_rat_col example_padded
      example_rat_col example_rat 2 1 False False
      example_rat_dest example_rat 2 1 False False example_rat_col 3 1 False False
      "(*)" example_rat_dest example_rat_col example_rat
      uminus example_rat_col example_rat example_rat]
    elementwise_layout_assertion [of rat_of_int example_rat_dest example_padded
      example_rat_dest example_rat 2 1 False False
      example_rat_dest example_rat 2 1 False False example_rat 3 1 False False
      "(*)" example_rat_dest example_rat example_rat
      uminus example_rat_dest example_rat example_rat]
  by code_simp

subsection \<open>Transposition\<close>

lemma sub_mat_size_pos: "0 < sub_mat_size"
  by (simp add: sub_mat_size_def)

lemma wrapper_shift:
  "wrapper_index (wrapper l (s1 + inc1 * o1) (s2 + inc2 * o2) inc1 inc2 n1 n2) a b
     = wrapper_index (wrapper l s1 s2 inc1 inc2 n1 n2) (o1 + a) (o2 + b)"
  by (simp add: wrapper_index_def wrapper_def row_major_mem_index_def
      column_major_mem_index_def algebra_simps)

lemma wrapper_shift1:
  "wrapper_index (wrapper l (s1 + inc1 * o1) s2 inc1 inc2 n1 n2) a b
     = wrapper_index (wrapper l s1 s2 inc1 inc2 n1 n2) (o1 + a) b"
  using wrapper_shift [of l s1 inc1 o1 s2 inc2 0 n1 n2 a b] by simp

lemma wrapper_shift2:
  "wrapper_index (wrapper l s1 (s2 + inc2 * o2) inc1 inc2 n1 n2) a b
     = wrapper_index (wrapper l s1 s2 inc1 inc2 n1 n2) a (o2 + b)"
  using wrapper_shift [of l s1 inc1 0 s2 inc2 o2 n1 n2 a b] by simp

lemma wrapper_whole:
  "wrapper l (start1 m) (start2 m) (stride1 m) (stride2 m) (internal_size1 m) (internal_size2 m)
     = wrapper_of l m"
  by (simp add: wrapper_def wrapper_of_def)

text \<open>The cell update of the transposition, on a pair of source indices.\<close>

lemma trans_matrix_fold:
  "elements (trans_matrix A B) =
     fold (\<lambda>(i, j) b. b(wrapper_index (wrapper_of (row_major A) B) j i :=
                         elements A (wrapper_index (wrapper_of (row_major A) A) i j)))
       (trans_visits (row_major A) (size1 A) (size2 A)) (elements B)"
  by (cases "row_major A")
    (simp_all add: trans_matrix_def trans_visits_def Let_def fold_product fold_map comp_def
      case_prod_unfold wrapper_shift wrapper_shift1 wrapper_shift2 wrapper_whole add.commute)


lemma block_index_decompose:
  fixes S c :: nat
  assumes "0 < S" and "x < r * S" and "y < c * S"
  shows "(x div S * c + y div S) div c = x div S"
    and "(x div S * c + y div S) mod c = y div S"
    and "x div S * c + y div S < r * c"
proof -
  have yc: "y div S < c"
    using assms(1,3) by (simp add: less_mult_imp_div_less)
  have xr: "x div S < r"
    using assms(1,2) by (simp add: less_mult_imp_div_less)
  show "(x div S * c + y div S) div c = x div S" using yc by simp
  show "(x div S * c + y div S) mod c = y div S" using yc by simp
  have "x div S * c + y div S < x div S * c + c" using yc by simp
  also have "\<dots> = Suc (x div S) * c" by simp
  also have "\<dots> \<le> r * c" using xr by (intro mult_le_mono1) simp
  finally show "x div S * c + y div S < r * c" .
qed

lemma trans_visits_set:
  "set (trans_visits l n1 n2) = {..<n1} \<times> {..<n2}"
proof -
  let ?S = sub_mat_size
  let ?rc = "n1 div ?S" and ?cc = "n2 div ?S" and ?rr = "n1 mod ?S" and ?cr = "n2 mod ?S"
  have n1: "n1 = ?rc * ?S + ?rr" and n2: "n2 = ?cc * ?S + ?cr" by simp_all
  have rem: "n2 - ?cr = ?cc * ?S" using n2 by (metis add_diff_cancel_right')
  have S: "0 < ?S" by (rule sub_mat_size_pos)
  show ?thesis
  proof (intro set_eqI iffI)
    fix p assume p: "p \<in> set (trans_visits l n1 n2)"
    obtain x y where xy: "p = (x, y)" by (cases p)
    from p consider
      (main) i j k where "i < ?rc * ?cc" "j < ?S" "k < ?S"
        "(x, y) = (if l then (i div ?cc * ?S + k, i mod ?cc * ?S + j)
                   else (i div ?cc * ?S + j, i mod ?cc * ?S + k))"
    | (right) j k where "j < ?cr" "k < n1" "(x, y) = (k, ?cc * ?S + j)"
    | (bottom) j k where "j < ?rr" "k < n2 - ?cr" "(x, y) = (?rc * ?S + j, k)"
      unfolding trans_visits_def Let_def xy by auto
    then have "x < n1 \<and> y < n2"
    proof cases
      case main
      have cpos: "0 < ?cc" using main(1) by (cases "?cc = 0") simp_all
      have d: "i div ?cc < ?rc"
        using main(1) cpos by (simp add: less_mult_imp_div_less)
      have m: "i mod ?cc < ?cc" using cpos by simp
      have a: "i div ?cc * ?S + t < n1" if "t < ?S" for t
      proof -
        have "i div ?cc * ?S + t < Suc (i div ?cc) * ?S" using that by simp
        also have "\<dots> \<le> ?rc * ?S" using d by (intro mult_le_mono1) simp
        also have "\<dots> \<le> n1" by simp
        finally show ?thesis .
      qed
      have b: "i mod ?cc * ?S + t < n2" if "t < ?S" for t
      proof -
        have "i mod ?cc * ?S + t < Suc (i mod ?cc) * ?S" using that by simp
        also have "\<dots> \<le> ?cc * ?S" using m by (intro mult_le_mono1) simp
        also have "\<dots> \<le> n2" by simp
        finally show ?thesis .
      qed
      show ?thesis
        using main(4) a [OF main(2)] a [OF main(3)] b [OF main(2)] b [OF main(3)]
        by (auto split: if_splits)
    next
      case right
      have "?cc * ?S + j < ?cc * ?S + ?cr" using right(1) by (rule add_strict_left_mono)
      also have "\<dots> = n2" by simp
      finally show ?thesis using right by simp
    next
      case bottom
      have "?rc * ?S + j < ?rc * ?S + ?rr" using bottom(1) by (rule add_strict_left_mono)
      also have "\<dots> = n1" by simp
      finally show ?thesis using bottom by simp
    qed
    then show "p \<in> {..<n1} \<times> {..<n2}" by (simp add: xy)
  next
    fix p assume "p \<in> {..<n1} \<times> {..<n2}"
    then obtain x y where xy: "p = (x, y)" and x: "x < n1" and y: "y < n2" by auto
    show "p \<in> set (trans_visits l n1 n2)"
    proof (cases "?cc * ?S \<le> y")
      case True
      then have "y - ?cc * ?S < ?cr" "y = ?cc * ?S + (y - ?cc * ?S)" using y n2 by linarith+
      then have "(x, y) \<in> (\<lambda>(j, k). (k, ?cc * ?S + j)) ` ({..<?cr} \<times> {..<n1})"
        using x by (intro image_eqI [where x = "(y - ?cc * ?S, x)"]) auto
      then show ?thesis unfolding trans_visits_def Let_def xy
        by (simp add: lessThan_atLeast0)
    next
      case False
      then have yc: "y < ?cc * ?S" by simp
      show ?thesis
      proof (cases "?rc * ?S \<le> x")
        case True
        then have "x - ?rc * ?S < ?rr" "x = ?rc * ?S + (x - ?rc * ?S)" using x n1 by linarith+
        then have "(x, y) \<in> (\<lambda>(j, k). (?rc * ?S + j, k)) ` ({..<?rr} \<times> {..<n2 - ?cr})"
          using yc rem by (intro image_eqI [where x = "(x - ?rc * ?S, y)"]) auto
        then show ?thesis unfolding trans_visits_def Let_def xy
          by (simp add: lessThan_atLeast0)
      next
        case False
        then have xr: "x < ?rc * ?S" by simp
        let ?t = "x div ?S * ?cc + y div ?S"
        note dec = block_index_decompose [OF S xr yc]
        have ms: "x mod ?S < ?S" "y mod ?S < ?S" using S by simp_all
        have e1: "?t div ?cc * ?S + x mod ?S = x" by (simp only: dec div_mult_mod_eq)
        have e2: "?t mod ?cc * ?S + y mod ?S = y" by (simp only: dec div_mult_mod_eq)
        have "(x, y) = (\<lambda>(i, j, k).
               if l then (i div ?cc * ?S + k, i mod ?cc * ?S + j)
               else (i div ?cc * ?S + j, i mod ?cc * ?S + k))
             (?t, if l then y mod ?S else x mod ?S, if l then x mod ?S else y mod ?S)"
          by (cases l) (simp_all only: case_prod_conv if_True if_False e1 e2)
        moreover have "(?t, if l then y mod ?S else x mod ?S, if l then x mod ?S else y mod ?S)
            \<in> {..<?rc * ?cc} \<times> {..<?S} \<times> {..<?S}"
          using dec(3) ms by simp
        ultimately have "(x, y) \<in> (\<lambda>(i, j, k).
               if l then (i div ?cc * ?S + k, i mod ?cc * ?S + j)
               else (i div ?cc * ?S + j, i mod ?cc * ?S + k))
             ` ({..<?rc * ?cc} \<times> {..<?S} \<times> {..<?S})"
          by (rule image_eqI)
        then show ?thesis unfolding trans_visits_def Let_def xy
          by (simp add: lessThan_atLeast0)
      qed
    qed
  qed
qed

lemma area_split:
  fixes S :: nat
  shows "n1 div S * (n2 div S) * (S * S) + n2 mod S * n1 + n1 mod S * (n2 div S * S) = n1 * n2"
proof -
  define a b c d where "a = n1 div S" and "b = n1 mod S" and "c = n2 div S" and "d = n2 mod S"
  have n1: "n1 = a * S + b" and n2: "n2 = c * S + d"
    by (simp_all add: a_def b_def c_def d_def)
  have "a * c * (S * S) + d * (a * S + b) + b * (c * S) = (a * S + b) * (c * S + d)"
    by (simp add: algebra_simps)
  then show ?thesis
    unfolding a_def [symmetric] b_def [symmetric] c_def [symmetric] d_def [symmetric]
    using n1 n2 by simp
qed

lemma trans_visits_length:
  "length (trans_visits l n1 n2) = n1 * n2"
proof -
  let ?S = sub_mat_size
  have "n2 = n2 div ?S * ?S + n2 mod ?S" by simp
  then have rem: "n2 - n2 mod ?S = n2 div ?S * ?S" by (metis add_diff_cancel_right')
  have "length (trans_visits l n1 n2)
      = n1 div ?S * (n2 div ?S) * (?S * ?S) + n2 mod ?S * n1 + n1 mod ?S * (n2 div ?S * ?S)"
    unfolding trans_visits_def Let_def by (simp add: rem)
  then show ?thesis by (simp only: area_split)
qed

lemma trans_visits_distinct: "distinct (trans_visits l n1 n2)"
proof (rule card_distinct)
  show "card (set (trans_visits l n1 n2)) = length (trans_visits l n1 n2)"
    by (simp add: trans_visits_set trans_visits_length)
qed


lemma trans_matrix_meta:
  "trans_matrix A T = T\<lparr>elements := elements (trans_matrix A T)\<rparr>"
  by (cases "row_major A") (simp_all add: trans_matrix_def Let_def)

lemma trans_matrix_fields:
  "row_major (trans_matrix A T) = row_major T"
  "size1 (trans_matrix A T) = size1 T"
  "size2 (trans_matrix A T) = size2 T"
  "wrapper_of l (trans_matrix A T) = wrapper_of l T"
  by (subst trans_matrix_meta, simp add: wrapper_of_def)+

lemma trans_matrix_entry:
  assumes "valid_view T" and "size1 T = size2 A" and "size2 T = size1 A"
    and "row_major T = row_major A" and "i < size1 A" and "j < size2 A"
  shows "entry (trans_matrix A T) j i = entry A i j"
proof -
  let ?w = "wrapper_of (row_major A) T"
  let ?xs = "trans_visits (row_major A) (size1 A) (size2 A)"
  have fits: "wrapper_fits ?w (size2 A) (size1 A)"
    using valid_view_fits [OF assms(1), of "row_major A"] assms(2,3) by simp
  have inj: "inj_on (\<lambda>(i, j). wrapper_index ?w j i) (set ?xs)"
    using wrapper_index_inj [OF fits] by (auto simp: inj_on_def trans_visits_set)
  have mem: "(i, j) \<in> set ?xs"
    using assms(5,6) by (simp add: trans_visits_set)
  have "fold (\<lambda>x b. b((case x of (i, j) \<Rightarrow> wrapper_index ?w j i) :=
                      (case x of (i, j) \<Rightarrow> elements A (wrapper_index (wrapper_of (row_major A) A) i j))))
          ?xs (elements T) ((\<lambda>(i, j). wrapper_index ?w j i) (i, j))
        = (case (i, j) of (i, j) \<Rightarrow> elements A (wrapper_index (wrapper_of (row_major A) A) i j))"
    by (rule fold_assign_inside [OF mem inj])
  then show ?thesis
    by (simp add: entry_def trans_matrix_fields assms(4) trans_matrix_fold case_prod_unfold)
qed

text \<open>
  Claim C6. For a source \<open>A\<close> and a destination \<open>T\<close> that is a valid view of the
  transposed shape and of the layout of \<open>A\<close>, \<open>trans_matrix\<close> leaves \<open>T(j, i) = A(i, j)\<close>
  for every \<open>i < size1 A\<close>, \<open>j < size2 A\<close>, in both layouts and for any start offsets and
  strides of the two views. The whole operation is the sequence of cell updates
  \<open>T(j, i) := A(i, j)\<close> along \<open>trans_visits\<close>, and the sub-matrices of the main part with
  the two remainder loops visit every index pair \<open>(i, j)\<close> exactly once: the visits are
  distinct and are all pairs below the sizes. Transposing the result again, into a
  valid view \<open>R\<close> of the shape of \<open>A\<close>, gives a matrix equal to \<open>A\<close> in every cell.
\<close>

theorem trans_matrix_transposes:
  assumes "valid_view T" and "size1 T = size2 A" and "size2 T = size1 A"
    and "row_major T = row_major A"
    and "valid_view R" and "size1 R = size1 A" and "size2 R = size2 A"
    and "row_major R = row_major A"
    and "i < size1 A" and "j < size2 A"
  shows "entry (trans_matrix A T) j i = entry A i j
       \<and> elements (trans_matrix A T) a =
           fold (\<lambda>(i, j) b. b(wrapper_index (wrapper_of (row_major A) T) j i := entry A i j))
             (trans_visits (row_major A) (size1 A) (size2 A)) (elements T) a
       \<and> distinct (trans_visits (row_major A) (size1 A) (size2 A))
       \<and> set (trans_visits (row_major A) (size1 A) (size2 A)) = {..<size1 A} \<times> {..<size2 A}
       \<and> entry (trans_matrix (trans_matrix A T) R) i j = entry A i j"
proof -
  let ?T = "trans_matrix A T"
  have first: "entry ?T j i = entry A i j"
    using assms(1,2,3,4,9,10) by (rule trans_matrix_entry)
  have "entry (trans_matrix ?T R) i j = entry ?T j i"
    using assms by (intro trans_matrix_entry) (simp_all add: trans_matrix_fields)
  with first show ?thesis
    by (simp add: trans_matrix_fold trans_visits_distinct trans_visits_set entry_def)
qed

text \<open>
  A 2 by 3 slice with a column stride of 2, transposed into a shifted 3 by 2 view and
  back.
\<close>

theorem trans_matrix_transposes_witness:
  "entry example_wide 1 2 = 116
   \<and> entry (trans_matrix example_wide example_temp) 2 1 = 116
   \<and> entry (trans_matrix (trans_matrix example_wide example_temp) example_back) 1 2 = 116"
proof -
  have v: "valid_view example_temp" "valid_view example_back" by code_simp+
  have s: "size1 example_temp = size2 example_wide" "size2 example_temp = size1 example_wide"
    "row_major example_temp = row_major example_wide"
    "size1 example_back = size1 example_wide" "size2 example_back = size2 example_wide"
    "row_major example_back = row_major example_wide"
    "1 < size1 example_wide" "2 < size2 example_wide"
    by code_simp+
  note t = trans_matrix_transposes [OF v(1) s(1,2,3) v(2) s(4,5,6,7,8)]
  have "entry example_wide 1 2 = 116" by code_simp
  with t show ?thesis by simp
qed

subsection \<open>Matrix-matrix product: blocks and slivers of one dimension\<close>

lemma size_sub_le [simp]: "b \<le> a \<Longrightarrow> size_sub a b = a - b"
  by (simp add: size_sub_def)

lemma ceil_blocks_origin:
  fixes bs n b :: nat
  assumes "0 < bs" and "b < (n + (bs - 1)) div bs"
  shows "b * bs < n"
proof (rule ccontr)
  assume "\<not> b * bs < n"
  then have "n + (bs - 1) < Suc b * bs" using assms(1) by simp
  then have "(n + (bs - 1)) div bs < Suc b"
    using assms(1) by (simp only: less_mult_imp_div_less)
  with assms(2) show False by simp
qed

lemma ceil_blocks_cover:
  fixes bs n :: nat
  assumes "0 < bs"
  shows "n \<le> (n + (bs - 1)) div bs * bs"
proof -
  have "(n + (bs - 1)) div bs * bs + (n + (bs - 1)) mod bs = n + (bs - 1)" by simp
  moreover have "(n + (bs - 1)) mod bs < bs"
    using assms by simp
  ultimately show ?thesis by linarith
qed

lemma residue_block:
  fixes bs n b :: nat
  assumes "0 < bs" and "b * bs < n" and "n - b * bs < bs"
  shows "n - b * bs = n mod bs"
proof -
  have "n = b * bs + (n - b * bs)" using assms(2) by simp
  then have "n mod bs = (b * bs + (n - b * bs)) mod bs" by simp
  also have "\<dots> = (n - b * bs) mod bs" by (simp only: mod_mult_self3)
  also have "\<dots> = n - b * bs" using assms(3) by simp
  finally show ?thesis by simp
qed

lemma sliver_origin:
  fixes bs sr n b t :: nat
  assumes "0 < bs" and "0 < sr" and "bs mod sr = 0" and "b * bs < n"
    and "t < max_sliver_idx n bs sr b"
  shows "b * bs + t * sr < n \<and> t * sr < bs"
proof (cases "n - b * bs < bs")
  case True
  have r: "n - b * bs = n mod bs" using assms(1,4) True by (rule residue_block)
  have "t < (n mod bs + (sr - 1)) div sr"
    using assms(2,4,5) True by (simp add: max_sliver_idx_def)
  with assms(2) have "t * sr < n mod bs" by (rule ceil_blocks_origin)
  then show ?thesis using r True by linarith
next
  case False
  have "t < bs div sr" using assms(4,5) False by (simp add: max_sliver_idx_def)
  then have "t * sr < bs div sr * sr" using assms(2) by simp
  also have "\<dots> = bs" using assms(3) by (simp add: mod_eq_0_iff_dvd)
  finally have "t * sr < bs" .
  then show ?thesis using False by linarith
qed

lemma sliver_cover:
  fixes bs sr n b x :: nat
  assumes "0 < bs" and "0 < sr" and "bs mod sr = 0" and "b * bs < n" and "x < n"
  shows "(x < b * bs + max_sliver_idx n bs sr b * sr) = (x < b * bs + bs)"
proof (cases "n - b * bs < bs")
  case True
  have r: "n - b * bs = n mod bs" using assms(1,4) True by (rule residue_block)
  have m: "max_sliver_idx n bs sr b = (n mod bs + (sr - 1)) div sr"
    using True assms(2,4) by (simp add: max_sliver_idx_def)
  have "n mod bs \<le> max_sliver_idx n bs sr b * sr"
    unfolding m using assms(2) by (rule ceil_blocks_cover)
  then show ?thesis using r True assms(4,5) by linarith
next
  case False
  have "max_sliver_idx n bs sr b * sr = bs div sr * sr"
    using False assms(2,4) by (simp add: max_sliver_idx_def)
  also have "\<dots> = bs" using assms(3) by (simp add: mod_eq_0_iff_dvd)
  finally show ?thesis by simp
qed

subsection \<open>Matrix-matrix product: composing updates of regions\<close>

lemma updated_refl: "updated w m n d d (\<lambda>i j. False) f"
  by (simp add: updated_def)

lemma updated_cong:
  assumes "updated w m n d0 d R f"
    and "\<And>i j. i < m \<Longrightarrow> j < n \<Longrightarrow> R i j = R' i j"
    and "\<And>i j. i < m \<Longrightarrow> j < n \<Longrightarrow> R i j \<Longrightarrow> f i j (d0 (wrapper_index w i j)) = f' i j (d0 (wrapper_index w i j))"
  shows "updated w m n d0 d R' f'"
  using assms unfolding updated_def by auto

lemma updated_disjoint:
  assumes "updated w m n d0 d1 R1 f" and "updated w m n d1 d2 R2 f"
    and "\<And>i j. i < m \<Longrightarrow> j < n \<Longrightarrow> \<not> (R1 i j \<and> R2 i j)"
  shows "updated w m n d0 d2 (\<lambda>i j. R1 i j \<or> R2 i j) f"
  using assms unfolding updated_def by auto

lemma updated_compose:
  assumes "updated w m n d0 d1 R f1" and "updated w m n d1 d2 R f2"
  shows "updated w m n d0 d2 R (\<lambda>i j old. f2 i j (f1 i j old))"
  using assms unfolding updated_def by auto

text \<open>
  A loop whose iteration \<open>t\<close> updates region \<open>R t\<close>, the regions being disjoint, updates
  their union; \<open>Inv\<close> is what the iterations need of the rest of the state.
\<close>

lemma updated_sweep:
  assumes step: "\<And>t s. t < N \<Longrightarrow> Inv s \<Longrightarrow>
            Inv (body t s) \<and> updated w m n (sel s) (sel (body t s)) (R t) f"
    and disj: "\<And>t t' i j. t < t' \<Longrightarrow> t' < N \<Longrightarrow> i < m \<Longrightarrow> j < n \<Longrightarrow> \<not> (R t i j \<and> R t' i j)"
    and inv: "Inv s"
  shows "Inv (fold body [0..<N] s)
       \<and> updated w m n (sel s) (sel (fold body [0..<N] s)) (\<lambda>i j. \<exists>t<N. R t i j) f"
  using step disj
proof (induction N)
  case 0
  show ?case using inv by (simp add: updated_refl)
next
  case (Suc N)
  let ?s' = "fold body [0..<N] s"
  have IH: "Inv ?s' \<and> updated w m n (sel s) (sel ?s') (\<lambda>i j. \<exists>t<N. R t i j) f"
    using Suc.prems by (intro Suc.IH) auto
  have st: "Inv (body N ?s') \<and> updated w m n (sel ?s') (sel (body N ?s')) (R N) f"
    using IH by (intro Suc.prems(1)) auto
  have "updated w m n (sel s) (sel (body N ?s')) (\<lambda>i j. (\<exists>t<N. R t i j) \<or> R N i j) f"
  proof (rule updated_disjoint)
    show "updated w m n (sel s) (sel ?s') (\<lambda>i j. \<exists>t<N. R t i j) f" using IH by simp
    show "updated w m n (sel ?s') (sel (body N ?s')) (R N) f" using st by simp
    show "\<not> ((\<exists>t<N. R t i j) \<and> R N i j)" if "i < m" "j < n" for i j
      using Suc.prems(2) [of _ N i j] that by auto
  qed
  then have "updated w m n (sel s) (sel (body N ?s')) (\<lambda>i j. \<exists>t<Suc N. R t i j) f"
    by (rule updated_cong) (auto simp: less_Suc_eq)
  with st show ?case by simp
qed

text \<open>A loop whose iterations all update one region composes their updates.\<close>

lemma updated_chain:
  assumes step: "\<And>t s. t < N \<Longrightarrow> updated w m n (sel s) (sel (body t s)) R (f t)"
  shows "updated w m n (sel s) (sel (fold body [0..<N] s)) R
           (\<lambda>i j old. fold (\<lambda>t c. f t i j c) [0..<N] old)"
  using step
proof (induction N)
  case 0
  have "updated w m n (sel s) (sel s) (\<lambda>i j. False) (\<lambda>i j old. old)" by (rule updated_refl)
  then show ?case unfolding updated_def by simp
next
  case (Suc N)
  let ?s' = "fold body [0..<N] s"
  have IH: "updated w m n (sel s) (sel ?s') R (\<lambda>i j old. fold (\<lambda>t c. f t i j c) [0..<N] old)"
    using Suc.prems by (intro Suc.IH) auto
  have st: "updated w m n (sel ?s') (sel (body N ?s')) R (f N)"
    by (intro Suc.prems) simp
  from updated_compose [OF IH st] show ?case by simp
qed

subsection \<open>Matrix-matrix product: one micro-tile\<close>

lemma fold_update_inside:
  "distinct xs \<Longrightarrow> inj_on ad (set xs) \<Longrightarrow> x \<in> set xs \<Longrightarrow>
     fold (\<lambda>x b. b(ad x := F x (b (ad x)))) xs b (ad x) = F x (b (ad x))"
proof (induction xs arbitrary: b)
  case Nil
  then show ?case by simp
next
  case (Cons y ys)
  let ?G = "\<lambda>x b. b(ad x := F x (b (ad x)))"
  have step: "fold ?G (y # ys) b = fold ?G ys (b(ad y := F y (b (ad y))))"
    by (simp only: fold_simps)
  have inj: "inj_on ad (set ys)" and dist: "distinct ys" and ny: "y \<notin> set ys"
    using Cons.prems by (simp_all add: inj_on_def)
  show ?case
  proof (cases "x = y")
    case True
    have "ad y \<notin> ad ` set ys"
      using Cons.prems(2) ny by (auto simp: inj_on_def)
    then have "fold ?G ys (b(ad y := F y (b (ad y)))) (ad y) = (b(ad y := F y (b (ad y)))) (ad y)"
      by (rule fold_update_outside)
    then show ?thesis unfolding step True by (simp only: fun_upd_same)
  next
    case False
    with Cons.prems(3) have mem: "x \<in> set ys" by simp
    have ne: "ad x \<noteq> ad y"
      using Cons.prems(2,3) False by (auto simp: inj_on_def)
    have "fold ?G ys (b(ad y := F y (b (ad y)))) (ad x)
        = F x ((b(ad y := F y (b (ad y)))) (ad x))"
      by (rule Cons.IH [OF dist inj mem])
    then show ?thesis unfolding step using ne by simp
  qed
qed

text \<open>A loop nest that updates every cell of a tile in place.\<close>

lemma tile_update:
  assumes fits: "wrapper_fits w m n"
    and rows: "row0 + rows \<le> m" and cols: "col0 + cols \<le> n"
  shows "updated w m n C
           (fold (\<lambda>i. fold (\<lambda>j C. C(wrapper_index w (row0 + i) (col0 + j) :=
                                    F i j (C (wrapper_index w (row0 + i) (col0 + j)))))
                          [0..<cols])
              [0..<rows] C)
           (\<lambda>i j. row0 \<le> i \<and> i < row0 + rows \<and> col0 \<le> j \<and> j < col0 + cols)
           (\<lambda>i j. F (i - row0) (j - col0))"
proof -
  let ?xs = "List.product [0..<rows] [0..<cols]"
  let ?ad = "\<lambda>(i, j). wrapper_index w (row0 + i) (col0 + j)"
  let ?G = "\<lambda>x b. b(?ad x := (case x of (i, j) \<Rightarrow> F i j) (b (?ad x)))"
  have loop: "fold (\<lambda>i. fold (\<lambda>j C. C(wrapper_index w (row0 + i) (col0 + j) :=
                                    F i j (C (wrapper_index w (row0 + i) (col0 + j)))))
                          [0..<cols]) [0..<rows] C = fold ?G ?xs C"
    by (simp add: fold_product case_prod_unfold)
  have inj: "inj_on ?ad (set ?xs)"
  proof (rule inj_onI)
    fix x y assume xy: "x \<in> set ?xs" "y \<in> set ?xs" and eq: "?ad x = ?ad y"
    obtain i j where x: "x = (i, j)" by (cases x)
    obtain i' j' where y: "y = (i', j')" by (cases y)
    have "i < rows" "j < cols" "i' < rows" "j' < cols" using xy x y by simp_all
    then have "row0 + i < m" "col0 + j < n" "row0 + i' < m" "col0 + j' < n"
      using rows cols by linarith+
    from wrapper_index_inj [OF fits this] eq show "x = y" by (simp add: x y)
  qed
  have dist: "distinct ?xs" by (simp add: distinct_product)
  have inside: "fold ?G ?xs C (wrapper_index w i j) = F (i - row0) (j - col0) (C (wrapper_index w i j))"
    if "row0 \<le> i" "i < row0 + rows" "col0 \<le> j" "j < col0 + cols" for i j
  proof -
    have mem: "(i - row0, j - col0) \<in> set ?xs" using that by auto
    have ad: "?ad (i - row0, j - col0) = wrapper_index w i j" using that by simp
    from fold_update_inside [OF dist inj mem, of "\<lambda>(i, j). F i j" C]
    show ?thesis unfolding ad by simp
  qed
  have outside: "fold ?G ?xs C a = C a" if "a \<notin> ?ad ` set ?xs" for a
    using that by (rule fold_update_outside)
  have out_cell: "wrapper_index w i j \<notin> ?ad ` set ?xs"
    if "i < m" "j < n" "\<not> (row0 \<le> i \<and> i < row0 + rows \<and> col0 \<le> j \<and> j < col0 + cols)" for i j
  proof
    assume "wrapper_index w i j \<in> ?ad ` set ?xs"
    then obtain i' j' where ij: "i' < rows" "j' < cols"
      "wrapper_index w i j = wrapper_index w (row0 + i') (col0 + j')" by auto
    then have "i = row0 + i' \<and> j = col0 + j'"
      using wrapper_index_inj [OF fits, of i j "row0 + i'" "col0 + j'"] that(1,2) rows cols
      by auto
    with that(3) ij show False by simp
  qed
  have out_frame: "a \<notin> ?ad ` set ?xs" if "a \<notin> cell_addresses w m n" for a
  proof
    assume "a \<in> ?ad ` set ?xs"
    then obtain i' j' where "i' < rows" "j' < cols" "a = wrapper_index w (row0 + i') (col0 + j')"
      by auto
    then have "a \<in> cell_addresses w m n"
      using rows cols by (auto intro!: cell_addressesI)
    with that show False by simp
  qed
  show ?thesis
    unfolding loop updated_def
    using inside outside out_cell out_frame by auto
qed


lemma gemm_ok_fits: "gemm_ok g \<Longrightarrow> wrapper_fits (g_C g) (g_m_size g) (g_n_size g)"
  unfolding gemm_ok_def by blast

lemma gemm_ok_blocks:
  assumes "gemm_ok g"
  shows "0 < b_mc (g_blocks g)" and "0 < b_kc (g_blocks g)" and "0 < b_nc (g_blocks g)"
    and "0 < b_mr (g_blocks g)" and "0 < b_nr (g_blocks g)"
    and "b_mc (g_blocks g) mod b_mr (g_blocks g) = 0"
    and "b_nc (g_blocks g) mod b_nr (g_blocks g) = 0"
  using assms unfolding gemm_ok_def valid_blocks_def by blast+

lemma gemm_ok_sizes:
  assumes "gemm_ok g"
  shows "(if g_A_trans g then size2 (g_A g) else size1 (g_A g)) = g_m_size g"
    and "(if g_A_trans g then size1 (g_A g) else size2 (g_A g)) = g_k_size g"
    and "(if g_B_trans g then size2 (g_B g) else size1 (g_B g)) = g_k_size g"
    and "(if g_B_trans g then size1 (g_B g) else size2 (g_B g)) = g_n_size g"
  using assms unfolding gemm_ok_def by auto

lemma cell_update_cases:
  "beta > 0 \<or> beta < 0 \<Longrightarrow> cell_update alpha beta kb t = (\<lambda>old. beta * old + alpha * t)"
  "\<not> (beta > 0 \<or> beta < 0) \<Longrightarrow> cell_update alpha beta 0 t = (\<lambda>old. alpha * t)"
  "\<not> (beta > 0 \<or> beta < 0) \<Longrightarrow> kb \<noteq> 0 \<Longrightarrow> cell_update alpha beta kb t = (\<lambda>old. old + alpha * t)"
  by (rule ext, simp add: cell_update_def)+

lemma write_result_updated:
  assumes ok: "gemm_ok g" and r: "row0 < g_m_size g" and c: "col0 < g_n_size g"
  shows "updated (g_C g) (g_m_size g) (g_n_size g) C
           (write_result g A2B1_idx row0 col0 tile C)
           (\<lambda>i j. row0 \<le> i \<and> i < row0 + b_mr (g_blocks g)
                \<and> col0 \<le> j \<and> j < col0 + b_nr (g_blocks g))
           (\<lambda>i j. cell_update (g_alpha g) (g_beta g) A2B1_idx
                     (tile ((i - row0) * b_nr (g_blocks g) + (j - col0))))"
proof -
  let ?m = "g_m_size g" and ?n = "g_n_size g"
  let ?rows = "min (b_mr (g_blocks g)) (?m - row0)"
  let ?cols = "min (b_nr (g_blocks g)) (?n - col0)"
  have fits: "wrapper_fits (g_C g) ?m ?n" using ok by (rule gemm_ok_fits)
  have rows: "row0 + ?rows \<le> ?m" and cols: "col0 + ?cols \<le> ?n" using r c by simp_all
  have sub: "tile_rows g row0 = ?rows" "tile_cols g col0 = ?cols"
    using r c by (simp_all add: tile_rows_def tile_cols_def)
  note tu = tile_update [OF fits rows cols, where C = C]
  have "updated (g_C g) ?m ?n C (write_result g A2B1_idx row0 col0 tile C)
           (\<lambda>i j. row0 \<le> i \<and> i < row0 + ?rows \<and> col0 \<le> j \<and> j < col0 + ?cols)
           (\<lambda>i j. cell_update (g_alpha g) (g_beta g) A2B1_idx
                     (tile ((i - row0) * b_nr (g_blocks g) + (j - col0))))"
  proof (cases "g_beta g > 0 \<or> g_beta g < 0")
    case True
    show ?thesis
      using True tu [where F = "\<lambda>i j old. g_beta g * old + g_alpha g * tile (i * b_nr (g_blocks g) + j)"]
      by (simp add: write_result_def write_general_def sub cell_update_cases)
  next
    case False
    show ?thesis
    proof (cases "A2B1_idx = 0")
      case True
      show ?thesis
        using True False tu [where F = "\<lambda>i j old. g_alpha g * tile (i * b_nr (g_blocks g) + j)"]
        by (simp add: write_result_def write_zero_def sub cell_update_cases)
    next
      case nz: False
      show ?thesis
        using nz False tu [where F = "\<lambda>i j old. old + g_alpha g * tile (i * b_nr (g_blocks g) + j)"]
        by (simp add: write_result_def write_zero_def sub cell_update_cases)
    qed
  qed
  then show ?thesis
    by (rule updated_cong) auto
qed

lemma kernel_cell:
  assumes "i < mr" and "j < nr"
  shows "standard_micro_kernel ptrA ptrB (fold (\<lambda>i b. b(i := 0)) [0..<mr * nr] junk) kcount mr nr
           (i * nr + j)
         = fold (\<lambda>p acc. acc + ptrA (p * mr + i) * ptrB (p * nr + j)) [0..<kcount] 0"
proof -
  have "i * nr + j < i * nr + nr" using assms(2) by simp
  also have "\<dots> = Suc i * nr" by simp
  also have "\<dots> \<le> mr * nr" using assms(1) by (intro mult_le_mono1) simp
  finally have lt: "i * nr + j < mr * nr" .
  then have "i * nr + j \<in> (\<lambda>x. x) ` set [0..<mr * nr]" by simp
  then have z: "fold (\<lambda>i b. b(i := 0)) [0..<mr * nr] junk (i * nr + j) = 0"
    by (rule fold_const_inside)
  show ?thesis
    using lt assms(2) by (simp add: standard_micro_kernel_def z)
qed

lemma sliver_index:
  fixes s p i w kc :: nat
  assumes "i < w" and "p < kc"
  shows "(s * w * kc + (p * w + i)) div (w * kc) = s"
    and "(s * w * kc + (p * w + i)) mod (w * kc) div w = p"
    and "(s * w * kc + (p * w + i)) mod w = i"
proof -
  have "p * w + i < p * w + w" using assms(1) by simp
  also have "\<dots> = Suc p * w" by simp
  also have "\<dots> \<le> kc * w" using assms(2) by (intro mult_le_mono1) simp
  finally have lt: "p * w + i < w * kc" by (simp add: mult.commute)
  have e: "s * w * kc + (p * w + i) = s * (w * kc) + (p * w + i)" by (simp add: mult.assoc)
  let ?x = "s * (w * kc) + (p * w + i)"
  have pos: "0 < w * kc" using lt by linarith
  have a: "?x mod (w * kc) < w * kc" using pos by (rule mod_less_divisor)
  have b: "?x div (w * kc) * (w * kc) + ?x mod (w * kc) = s * (w * kc) + (p * w + i)"
    by (rule div_mult_mod_eq)
  from linear_index_inj [OF a lt b]
  have dm: "?x div (w * kc) = s" "?x mod (w * kc) = p * w + i" by blast+
  show "(s * w * kc + (p * w + i)) div (w * kc) = s"
    unfolding e by (rule dm(1))
  have "(p * w + i) div w = p" using assms(1) by simp
  then show "(s * w * kc + (p * w + i)) mod (w * kc) div w = p"
    unfolding e dm by simp
  have eq: "s * w * kc + (p * w + i) = (s * kc + p) * w + i" by (simp add: algebra_simps)
  have "((s * kc + p) * w + i) mod w = i" using assms(1) by simp
  then show "(s * w * kc + (p * w + i)) mod w = i" by (simp only: eq)
qed

lemma sliver_in_block:
  fixes s p i w kc bs :: nat
  assumes "i < w" and "p < kc" and "s * w < bs" and "bs mod w = 0"
  shows "s * w * kc + (p * w + i) < bs * kc"
proof -
  have bw: "bs div w * w = bs" using assms(4) by (simp add: mod_eq_0_iff_dvd)
  then have "s * w < bs div w * w" using assms(3) by simp
  then have "s < bs div w" by (simp only: mult_less_cancel2)
  then have "Suc s \<le> bs div w" by simp
  then have sw: "Suc s * w \<le> bs div w * w" by (rule mult_le_mono1)
  have "p * w + i < Suc p * w" using assms(1) by simp
  also have "\<dots> \<le> kc * w" using assms(2) by (intro mult_le_mono1) simp
  finally have "s * w * kc + (p * w + i) < s * w * kc + kc * w" by simp
  also have "\<dots> = Suc s * w * kc" by (simp add: algebra_simps)
  also have "\<dots> \<le> bs div w * w * kc" using sw by (rule mult_le_mono1)
  also have "\<dots> = bs * kc" using bw by simp
  finally show ?thesis .
qed

lemma pack_matrix_A_packed:
  assumes "gemm_ok g"
  shows "packed_A g (pack_matrix_A buf (C1A1_idx * b_mc (g_blocks g))
            (A2B1_idx * b_kc (g_blocks g)) (b_mc (g_blocks g)) (b_kc (g_blocks g))
            (b_mr (g_blocks g)) (g_A g) (g_A_trans g)) C1A1_idx A2B1_idx"
  unfolding packed_A_def
proof (intro allI impI)
  fix s i p
  let ?mc = "b_mc (g_blocks g)" and ?kc = "b_kc (g_blocks g)" and ?mr = "b_mr (g_blocks g)"
  assume a: "i < ?mr" "p < ?kc" "s * ?mr < ?mc" "C1A1_idx * ?mc + s * ?mr + i < g_m_size g"
    "A2B1_idx * ?kc + p < g_k_size g"
  have div: "?mc mod ?mr = 0" using assms by (rule gemm_ok_blocks)
  note sz = gemm_ok_sizes [OF assms]
  note idx = sliver_index [OF a(1,2), of s]
  note blk = sliver_in_block [OF a(1,2,3) div]
  show "pack_matrix_A buf (C1A1_idx * ?mc) (A2B1_idx * ?kc) ?mc ?kc ?mr (g_A g) (g_A_trans g)
          (s * ?mr * ?kc + (p * ?mr + i))
        = op_entry (g_A g) (g_A_trans g) (C1A1_idx * ?mc + s * ?mr + i) (A2B1_idx * ?kc + p)"
    unfolding pack_matrix_A_def Let_def idx sz
    using blk a(4,5) by simp
qed

lemma pack_matrix_B_packed:
  assumes "gemm_ok g"
  shows "packed_B g (pack_matrix_B buf (A2B1_idx * b_kc (g_blocks g))
            (C2B2_idx * b_nc (g_blocks g)) (b_kc (g_blocks g)) (b_nc (g_blocks g))
            (b_nr (g_blocks g)) (g_B g) (g_B_trans g)) C2B2_idx A2B1_idx"
  unfolding packed_B_def
proof (intro allI impI)
  fix s j p
  let ?nc = "b_nc (g_blocks g)" and ?kc = "b_kc (g_blocks g)" and ?nr = "b_nr (g_blocks g)"
  assume a: "j < ?nr" "p < ?kc" "s * ?nr < ?nc" "C2B2_idx * ?nc + s * ?nr + j < g_n_size g"
    "A2B1_idx * ?kc + p < g_k_size g"
  have div: "?nc mod ?nr = 0" using assms by (rule gemm_ok_blocks)
  note sz = gemm_ok_sizes [OF assms]
  note idx = sliver_index [OF a(1,2), of s]
  note blk = sliver_in_block [OF a(1,2,3) div]
  show "pack_matrix_B buf (A2B1_idx * ?kc) (C2B2_idx * ?nc) ?kc ?nc ?nr (g_B g) (g_B_trans g)
          (s * ?nr * ?kc + (p * ?nr + j))
        = op_entry (g_B g) (g_B_trans g) (A2B1_idx * ?kc + p) (C2B2_idx * ?nc + s * ?nr + j)"
    unfolding pack_matrix_B_def Let_def idx sz
    using blk a(4,5) by (simp add: mult.commute)
qed


lemma micro_tile_updated:
  assumes ok: "gemm_ok g"
    and pa: "packed_A g (buffer_A s) C1A1_idx A2B1_idx"
    and pb: "packed_B g (buffer_B s) C2B2_idx A2B1_idx"
    and kb: "A2B1_idx * b_kc (g_blocks g) < g_k_size g"
    and ra: "C1A1_idx * b_mc (g_blocks g) + sliver_A_idx * b_mr (g_blocks g) < g_m_size g"
      "sliver_A_idx * b_mr (g_blocks g) < b_mc (g_blocks g)"
    and cb: "C2B2_idx * b_nc (g_blocks g) + sliver_B_idx * b_nr (g_blocks g) < g_n_size g"
      "sliver_B_idx * b_nr (g_blocks g) < b_nc (g_blocks g)"
  shows "buffer_A (micro_tile g C2B2_idx A2B1_idx C1A1_idx sliver_B_idx sliver_A_idx s) = buffer_A s
       \<and> buffer_B (micro_tile g C2B2_idx A2B1_idx C1A1_idx sliver_B_idx sliver_A_idx s) = buffer_B s
       \<and> updated (g_C g) (g_m_size g) (g_n_size g) (data_C s)
           (data_C (micro_tile g C2B2_idx A2B1_idx C1A1_idx sliver_B_idx sliver_A_idx s))
           (\<lambda>i j. C1A1_idx * b_mc (g_blocks g) + sliver_A_idx * b_mr (g_blocks g) \<le> i
                \<and> i < C1A1_idx * b_mc (g_blocks g) + sliver_A_idx * b_mr (g_blocks g)
                      + b_mr (g_blocks g)
                \<and> C2B2_idx * b_nc (g_blocks g) + sliver_B_idx * b_nr (g_blocks g) \<le> j
                \<and> j < C2B2_idx * b_nc (g_blocks g) + sliver_B_idx * b_nr (g_blocks g)
                      + b_nr (g_blocks g))
           (\<lambda>i j. cell_update (g_alpha g) (g_beta g) A2B1_idx (tile_dot g A2B1_idx i j))"
proof -
  let ?mc = "b_mc (g_blocks g)" and ?kc = "b_kc (g_blocks g)" and ?nc = "b_nc (g_blocks g)"
  let ?mr = "b_mr (g_blocks g)" and ?nr = "b_nr (g_blocks g)"
  let ?m = "g_m_size g" and ?n = "g_n_size g" and ?k = "g_k_size g"
  let ?row0 = "C1A1_idx * ?mc + sliver_A_idx * ?mr"
  let ?col0 = "C2B2_idx * ?nc + sliver_B_idx * ?nr"
  let ?kcount = "min ?kc (?k - A2B1_idx * ?kc)"
  let ?ptrA = "\<lambda>t. buffer_A s (sliver_A_idx * ?mr * ?kc + t)"
  let ?ptrB = "\<lambda>t. buffer_B s (sliver_B_idx * ?nr * ?kc + t)"
  let ?tile = "standard_micro_kernel ?ptrA ?ptrB
                 (fold (\<lambda>i b. b(i := 0)) [0..<?mr * ?nr] (buffer_C s)) ?kcount ?mr ?nr"
  have sub: "num_micros_slivers g A2B1_idx = ?kcount"
    using kb by (simp add: num_micros_slivers_def)
  have mt: "micro_tile g C2B2_idx A2B1_idx C1A1_idx sliver_B_idx sliver_A_idx s
      = s\<lparr>buffer_C := ?tile,
           data_C := write_result g A2B1_idx ?row0 ?col0 ?tile (data_C s)\<rparr>"
    by (simp add: micro_tile_def Let_def sub)
  have tile: "?tile ((i - ?row0) * ?nr + (j - ?col0)) = tile_dot g A2B1_idx i j"
    if "i < ?m" "j < ?n" "?row0 \<le> i" "i < ?row0 + ?mr" "?col0 \<le> j" "j < ?col0 + ?nr" for i j
  proof -
    have li: "i - ?row0 < ?mr" and lj: "j - ?col0 < ?nr" using that by linarith+
    have ri: "?row0 + (i - ?row0) = i" and rj: "?col0 + (j - ?col0) = j" using that by linarith+
    have "?tile ((i - ?row0) * ?nr + (j - ?col0))
        = fold (\<lambda>p acc. acc + ?ptrA (p * ?mr + (i - ?row0)) * ?ptrB (p * ?nr + (j - ?col0)))
            [0..<?kcount] 0"
      using li lj by (rule kernel_cell)
    also have "\<dots> = fold (\<lambda>p acc. acc + op_entry (g_A g) (g_A_trans g) i (A2B1_idx * ?kc + p)
                                        * op_entry (g_B g) (g_B_trans g) (A2B1_idx * ?kc + p) j)
            [0..<?kcount] 0"
    proof (rule fold_cong [OF refl refl])
      fix p assume "p \<in> set [0..<?kcount]"
      then have p: "p < ?kc" "A2B1_idx * ?kc + p < ?k" by auto
      have a: "?ptrA (p * ?mr + (i - ?row0)) = op_entry (g_A g) (g_A_trans g) i (A2B1_idx * ?kc + p)"
        using pa li p ra(2) that(1) ri unfolding packed_A_def by metis
      have b: "?ptrB (p * ?nr + (j - ?col0)) = op_entry (g_B g) (g_B_trans g) (A2B1_idx * ?kc + p) j"
        using pb lj p cb(2) that(2) rj unfolding packed_B_def by metis
      show "(\<lambda>acc. acc + ?ptrA (p * ?mr + (i - ?row0)) * ?ptrB (p * ?nr + (j - ?col0)))
          = (\<lambda>acc. acc + op_entry (g_A g) (g_A_trans g) i (A2B1_idx * ?kc + p)
                         * op_entry (g_B g) (g_B_trans g) (A2B1_idx * ?kc + p) j)"
        unfolding a b ..
    qed
    finally show ?thesis by (simp add: tile_dot_def)
  qed
  have "updated (g_C g) ?m ?n (data_C s) (write_result g A2B1_idx ?row0 ?col0 ?tile (data_C s))
          (\<lambda>i j. ?row0 \<le> i \<and> i < ?row0 + ?mr \<and> ?col0 \<le> j \<and> j < ?col0 + ?nr)
          (\<lambda>i j. cell_update (g_alpha g) (g_beta g) A2B1_idx
                    (?tile ((i - ?row0) * ?nr + (j - ?col0))))"
    using ok ra(1) cb(1) by (rule write_result_updated)
  then have "updated (g_C g) ?m ?n (data_C s) (write_result g A2B1_idx ?row0 ?col0 ?tile (data_C s))
          (\<lambda>i j. ?row0 \<le> i \<and> i < ?row0 + ?mr \<and> ?col0 \<le> j \<and> j < ?col0 + ?nr)
          (\<lambda>i j. cell_update (g_alpha g) (g_beta g) A2B1_idx (tile_dot g A2B1_idx i j))"
  proof (rule updated_cong)
    fix i j assume "i < ?m" "j < ?n"
      "?row0 \<le> i \<and> i < ?row0 + ?mr \<and> ?col0 \<le> j \<and> j < ?col0 + ?nr"
    then have "?tile ((i - ?row0) * ?nr + (j - ?col0)) = tile_dot g A2B1_idx i j"
      by (intro tile) simp_all
    then show "cell_update (g_alpha g) (g_beta g) A2B1_idx
                 (?tile ((i - ?row0) * ?nr + (j - ?col0))) (data_C s (wrapper_index (g_C g) i j))
             = cell_update (g_alpha g) (g_beta g) A2B1_idx (tile_dot g A2B1_idx i j)
                 (data_C s (wrapper_index (g_C g) i j))"
      by (simp only:)
  qed simp
  then show ?thesis unfolding mt by simp
qed

subsection \<open>Matrix-matrix product: the slivers tile a block, the blocks tile a dimension\<close>

lemma strip_disjoint:
  fixes t t' w off x :: nat
  assumes "t < t'"
  shows "\<not> ((off + t * w \<le> x \<and> x < off + t * w + w) \<and> (off + t' * w \<le> x \<and> x < off + t' * w + w))"
proof -
  have "Suc t * w \<le> t' * w" using assms by (intro mult_le_mono1) simp
  then have "t * w + w \<le> t' * w" by simp
  then show ?thesis by linarith
qed

lemma strip_find:
  fixes w off x :: nat
  assumes "0 < w" and "off \<le> x"
  shows "off + (x - off) div w * w \<le> x \<and> x < off + (x - off) div w * w + w"
proof -
  have "(x - off) div w * w + (x - off) mod w = x - off" by simp
  moreover have "(x - off) mod w < w" using assms(1) by simp
  ultimately show ?thesis using assms(2) by linarith
qed

lemma sliver_union:
  fixes bs sr n b x :: nat
  assumes "0 < bs" and "0 < sr" and "bs mod sr = 0" and "b * bs < n" and "x < n"
  shows "(\<exists>t<max_sliver_idx n bs sr b. b * bs + t * sr \<le> x \<and> x < b * bs + t * sr + sr)
       = (b * bs \<le> x \<and> x < b * bs + bs)"
proof
  assume "\<exists>t<max_sliver_idx n bs sr b. b * bs + t * sr \<le> x \<and> x < b * bs + t * sr + sr"
  then obtain t where t: "t < max_sliver_idx n bs sr b" "b * bs + t * sr \<le> x"
    "x < b * bs + t * sr + sr" by blast
  have "x < b * bs + max_sliver_idx n bs sr b * sr"
  proof -
    have "Suc t * sr \<le> max_sliver_idx n bs sr b * sr" using t(1) by (intro mult_le_mono1) simp
    then show ?thesis using t(3) by simp
  qed
  then have "x < b * bs + bs" using sliver_cover [OF assms] by simp
  then show "b * bs \<le> x \<and> x < b * bs + bs" using t(2) by simp
next
  assume a: "b * bs \<le> x \<and> x < b * bs + bs"
  let ?t = "(x - b * bs) div sr"
  have f: "b * bs + ?t * sr \<le> x \<and> x < b * bs + ?t * sr + sr"
    using assms(2) a by (intro strip_find) simp_all
  have "x < b * bs + max_sliver_idx n bs sr b * sr" using sliver_cover [OF assms] a by simp
  then have "x - b * bs < max_sliver_idx n bs sr b * sr" using a by linarith
  then have "?t < max_sliver_idx n bs sr b"
    using assms(2) by (simp add: less_mult_imp_div_less)
  with f show "\<exists>t<max_sliver_idx n bs sr b. b * bs + t * sr \<le> x \<and> x < b * bs + t * sr + sr"
    by blast
qed

lemma block_union:
  fixes bs n x :: nat
  assumes "0 < bs" and "x < n"
  shows "\<exists>b<(n + (bs - 1)) div bs. b * bs \<le> x \<and> x < b * bs + bs"
proof -
  let ?b = "x div bs"
  have f: "0 + (x - 0) div bs * bs \<le> x \<and> x < 0 + (x - 0) div bs * bs + bs"
    using assms(1) by (intro strip_find) simp_all
  have "x < (n + (bs - 1)) div bs * bs"
    using assms(2) ceil_blocks_cover [OF assms(1), of n] by linarith
  then have "?b < (n + (bs - 1)) div bs"
    using assms(1) by (simp add: less_mult_imp_div_less)
  with f show ?thesis by auto
qed

subsection \<open>Matrix-matrix product: the loops\<close>

lemma block_disjoint:
  fixes t t' w x :: nat
  assumes "t < t'"
  shows "\<not> ((t * w \<le> x \<and> x < t * w + w) \<and> (t' * w \<le> x \<and> x < t' * w + w))"
  using strip_disjoint [OF assms, of 0 w x] by simp

lemma updated_sweep_buffer:
  assumes step: "\<And>t C. t < N \<Longrightarrow> updated w m n C (body t C) (R t) f"
    and disj: "\<And>t t' i j. t < t' \<Longrightarrow> t' < N \<Longrightarrow> i < m \<Longrightarrow> j < n \<Longrightarrow> \<not> (R t i j \<and> R t' i j)"
  shows "updated w m n C (fold body [0..<N] C) (\<lambda>i j. \<exists>t<N. R t i j) f"
proof -
  have "True \<and> updated w m n ((\<lambda>x. x) C) ((\<lambda>x. x) (fold body [0..<N] C))
          (\<lambda>i j. \<exists>t<N. R t i j) f"
    by (rule updated_sweep [where Inv = "\<lambda>_. True" and sel = "\<lambda>x. x"])
      (simp_all add: step disj)
  then show ?thesis by simp
qed

lemma loop_sliver_A_updated:
  fixes s :: "'a::{zero, plus, times, ord} gemm_state"
  assumes ok: "gemm_ok g"
    and pa: "packed_A g (buffer_A s) C1A1_idx A2B1_idx"
    and pb: "packed_B g (buffer_B s) C2B2_idx A2B1_idx"
    and kb: "A2B1_idx * b_kc (g_blocks g) < g_k_size g"
    and bm: "C1A1_idx * b_mc (g_blocks g) < g_m_size g"
    and cb: "C2B2_idx * b_nc (g_blocks g) + sliver_B_idx * b_nr (g_blocks g) < g_n_size g"
      "sliver_B_idx * b_nr (g_blocks g) < b_nc (g_blocks g)"
  defines "s' \<equiv> fold (micro_tile g C2B2_idx A2B1_idx C1A1_idx sliver_B_idx)
                  [0..<max_sliver_idx (g_m_size g) (b_mc (g_blocks g)) (b_mr (g_blocks g)) C1A1_idx] s"
  shows "(buffer_A s' = buffer_A s \<and> buffer_B s' = buffer_B s)
       \<and> updated (g_C g) (g_m_size g) (g_n_size g) (data_C s) (data_C s')
           (\<lambda>i j. (C1A1_idx * b_mc (g_blocks g) \<le> i
                  \<and> i < C1A1_idx * b_mc (g_blocks g) + b_mc (g_blocks g))
                \<and> (C2B2_idx * b_nc (g_blocks g) + sliver_B_idx * b_nr (g_blocks g) \<le> j
                  \<and> j < C2B2_idx * b_nc (g_blocks g) + sliver_B_idx * b_nr (g_blocks g)
                        + b_nr (g_blocks g)))
           (\<lambda>i j. cell_update (g_alpha g) (g_beta g) A2B1_idx (tile_dot g A2B1_idx i j))"
proof -
  let ?mc = "b_mc (g_blocks g)" and ?nc = "b_nc (g_blocks g)"
  let ?mr = "b_mr (g_blocks g)" and ?nr = "b_nr (g_blocks g)"
  let ?m = "g_m_size g" and ?n = "g_n_size g"
  let ?N = "max_sliver_idx ?m ?mc ?mr C1A1_idx"
  let ?col0 = "C2B2_idx * ?nc + sliver_B_idx * ?nr"
  let ?cols = "\<lambda>j. ?col0 \<le> j \<and> j < ?col0 + ?nr"
  let ?R = "\<lambda>t i j. (C1A1_idx * ?mc + t * ?mr \<le> i \<and> i < C1A1_idx * ?mc + t * ?mr + ?mr) \<and> ?cols j"
  let ?f = "\<lambda>i j. cell_update (g_alpha g) (g_beta g) A2B1_idx (tile_dot g A2B1_idx i j)"
  let ?Inv = "\<lambda>x :: 'a gemm_state. buffer_A x = buffer_A s \<and> buffer_B x = buffer_B s"
  note blocks = gemm_ok_blocks [OF ok]
  have sweep: "?Inv s' \<and> updated (g_C g) ?m ?n (data_C s) (data_C s') (\<lambda>i j. \<exists>t<?N. ?R t i j) ?f"
    unfolding s'_def
  proof (rule updated_sweep)
    fix t x assume t: "t < ?N" and inv: "?Inv x"
    note so = sliver_origin [OF blocks(1,4,6) bm t]
    from micro_tile_updated [OF ok _ _ kb conjunct1 [OF so] conjunct2 [OF so] cb, of x]
      pa pb inv
    show "?Inv (micro_tile g C2B2_idx A2B1_idx C1A1_idx sliver_B_idx t x)
        \<and> updated (g_C g) ?m ?n (data_C x)
            (data_C (micro_tile g C2B2_idx A2B1_idx C1A1_idx sliver_B_idx t x)) (?R t) ?f"
      by simp
  next
    fix t t' i j :: nat assume "t < t'"
    then show "\<not> (?R t i j \<and> ?R t' i j)"
      using strip_disjoint [of t t' "C1A1_idx * ?mc" ?mr i] by blast
  qed simp
  then have "updated (g_C g) ?m ?n (data_C s) (data_C s')
      (\<lambda>i j. (C1A1_idx * ?mc \<le> i \<and> i < C1A1_idx * ?mc + ?mc) \<and> ?cols j) ?f"
  proof (elim conjE, rule_tac updated_cong)
    fix i j assume "i < ?m" "j < ?n"
    then show "(\<exists>t<?N. ?R t i j)
         = ((C1A1_idx * ?mc \<le> i \<and> i < C1A1_idx * ?mc + ?mc) \<and> ?cols j)"
      using sliver_union [OF blocks(1,4,6) bm, of i] by blast
  qed simp_all
  with sweep show ?thesis by simp
qed


lemma loop_slivers_updated:
  fixes s :: "'a::{zero, plus, times, ord} gemm_state"
  assumes ok: "gemm_ok g"
    and pa: "packed_A g (buffer_A s) C1A1_idx A2B1_idx"
    and pb: "packed_B g (buffer_B s) C2B2_idx A2B1_idx"
    and kb: "A2B1_idx * b_kc (g_blocks g) < g_k_size g"
    and bm: "C1A1_idx * b_mc (g_blocks g) < g_m_size g"
    and bn: "C2B2_idx * b_nc (g_blocks g) < g_n_size g"
  defines "s' \<equiv> loop_slivers g C2B2_idx A2B1_idx C1A1_idx s"
  shows "buffer_B s' = buffer_B s
       \<and> updated (g_C g) (g_m_size g) (g_n_size g) (data_C s) (data_C s')
           (\<lambda>i j. (C1A1_idx * b_mc (g_blocks g) \<le> i
                  \<and> i < C1A1_idx * b_mc (g_blocks g) + b_mc (g_blocks g))
                \<and> (C2B2_idx * b_nc (g_blocks g) \<le> j
                  \<and> j < C2B2_idx * b_nc (g_blocks g) + b_nc (g_blocks g)))
           (\<lambda>i j. cell_update (g_alpha g) (g_beta g) A2B1_idx (tile_dot g A2B1_idx i j))"
proof -
  let ?mc = "b_mc (g_blocks g)" and ?nc = "b_nc (g_blocks g)"
  let ?mr = "b_mr (g_blocks g)" and ?nr = "b_nr (g_blocks g)"
  let ?m = "g_m_size g" and ?n = "g_n_size g"
  let ?NA = "max_sliver_idx ?m ?mc ?mr C1A1_idx"
  let ?N = "max_sliver_idx ?n ?nc ?nr C2B2_idx"
  let ?rows = "\<lambda>i. C1A1_idx * ?mc \<le> i \<and> i < C1A1_idx * ?mc + ?mc"
  let ?R = "\<lambda>t i j. ?rows i
              \<and> (C2B2_idx * ?nc + t * ?nr \<le> j \<and> j < C2B2_idx * ?nc + t * ?nr + ?nr)"
  let ?f = "\<lambda>i j. cell_update (g_alpha g) (g_beta g) A2B1_idx (tile_dot g A2B1_idx i j)"
  let ?Inv = "\<lambda>x :: 'a gemm_state. buffer_A x = buffer_A s \<and> buffer_B x = buffer_B s"
  let ?body = "\<lambda>sliver_B_idx. fold (micro_tile g C2B2_idx A2B1_idx C1A1_idx sliver_B_idx) [0..<?NA]"
  note blocks = gemm_ok_blocks [OF ok]
  have eq: "s' = fold ?body [0..<?N] s"
    by (simp add: s'_def loop_slivers_def Let_def max_sliver_idx_def)
  have sweep: "?Inv s' \<and> updated (g_C g) ?m ?n (data_C s) (data_C s') (\<lambda>i j. \<exists>t<?N. ?R t i j) ?f"
    unfolding eq
  proof (rule updated_sweep)
    fix t and x :: "'a gemm_state" assume t: "t < ?N" and inv: "?Inv x"
    note so = sliver_origin [OF blocks(3,5,7) bn t]
    from loop_sliver_A_updated [OF ok _ _ kb bm conjunct1 [OF so] conjunct2 [OF so], of x]
      pa pb inv
    show "?Inv (?body t x) \<and> updated (g_C g) ?m ?n (data_C x) (data_C (?body t x)) (?R t) ?f"
      by simp
  next
    fix t t' i j :: nat assume "t < t'"
    then show "\<not> (?R t i j \<and> ?R t' i j)"
      using strip_disjoint [of t t' "C2B2_idx * ?nc" ?nr j] by blast
  qed simp
  then have "updated (g_C g) ?m ?n (data_C s) (data_C s')
      (\<lambda>i j. ?rows i \<and> (C2B2_idx * ?nc \<le> j \<and> j < C2B2_idx * ?nc + ?nc)) ?f"
  proof (elim conjE, rule_tac updated_cong)
    fix i j assume "i < ?m" "j < ?n"
    then show "(\<exists>t<?N. ?R t i j)
         = (?rows i \<and> (C2B2_idx * ?nc \<le> j \<and> j < C2B2_idx * ?nc + ?nc))"
      using sliver_union [OF blocks(3,5,7) bn, of j] by blast
  qed simp_all
  with sweep show ?thesis by simp
qed

lemma block_C1A1_updated:
  fixes s :: "'a::{zero, plus, times, ord} gemm_state"
  assumes ok: "gemm_ok g"
    and pb: "packed_B g (buffer_B s) C2B2_idx A2B1_idx"
    and kb: "A2B1_idx * b_kc (g_blocks g) < g_k_size g"
    and bm: "C1A1_idx * b_mc (g_blocks g) < g_m_size g"
    and bn: "C2B2_idx * b_nc (g_blocks g) < g_n_size g"
  shows "buffer_B (block_C1A1 g C2B2_idx A2B1_idx C1A1_idx s) = buffer_B s
       \<and> updated (g_C g) (g_m_size g) (g_n_size g) (data_C s)
           (data_C (block_C1A1 g C2B2_idx A2B1_idx C1A1_idx s))
           (\<lambda>i j. (C1A1_idx * b_mc (g_blocks g) \<le> i
                  \<and> i < C1A1_idx * b_mc (g_blocks g) + b_mc (g_blocks g))
                \<and> (C2B2_idx * b_nc (g_blocks g) \<le> j
                  \<and> j < C2B2_idx * b_nc (g_blocks g) + b_nc (g_blocks g)))
           (\<lambda>i j. cell_update (g_alpha g) (g_beta g) A2B1_idx (tile_dot g A2B1_idx i j))"
proof -
  let ?s1 = "s\<lparr>buffer_A := pack_matrix_A (buffer_A s) (C1A1_idx * b_mc (g_blocks g))
                 (A2B1_idx * b_kc (g_blocks g)) (b_mc (g_blocks g)) (b_kc (g_blocks g))
                 (b_mr (g_blocks g)) (g_A g) (g_A_trans g)\<rparr>"
  have pa1: "packed_A g (buffer_A ?s1) C1A1_idx A2B1_idx"
    using pack_matrix_A_packed [OF ok] by simp
  have pb1: "packed_B g (buffer_B ?s1) C2B2_idx A2B1_idx" using pb by simp
  from loop_slivers_updated [OF ok pa1 pb1 kb bm bn]
  show ?thesis by (simp add: block_C1A1_def Let_def)
qed

lemma block_A2B1_updated:
  fixes s :: "'a::{zero, plus, times, ord} gemm_state"
  assumes ok: "gemm_ok g"
    and kb: "A2B1_idx * b_kc (g_blocks g) < g_k_size g"
    and bn: "C2B2_idx * b_nc (g_blocks g) < g_n_size g"
  shows "updated (g_C g) (g_m_size g) (g_n_size g) (data_C s)
           (data_C (block_A2B1 g C2B2_idx A2B1_idx s))
           (\<lambda>i j. C2B2_idx * b_nc (g_blocks g) \<le> j
                \<and> j < C2B2_idx * b_nc (g_blocks g) + b_nc (g_blocks g))
           (\<lambda>i j. cell_update (g_alpha g) (g_beta g) A2B1_idx (tile_dot g A2B1_idx i j))"
proof -
  let ?mc = "b_mc (g_blocks g)" and ?nc = "b_nc (g_blocks g)"
  let ?m = "g_m_size g" and ?n = "g_n_size g"
  let ?N = "(?m + (?mc - 1)) div ?mc"
  let ?cols = "\<lambda>j. C2B2_idx * ?nc \<le> j \<and> j < C2B2_idx * ?nc + ?nc"
  let ?R = "\<lambda>t i j. (t * ?mc \<le> i \<and> i < t * ?mc + ?mc) \<and> ?cols j"
  let ?f = "\<lambda>i j. cell_update (g_alpha g) (g_beta g) A2B1_idx (tile_dot g A2B1_idx i j)"
  let ?Inv = "\<lambda>x :: 'a gemm_state. packed_B g (buffer_B x) C2B2_idx A2B1_idx"
  let ?s1 = "s\<lparr>buffer_B := pack_matrix_B (buffer_B s) (A2B1_idx * b_kc (g_blocks g))
                 (C2B2_idx * ?nc) (b_kc (g_blocks g)) ?nc (b_nr (g_blocks g))
                 (g_B g) (g_B_trans g)\<rparr>"
  note blocks = gemm_ok_blocks [OF ok]
  have one: "size_sub ?mc (Suc 0) = ?mc - 1" using blocks(1) by simp
  have eq: "block_A2B1 g C2B2_idx A2B1_idx s
      = fold (block_C1A1 g C2B2_idx A2B1_idx) [0..<?N] ?s1"
    by (simp add: block_A2B1_def Let_def one)
  have inv1: "?Inv ?s1" using pack_matrix_B_packed [OF ok] by simp
  have "?Inv (fold (block_C1A1 g C2B2_idx A2B1_idx) [0..<?N] ?s1)
      \<and> updated (g_C g) ?m ?n (data_C ?s1)
          (data_C (fold (block_C1A1 g C2B2_idx A2B1_idx) [0..<?N] ?s1))
          (\<lambda>i j. \<exists>t<?N. ?R t i j) ?f"
  proof (rule updated_sweep)
    fix t and x :: "'a gemm_state" assume t: "t < ?N" and inv: "?Inv x"
    have bm: "t * ?mc < ?m" using blocks(1) t by (rule ceil_blocks_origin)
    from block_C1A1_updated [OF ok inv kb bm bn] inv
    show "?Inv (block_C1A1 g C2B2_idx A2B1_idx t x)
        \<and> updated (g_C g) ?m ?n (data_C x) (data_C (block_C1A1 g C2B2_idx A2B1_idx t x))
            (?R t) ?f"
      by simp
  next
    fix t t' i j :: nat assume "t < t'"
    then show "\<not> (?R t i j \<and> ?R t' i j)"
      using block_disjoint [of t t' ?mc i] by blast
  qed (rule inv1)
  then have "updated (g_C g) ?m ?n (data_C ?s1)
          (data_C (fold (block_C1A1 g C2B2_idx A2B1_idx) [0..<?N] ?s1)) (\<lambda>i j. ?cols j) ?f"
  proof (elim conjE, rule_tac updated_cong)
    fix i j assume "i < ?m" "j < ?n"
    then show "(\<exists>t<?N. ?R t i j) = ?cols j"
      using block_union [OF blocks(1), of i ?m] by blast
  qed simp_all
  then show ?thesis unfolding eq by simp
qed

lemma block_C2B2_updated:
  fixes C :: "nat \<Rightarrow> 'a::{zero, plus, times, ord}"
  assumes ok: "gemm_ok g"
    and bn: "C2B2_idx * b_nc (g_blocks g) < g_n_size g"
  shows "updated (g_C g) (g_m_size g) (g_n_size g) C (block_C2B2 g fresh C2B2_idx C)
           (\<lambda>i j. C2B2_idx * b_nc (g_blocks g) \<le> j
                \<and> j < C2B2_idx * b_nc (g_blocks g) + b_nc (g_blocks g))
           (\<lambda>i j old. fold (\<lambda>t c. cell_update (g_alpha g) (g_beta g) t (tile_dot g t i j) c)
                         [0..<(g_k_size g + (b_kc (g_blocks g) - 1)) div b_kc (g_blocks g)] old)"
proof -
  let ?kc = "b_kc (g_blocks g)"
  let ?N = "(g_k_size g + (?kc - 1)) div ?kc"
  let ?s0 = "\<lparr> data_C = C, buffer_A = fresh C2B2_idx 0, buffer_B = fresh C2B2_idx 1,
                buffer_C = fresh C2B2_idx 2 \<rparr>"
  note blocks = gemm_ok_blocks [OF ok]
  have one: "size_sub ?kc (Suc 0) = ?kc - 1" using blocks(2) by simp
  have eq: "block_C2B2 g fresh C2B2_idx C = data_C (fold (block_A2B1 g C2B2_idx) [0..<?N] ?s0)"
    by (simp add: block_C2B2_def Let_def one)
  have "updated (g_C g) (g_m_size g) (g_n_size g) (data_C ?s0)
          (data_C (fold (block_A2B1 g C2B2_idx) [0..<?N] ?s0))
          (\<lambda>i j. C2B2_idx * b_nc (g_blocks g) \<le> j
                \<and> j < C2B2_idx * b_nc (g_blocks g) + b_nc (g_blocks g))
          (\<lambda>i j old. fold (\<lambda>t c. cell_update (g_alpha g) (g_beta g) t (tile_dot g t i j) c)
                        [0..<?N] old)"
  proof (rule updated_chain)
    fix t and x :: "'a gemm_state" assume t: "t < ?N"
    have kb: "t * ?kc < g_k_size g" using blocks(2) t by (rule ceil_blocks_origin)
    show "updated (g_C g) (g_m_size g) (g_n_size g) (data_C x) (data_C (block_A2B1 g C2B2_idx t x))
            (\<lambda>i j. C2B2_idx * b_nc (g_blocks g) \<le> j
                  \<and> j < C2B2_idx * b_nc (g_blocks g) + b_nc (g_blocks g))
            (\<lambda>i j. cell_update (g_alpha g) (g_beta g) t (tile_dot g t i j))"
      using ok kb bn by (rule block_A2B1_updated)
  qed
  then show ?thesis unfolding eq by simp
qed

text \<open>
  The value the loops of \<^verbatim>\<open>detail::prod\<close> leave in cell \<open>(i, j)\<close> of \<open>C\<close> that held
  \<open>old\<close>: the write-backs of the \<open>k\<close>-blocks, in order.
\<close>

lemma loops_updated:
  fixes C :: "nat \<Rightarrow> 'a::{zero, plus, times, ord}"
  assumes ok: "gemm_ok g"
  shows "updated (g_C g) (g_m_size g) (g_n_size g) C
           (fold (block_C2B2 g fresh)
              [0..<(g_n_size g + (b_nc (g_blocks g) - 1)) div b_nc (g_blocks g)] C)
           (\<lambda>i j. True)
           (\<lambda>i j old. fold (\<lambda>t c. cell_update (g_alpha g) (g_beta g) t (tile_dot g t i j) c)
                         [0..<(g_k_size g + (b_kc (g_blocks g) - 1)) div b_kc (g_blocks g)] old)"
proof -
  let ?nc = "b_nc (g_blocks g)"
  let ?N = "(g_n_size g + (?nc - 1)) div ?nc"
  let ?R = "\<lambda>t (i :: nat) j. t * ?nc \<le> j \<and> j < t * ?nc + ?nc"
  let ?F = "\<lambda>i j old. fold (\<lambda>t c. cell_update (g_alpha g) (g_beta g) t (tile_dot g t i j) c)
                         [0..<(g_k_size g + (b_kc (g_blocks g) - 1)) div b_kc (g_blocks g)] old"
  note blocks = gemm_ok_blocks [OF ok]
  have "updated (g_C g) (g_m_size g) (g_n_size g) C
          (fold (block_C2B2 g fresh) [0..<?N] C) (\<lambda>i j. \<exists>t<?N. ?R t i j) ?F"
  proof (rule updated_sweep_buffer)
    fix t and x :: "nat \<Rightarrow> 'a" assume t: "t < ?N"
    have bn: "t * ?nc < g_n_size g" using blocks(3) t by (rule ceil_blocks_origin)
    from block_C2B2_updated [OF ok bn, of x fresh]
    show "updated (g_C g) (g_m_size g) (g_n_size g) x (block_C2B2 g fresh t x) (?R t) ?F"
      by simp
  next
    fix t t' i j :: nat assume "t < t'"
    then show "\<not> (?R t i j \<and> ?R t' i j)"
      using block_disjoint [of t t' ?nc j] by blast
  qed
  then show ?thesis
  proof (rule updated_cong)
    fix i j assume "i < g_m_size g" "j < g_n_size g"
    then show "(\<exists>t<?N. ?R t i j) = True"
      using block_union [OF blocks(3), of j "g_n_size g"] by blast
  qed simp
qed

subsection \<open>Matrix-matrix product: the whole call\<close>

lemma gemm_setup_of_fields:
  "g_A (gemm_setup_of gbs A tA B tB Cw alpha beta) = A"
  "g_A_trans (gemm_setup_of gbs A tA B tB Cw alpha beta) = tA"
  "g_B (gemm_setup_of gbs A tA B tB Cw alpha beta) = B"
  "g_B_trans (gemm_setup_of gbs A tA B tB Cw alpha beta) = tB"
  "g_C (gemm_setup_of gbs A tA B tB Cw alpha beta) = Cw"
  "g_alpha (gemm_setup_of gbs A tA B tB Cw alpha beta) = alpha"
  "g_beta (gemm_setup_of gbs A tA B tB Cw alpha beta) = beta"
  "g_m_size (gemm_setup_of gbs A tA B tB Cw alpha beta) = (if tA then size2 A else size1 A)"
  "g_k_size (gemm_setup_of gbs A tA B tB Cw alpha beta) = (if tA then size1 A else size2 A)"
  "g_n_size (gemm_setup_of gbs A tA B tB Cw alpha beta) = (if tB then size1 B else size2 B)"
  "g_blocks (gemm_setup_of gbs A tA B tB Cw alpha beta)
     = gbs (if tA then size2 A else size1 A) (if tA then size1 A else size2 A)
         (if tB then size1 B else size2 B)"
  by (simp_all add: gemm_setup_of_def Let_def)

lemma detail_prod_updated:
  fixes C_data :: "nat \<Rightarrow> 'a::{zero, plus, times, ord}"
  defines "g \<equiv> \<lambda>gbs A tA B tB Cw (alpha :: 'a) beta. gemm_setup_of gbs A tA B tB Cw alpha beta"
  assumes ok: "gemm_ok (g gbs A tA B tB Cw alpha beta)"
    and dims: "C_size1 = g_m_size (g gbs A tA B tB Cw alpha beta)"
      "C_size2 = g_n_size (g gbs A tA B tB Cw alpha beta)"
  shows "\<not> isl (detail_prod gbs fresh A tA B tB Cw C_data C_size1 C_size2 alpha beta)
       \<and> updated Cw C_size1 C_size2 C_data
           (projr (detail_prod gbs fresh A tA B tB Cw C_data C_size1 C_size2 alpha beta))
           (\<lambda>i j. True) (gemm_cell (g gbs A tA B tB Cw alpha beta))"
proof -
  let ?g = "gemm_setup_of gbs A tA B tB Cw alpha beta"
  have ok': "gemm_ok ?g" using ok by (simp add: g_def)
  note blocks = gemm_ok_blocks [OF ok']
  have m: "g_m_size ?g = C_size1" and n: "g_n_size ?g = C_size2" using dims by (simp_all add: g_def)
  have c: "g_C ?g = Cw" by (simp add: gemm_setup_of_fields)
  have k: "g_k_size ?g = (if tA then size1 A else size2 A)" by (simp add: gemm_setup_of_fields)
  have cell: "(\<lambda>i j old. fold (\<lambda>t c. cell_update (g_alpha ?g) (g_beta ?g) t (tile_dot ?g t i j) c)
                 [0..<(g_k_size ?g + (b_kc (g_blocks ?g) - 1)) div b_kc (g_blocks ?g)] old)
              = gemm_cell ?g"
    by (intro ext) (simp add: gemm_cell_def)
  show ?thesis
  proof (cases "C_size1 = 0 \<or> C_size2 = 0 \<or> (if tA then size1 A else size2 A) = 0")
    case True
    have res: "detail_prod gbs fresh A tA B tB Cw C_data C_size1 C_size2 alpha beta = Inr C_data"
      using True by (simp add: detail_prod_def Let_def)
    have "updated Cw C_size1 C_size2 C_data C_data (\<lambda>i j. True) (gemm_cell ?g)"
    proof (cases "C_size1 = 0 \<or> C_size2 = 0")
      case True
      then show ?thesis by (auto simp: updated_def)
    next
      case False
      with True have k0: "g_k_size ?g = 0" unfolding k by simp
      have "(0 + (b_kc (g_blocks ?g) - 1)) div b_kc (g_blocks ?g) = 0"
        using blocks(2) by simp
      then have "gemm_cell ?g i j old = old" for i j old
        unfolding gemm_cell_def k0 by simp
      then show ?thesis by (simp add: updated_def)
    qed
    then show ?thesis unfolding res by (simp add: g_def)
  next
    case False
    have one: "size_sub (b_nc (g_blocks ?g)) (Suc 0) = b_nc (g_blocks ?g) - 1"
      using blocks(3) by simp
    have res: "detail_prod gbs fresh A tA B tB Cw C_data C_size1 C_size2 alpha beta
        = Inr (fold (block_C2B2 ?g fresh)
                 [0..<(g_n_size ?g + (b_nc (g_blocks ?g) - 1)) div b_nc (g_blocks ?g)] C_data)"
      using False blocks(6,7) one by (simp add: detail_prod_def Let_def)
    from loops_updated [OF ok', of C_data fresh]
    have "updated Cw C_size1 C_size2 C_data
            (fold (block_C2B2 ?g fresh)
               [0..<(g_n_size ?g + (b_nc (g_blocks ?g) - 1)) div b_nc (g_blocks ?g)] C_data)
            (\<lambda>i j. True) (gemm_cell ?g)"
      unfolding cell c m n .
    then show ?thesis unfolding res g_def by simp
  qed
qed


lemma prod_impl_eq:
  "prod_impl gbs fresh A tA B tB C alpha beta
     = map_sum id (\<lambda>d. C\<lparr>elements := d\<rparr>)
         (detail_prod gbs fresh A tA B tB (wrapper_of (row_major C) C) (elements C)
            (size1 C) (size2 C) alpha beta)"
  by (simp add: prod_impl_def Let_def)

lemma prod_impl_ok_gemm_ok:
  assumes "prod_impl_ok gbs A tA B tB C"
  shows "gemm_ok (gemm_setup_of gbs A tA B tB (wrapper_of l C) alpha beta)"
proof -
  have "valid_view C" using assms by (simp add: prod_impl_ok_def)
  then have "wrapper_fits (wrapper_of l C) (size1 C) (size2 C)" by (rule valid_view_fits)
  then show ?thesis
    using assms unfolding gemm_ok_def prod_impl_ok_def gemm_setup_of_fields by auto
qed

lemma prod_impl_cells:
  fixes C :: "'a::{zero, plus, times, ord} matrix_base"
  assumes ok: "prod_impl_ok gbs A tA B tB C"
  shows "\<not> isl (prod_impl gbs fresh A tA B tB C alpha beta)"
    and "i < size1 C \<Longrightarrow> j < size2 C \<Longrightarrow>
         entry (projr (prod_impl gbs fresh A tA B tB C alpha beta)) i j
           = gemm_cell (gemm_setup_of gbs A tA B tB (wrapper_of (row_major C) C) alpha beta) i j
               (entry C i j)"
    and "a \<notin> cell_addresses (wrapper_of (row_major C) C) (size1 C) (size2 C) \<Longrightarrow>
         elements (projr (prod_impl gbs fresh A tA B tB C alpha beta)) a = elements C a"
proof -
  let ?w = "wrapper_of (row_major C) C"
  let ?g = "gemm_setup_of gbs A tA B tB ?w alpha beta"
  let ?d = "detail_prod gbs fresh A tA B tB ?w (elements C) (size1 C) (size2 C) alpha beta"
  have gok: "gemm_ok ?g" using ok by (rule prod_impl_ok_gemm_ok)
  have dims: "size1 C = g_m_size ?g" "size2 C = g_n_size ?g"
    using ok unfolding prod_impl_ok_def gemm_setup_of_fields by simp_all
  from detail_prod_updated [OF gok dims, of fresh "elements C"]
  have nl: "\<not> isl ?d"
    and up: "updated ?w (size1 C) (size2 C) (elements C) (projr ?d) (\<lambda>i j. True) (gemm_cell ?g)"
    by simp_all
  obtain d where d: "?d = Inr d" using nl by (cases ?d) simp_all
  have res: "prod_impl gbs fresh A tA B tB C alpha beta = Inr (C\<lparr>elements := d\<rparr>)"
    unfolding prod_impl_eq d by simp
  have w: "wrapper_of l (C\<lparr>elements := d\<rparr>) = wrapper_of l C" for l
    by (simp add: wrapper_of_def)
  show "\<not> isl (prod_impl gbs fresh A tA B tB C alpha beta)" unfolding res by simp
  show "entry (projr (prod_impl gbs fresh A tA B tB C alpha beta)) i j
           = gemm_cell ?g i j (entry C i j)" if "i < size1 C" "j < size2 C"
    using up that unfolding res d updated_def by (simp add: entry_def w)
  show "elements (projr (prod_impl gbs fresh A tA B tB C alpha beta)) a = elements C a"
    if "a \<notin> cell_addresses ?w (size1 C) (size2 C)"
    using up that unfolding res d updated_def by simp
qed

subsection \<open>Matrix-matrix product: the sum over the \<open>k\<close>-blocks\<close>

lemma fold_plus_sum_list:
  fixes a :: "'a::monoid_add"
  shows "fold (\<lambda>p acc. acc + f p) xs a = a + sum_list (map f xs)"
  by (induction xs arbitrary: a) (simp_all add: add.assoc)

lemma tile_dot_sum:
  fixes g :: "'a::{comm_monoid_add, times} gemm_setup"
  shows "tile_dot g t i j
     = sum_list (map (\<lambda>p. op_entry (g_A g) (g_A_trans g) i p * op_entry (g_B g) (g_B_trans g) p j)
          [t * b_kc (g_blocks g)
           ..<t * b_kc (g_blocks g) + min (b_kc (g_blocks g)) (g_k_size g - t * b_kc (g_blocks g))])"
proof -
  let ?f = "\<lambda>p. op_entry (g_A g) (g_A_trans g) i p * op_entry (g_B g) (g_B_trans g) p j"
  let ?o = "t * b_kc (g_blocks g)"
  let ?c = "min (b_kc (g_blocks g)) (g_k_size g - ?o)"
  have "map (\<lambda>p. ?f (?o + p)) [0..<?c] = map ?f (map (\<lambda>p. p + ?o) [0..<?c])"
    by (simp add: add.commute)
  also have "\<dots> = map ?f [?o..<?o + ?c]"
    by (simp only: map_add_upt add.commute)
  finally show ?thesis
    by (simp add: tile_dot_def fold_plus_sum_list)
qed

lemma dot_sum:
  fixes A :: "'a::{comm_monoid_add, times} matrix_base"
  shows "dot A tA B tB k i j = sum_list (map (\<lambda>p. op_entry A tA i p * op_entry B tB p j) [0..<k])"
  by (simp add: dot_def fold_plus_sum_list)

lemma block_sums_append:
  fixes f :: "nat \<Rightarrow> 'a::comm_monoid_add" and kc k t :: nat
  shows "sum_list (map f [0..<min k (t * kc)])
         + sum_list (map f [t * kc..<t * kc + min kc (k - t * kc)])
       = sum_list (map f [0..<min k (Suc t * kc)])"
proof (cases "t * kc \<le> k")
  case True
  have a: "min k (t * kc) = t * kc" using True by simp
  have b: "t * kc + min kc (k - t * kc) = min k (Suc t * kc)" using True by simp
  have "t * kc \<le> min k (Suc t * kc)" using True by simp
  then obtain d where d: "min k (Suc t * kc) = t * kc + d" using le_Suc_ex by blast
  have "[0..<t * kc + d] = [0..<t * kc] @ [t * kc..<t * kc + d]"
    by (rule upt_add_eq_append) simp
  then show ?thesis unfolding a b d by simp
next
  case False
  then have "min k (t * kc) = k" "min k (Suc t * kc) = k" "k - t * kc = 0" by simp_all
  then show ?thesis by simp
qed

text \<open>
  When \<open>beta\<close> is neither greater nor less than zero, the first \<open>k\<close>-block assigns and
  the later ones accumulate: the cell ends as \<open>alpha\<close> times the whole sum, whatever it
  held.
\<close>

lemma gemm_cell_zero_path:
  fixes g :: "'a::{comm_monoid_add, semiring, ord} gemm_setup"
  assumes nb: "\<not> (g_beta g > 0 \<or> g_beta g < 0)"
    and k: "0 < g_k_size g" and kc: "0 < b_kc (g_blocks g)"
  shows "gemm_cell g i j old
       = g_alpha g * dot (g_A g) (g_A_trans g) (g_B g) (g_B_trans g) (g_k_size g) i j"
proof -
  let ?kc = "b_kc (g_blocks g)" and ?k = "g_k_size g"
  let ?f = "\<lambda>p. op_entry (g_A g) (g_A_trans g) i p * op_entry (g_B g) (g_B_trans g) p j"
  let ?S = "\<lambda>n. sum_list (map ?f [0..<n])"
  let ?step = "\<lambda>t c. cell_update (g_alpha g) (g_beta g) t (tile_dot g t i j) c"
  let ?N = "(?k + (?kc - 1)) div ?kc"
  have steps: "fold ?step [0..<Suc t] old = g_alpha g * ?S (min ?k (Suc t * ?kc))" for t
  proof (induction t)
    case 0
    have "tile_dot g 0 i j = ?S (min ?k ?kc)"
      unfolding tile_dot_sum by (simp add: min.commute)
    then show ?case using nb by (simp add: cell_update_def)
  next
    case (Suc t)
    have "fold ?step [0..<Suc (Suc t)] old
        = ?step (Suc t) (fold ?step [0..<Suc t] old)" by simp
    also have "\<dots> = g_alpha g * ?S (min ?k (Suc t * ?kc)) + g_alpha g * tile_dot g (Suc t) i j"
      unfolding Suc.IH using nb by (simp add: cell_update_def)
    also have "\<dots> = g_alpha g * (?S (min ?k (Suc t * ?kc)) + tile_dot g (Suc t) i j)"
      by (simp only: distrib_left)
    also have "?S (min ?k (Suc t * ?kc)) + tile_dot g (Suc t) i j = ?S (min ?k (Suc (Suc t) * ?kc))"
      unfolding tile_dot_sum by (rule block_sums_append)
    finally show ?case .
  qed
  have "0 < ?N"
  proof (rule ccontr)
    assume "\<not> 0 < ?N"
    then have "?N = 0" by simp
    then have "?k \<le> 0 * ?kc" using ceil_blocks_cover [OF kc, of ?k] by (simp only:)
    with k show False by simp
  qed
  then obtain t where N: "?N = Suc t" by (cases ?N) simp_all
  have "?k \<le> Suc t * ?kc" using ceil_blocks_cover [OF kc, of ?k] unfolding N .
  then have "min ?k (Suc t * ?kc) = ?k" by simp
  then show ?thesis
    unfolding gemm_cell_def N steps dot_sum by simp
qed

subsection \<open>Matrix-matrix product: two \<open>k\<close>-blocks on the general path\<close>

lemma two_k_blocks:
  fixes k kc :: nat
  assumes "kc < k" "k \<le> 2 * kc"
  shows "(k + (kc - 1)) div kc = 2"
proof (rule div_nat_eqI)
  show "kc * 2 \<le> k + (kc - 1)" using assms by simp
  show "k + (kc - 1) < kc * Suc 2" using assms by simp
qed

lemma gemm_cell_two_k_blocks:
  fixes g :: "'a::{zero, plus, times, ord} gemm_setup"
  assumes b: "g_beta g > 0 \<or> g_beta g < 0"
    and lo: "b_kc (g_blocks g) < g_k_size g" and hi: "g_k_size g \<le> 2 * b_kc (g_blocks g)"
  shows "gemm_cell g i j old
       = g_beta g * (g_beta g * old + g_alpha g * tile_dot g 0 i j)
         + g_alpha g * tile_dot g 1 i j"
proof -
  have "[0..<2] = [0, Suc 0]" by (simp add: upt_rec)
  then show ?thesis
    unfolding gemm_cell_def two_k_blocks [OF lo hi] using b by (simp add: cell_update_def)
qed

lemma dot_two_k_blocks:
  fixes g :: "'a::{comm_monoid_add, times} gemm_setup"
  assumes lo: "b_kc (g_blocks g) < g_k_size g" and hi: "g_k_size g \<le> 2 * b_kc (g_blocks g)"
  shows "dot (g_A g) (g_A_trans g) (g_B g) (g_B_trans g) (g_k_size g) i j
       = tile_dot g 0 i j + tile_dot g 1 i j"
proof -
  define kc where "kc = b_kc (g_blocks g)"
  define k where "k = g_k_size g"
  define f where "f = (\<lambda>p. op_entry (g_A g) (g_A_trans g) i p * op_entry (g_B g) (g_B_trans g) p j)"
  have lo': "kc < k" and hi': "k \<le> 2 * kc" using lo hi unfolding kc_def k_def by simp_all
  have m0: "0 * kc + min kc (k - 0 * kc) = kc" using lo' by simp
  have m1: "1 * kc + min kc (k - 1 * kc) = k" using lo' hi' by simp
  have t0: "tile_dot g 0 i j = sum_list (map f [0 * kc..<0 * kc + min kc (k - 0 * kc)])"
    unfolding kc_def k_def f_def by (rule tile_dot_sum)
  have t1: "tile_dot g 1 i j = sum_list (map f [1 * kc..<1 * kc + min kc (k - 1 * kc)])"
    unfolding kc_def k_def f_def by (rule tile_dot_sum)
  obtain d where d: "k = kc + d" using lo' less_imp_add_positive by blast
  have "[0..<kc + d] = [0..<kc] @ [kc..<kc + d]"
    by (rule upt_add_eq_append) simp
  then have "[0..<k] = [0..<kc] @ [kc..<k]" unfolding d .
  then have "sum_list (map f [0..<k]) = sum_list (map f [0..<kc]) + sum_list (map f [kc..<k])"
    by simp
  moreover have "dot (g_A g) (g_A_trans g) (g_B g) (g_B_trans g) (g_k_size g) i j
      = sum_list (map f [0..<k])"
    unfolding k_def f_def by (rule dot_sum)
  ultimately show ?thesis unfolding t0 t1 m0 m1 by simp
qed

subsection \<open>Matrix-matrix product: the clipped micro-tile\<close>

text \<open>The two branches of the write-back are one loop nest of cell updates.\<close>

lemma write_result_fold:
  "write_result g A2B1_idx row0 col0 tile C
     = fold (\<lambda>x. fold (\<lambda>y D. D(wrapper_index (g_C g) (row0 + x) (col0 + y) :=
                  cell_update (g_alpha g) (g_beta g) A2B1_idx (tile (x * b_nr (g_blocks g) + y))
                    (D (wrapper_index (g_C g) (row0 + x) (col0 + y)))))
                [0..<tile_cols g col0])
         [0..<tile_rows g row0] C"
proof (cases "g_beta g > 0 \<or> g_beta g < 0")
  case True
  then show ?thesis
    by (simp add: write_result_def write_general_def cell_update_cases)
next
  case False
  show ?thesis
  proof (cases "A2B1_idx = 0")
    case True
    with False show ?thesis
      by (simp add: write_result_def write_zero_def cell_update_cases)
  next
    case nz: False
    with False show ?thesis
      by (simp add: write_result_def write_zero_def cell_update_cases)
  qed
qed

text \<open>One micro-tile inside the ranges: the count and the bounds without wrap-around.\<close>

lemma micro_tile_clipped:
  fixes s :: "'a::{zero, plus, times, ord} gemm_state"
  assumes kb: "A2B1_idx * b_kc (g_blocks g) < g_k_size g"
    and r: "C1A1_idx * b_mc (g_blocks g) + sliver_A_idx * b_mr (g_blocks g) < g_m_size g"
    and c: "C2B2_idx * b_nc (g_blocks g) + sliver_B_idx * b_nr (g_blocks g) < g_n_size g"
    and tile: "tile = standard_micro_kernel
                 (\<lambda>t. buffer_A s (sliver_A_idx * b_mr (g_blocks g) * b_kc (g_blocks g) + t))
                 (\<lambda>t. buffer_B s (sliver_B_idx * b_nr (g_blocks g) * b_kc (g_blocks g) + t))
                 (fold (\<lambda>x b. b(x := 0)) [0..<b_mr (g_blocks g) * b_nr (g_blocks g)] (buffer_C s))
                 (min (b_kc (g_blocks g)) (g_k_size g - A2B1_idx * b_kc (g_blocks g)))
                 (b_mr (g_blocks g)) (b_nr (g_blocks g))"
  shows "buffer_C (micro_tile g C2B2_idx A2B1_idx C1A1_idx sliver_B_idx sliver_A_idx s) = tile"
    and "data_C (micro_tile g C2B2_idx A2B1_idx C1A1_idx sliver_B_idx sliver_A_idx s)
       = fold (\<lambda>x. fold (\<lambda>y D.
                 D(wrapper_index (g_C g)
                     (C1A1_idx * b_mc (g_blocks g) + sliver_A_idx * b_mr (g_blocks g) + x)
                     (C2B2_idx * b_nc (g_blocks g) + sliver_B_idx * b_nr (g_blocks g) + y) :=
                    cell_update (g_alpha g) (g_beta g) A2B1_idx (tile (x * b_nr (g_blocks g) + y))
                      (D (wrapper_index (g_C g)
                            (C1A1_idx * b_mc (g_blocks g) + sliver_A_idx * b_mr (g_blocks g) + x)
                            (C2B2_idx * b_nc (g_blocks g) + sliver_B_idx * b_nr (g_blocks g) + y)))))
               [0..<min (b_nr (g_blocks g))
                      (g_n_size g
                       - (C2B2_idx * b_nc (g_blocks g) + sliver_B_idx * b_nr (g_blocks g)))])
           [0..<min (b_mr (g_blocks g))
                  (g_m_size g - (C1A1_idx * b_mc (g_blocks g) + sliver_A_idx * b_mr (g_blocks g)))]
           (data_C s)"
proof -
  have sub: "num_micros_slivers g A2B1_idx
      = min (b_kc (g_blocks g)) (g_k_size g - A2B1_idx * b_kc (g_blocks g))"
    using kb by (simp add: num_micros_slivers_def)
  have rows: "tile_rows g (C1A1_idx * b_mc (g_blocks g) + sliver_A_idx * b_mr (g_blocks g))
      = min (b_mr (g_blocks g))
          (g_m_size g - (C1A1_idx * b_mc (g_blocks g) + sliver_A_idx * b_mr (g_blocks g)))"
    using r by (simp add: tile_rows_def)
  have cols: "tile_cols g (C2B2_idx * b_nc (g_blocks g) + sliver_B_idx * b_nr (g_blocks g))
      = min (b_nr (g_blocks g))
          (g_n_size g - (C2B2_idx * b_nc (g_blocks g) + sliver_B_idx * b_nr (g_blocks g)))"
    using c by (simp add: tile_cols_def)
  have mt: "micro_tile g C2B2_idx A2B1_idx C1A1_idx sliver_B_idx sliver_A_idx s
      = s\<lparr>buffer_C := tile,
           data_C := write_result g A2B1_idx
                       (C1A1_idx * b_mc (g_blocks g) + sliver_A_idx * b_mr (g_blocks g))
                       (C2B2_idx * b_nc (g_blocks g) + sliver_B_idx * b_nr (g_blocks g))
                       tile (data_C s)\<rparr>"
    unfolding tile by (simp add: micro_tile_def Let_def sub)
  show "buffer_C (micro_tile g C2B2_idx A2B1_idx C1A1_idx sliver_B_idx sliver_A_idx s) = tile"
    unfolding mt by simp
  have "data_C (micro_tile g C2B2_idx A2B1_idx C1A1_idx sliver_B_idx sliver_A_idx s)
      = write_result g A2B1_idx
          (C1A1_idx * b_mc (g_blocks g) + sliver_A_idx * b_mr (g_blocks g))
          (C2B2_idx * b_nc (g_blocks g) + sliver_B_idx * b_nr (g_blocks g))
          tile (data_C s)"
    unfolding mt by simp
  then show "data_C (micro_tile g C2B2_idx A2B1_idx C1A1_idx sliver_B_idx sliver_A_idx s)
       = fold (\<lambda>x. fold (\<lambda>y D.
                 D(wrapper_index (g_C g)
                     (C1A1_idx * b_mc (g_blocks g) + sliver_A_idx * b_mr (g_blocks g) + x)
                     (C2B2_idx * b_nc (g_blocks g) + sliver_B_idx * b_nr (g_blocks g) + y) :=
                    cell_update (g_alpha g) (g_beta g) A2B1_idx (tile (x * b_nr (g_blocks g) + y))
                      (D (wrapper_index (g_C g)
                            (C1A1_idx * b_mc (g_blocks g) + sliver_A_idx * b_mr (g_blocks g) + x)
                            (C2B2_idx * b_nc (g_blocks g) + sliver_B_idx * b_nr (g_blocks g) + y)))))
               [0..<min (b_nr (g_blocks g))
                      (g_n_size g
                       - (C2B2_idx * b_nc (g_blocks g) + sliver_B_idx * b_nr (g_blocks g)))])
           [0..<min (b_mr (g_blocks g))
                  (g_m_size g - (C1A1_idx * b_mc (g_blocks g) + sliver_A_idx * b_mr (g_blocks g)))]
           (data_C s)"
    unfolding write_result_fold rows cols .
qed

text \<open>
  The value of a cell after all \<open>k\<close>-blocks, with the sum of each \<open>k\<close>-block written out
  over its clipped range.
\<close>

lemma gemm_cell_clipped:
  "gemm_cell g i j old
     = fold (\<lambda>t c. cell_update (g_alpha g) (g_beta g) t
                     (fold (\<lambda>p acc. acc + op_entry (g_A g) (g_A_trans g) i (t * b_kc (g_blocks g) + p)
                                        * op_entry (g_B g) (g_B_trans g) (t * b_kc (g_blocks g) + p) j)
                        [0..<min (b_kc (g_blocks g)) (g_k_size g - t * b_kc (g_blocks g))] 0) c)
         [0..<(g_k_size g + (b_kc (g_blocks g) - 1)) div b_kc (g_blocks g)] old"
  unfolding gemm_cell_def tile_dot_def ..

subsection \<open>Matrix-matrix product: the claims\<close>

text \<open>
  Claim C5. When one of the three product dimensions is zero (\<open>C_size1\<close>, \<open>C_size2\<close>, or
  the inner dimension of \<open>op(A)\<close>), \<^verbatim>\<open>detail::prod\<close> returns before it asks for block
  sizes or runs a loop: the buffer of \<open>C\<close> is returned as it was, so \<open>beta\<close> is not
  applied to \<open>C\<close>; \<open>prod_impl\<close> returns \<open>C\<close> itself. The dispatcher passes a \<open>C\<close> whose
  sizes are the outer product dimensions \<open>m\<close> and \<open>n\<close>.
\<close>

theorem prod_zero_dimension:
  assumes "C_size1 = 0 \<or> C_size2 = 0 \<or> (if trans_A then size1 A else size2 A) = 0"
    and "size1 C = 0 \<or> size2 C = 0 \<or> (if trans_A then size1 A else size2 A) = 0"
  shows "detail_prod get_block_sizes fresh A trans_A B trans_B C_wrapper C_data C_size1 C_size2
           alpha beta = Inr C_data
       \<and> prod_impl get_block_sizes fresh A trans_A B trans_B C alpha beta = Inr C"
  using assms by (simp add: prod_impl_eq detail_prod_def Let_def)

theorem prod_zero_dimension_witness:
  "detail_prod odd_blocks (\<lambda>_ _ _. 0) example_2x0 False example_0x2 False
     (wrapper_of True example_padded) (elements example_padded) 2 2 3 5
     = Inr (elements example_padded)
   \<and> prod_impl odd_blocks (\<lambda>_ _ _. 0) example_2x0 False example_0x2 False example_padded 3 5
     = Inr example_padded"
proof -
  have "(2::nat) = 0 \<or> (2::nat) = 0 \<or> (if False then size1 example_2x0 else size2 example_2x0) = 0"
    "size1 example_padded = 0 \<or> size2 example_padded = 0
      \<or> (if False then size1 example_2x0 else size2 example_2x0) = 0"
    by code_simp+
  then show ?thesis by (rule prod_zero_dimension)
qed

text \<open>
  Claim C4. For a call whose dimensions are validated and whose block sizes are valid,
  whether or not they divide the dimensions, and for every \<open>k\<close>-block and every
  micro-tile the loops run (first cell \<open>(row0, col0)\<close>), from any state \<open>s\<close> of the
  buffers:

  \<^item> the count \<open>min kc (k - A2B1_idx * kc)\<close> is not zero and ends inside the \<open>k\<close> range,
    the bounds \<open>min mr (m - row0)\<close> and \<open>min nr (n - col0)\<close> are not zero and end inside
    \<open>C\<close>, and none of the subtractions wraps around;
  \<^item> the accumulator \<open>micro_tile\<close> leaves is the micro-kernel run over
    \<open>min kc (k - A2B1_idx * kc)\<close> micro-slivers of the two packed slivers;
  \<^item> the buffer of \<open>C\<close> that \<open>micro_tile\<close> leaves is the write-back loop nest over
    \<open>x < min mr (m - row0)\<close> and \<open>y < min nr (n - col0)\<close>, each cell updated from
    \<open>tile[x][y]\<close>;
  \<^item> the call does not fail, and every logical cell \<open>(i, j)\<close> of the result is the fold of
    the write-backs of the \<open>k\<close>-blocks, the sum of \<open>k\<close>-block \<open>t\<close> taken over
    \<open>min kc (k - t * kc)\<close> products of entries of \<open>op(A)\<close> and \<open>op(B)\<close>: nothing of what the
    fresh buffers held is read;
  \<^item> no offset of the buffer of \<open>C\<close> other than the offsets of the logical cells is
    changed: every padding cell keeps its value.
\<close>

theorem prod_clips_remainder_tiles:
  fixes C :: "'a::{zero, plus, times, ord} matrix_base" and s :: "'a gemm_state"
  assumes ok: "prod_impl_ok get_block_sizes A trans_A B trans_B C"
    and g: "g = gemm_setup_of get_block_sizes A trans_A B trans_B
                  (wrapper_of (row_major C) C) alpha beta"
    and kb: "A2B1_idx < (g_k_size g + (b_kc (g_blocks g) - 1)) div b_kc (g_blocks g)"
    and bm: "C1A1_idx < (g_m_size g + (b_mc (g_blocks g) - 1)) div b_mc (g_blocks g)"
    and sa: "sliver_A_idx
               < max_sliver_idx (g_m_size g) (b_mc (g_blocks g)) (b_mr (g_blocks g)) C1A1_idx"
    and bn: "C2B2_idx < (g_n_size g + (b_nc (g_blocks g) - 1)) div b_nc (g_blocks g)"
    and sb: "sliver_B_idx
               < max_sliver_idx (g_n_size g) (b_nc (g_blocks g)) (b_nr (g_blocks g)) C2B2_idx"
    and row0: "row0 = C1A1_idx * b_mc (g_blocks g) + sliver_A_idx * b_mr (g_blocks g)"
    and col0: "col0 = C2B2_idx * b_nc (g_blocks g) + sliver_B_idx * b_nr (g_blocks g)"
    and tile: "tile = standard_micro_kernel
                 (\<lambda>t. buffer_A s (sliver_A_idx * b_mr (g_blocks g) * b_kc (g_blocks g) + t))
                 (\<lambda>t. buffer_B s (sliver_B_idx * b_nr (g_blocks g) * b_kc (g_blocks g) + t))
                 (fold (\<lambda>x b. b(x := 0)) [0..<b_mr (g_blocks g) * b_nr (g_blocks g)] (buffer_C s))
                 (min (b_kc (g_blocks g)) (g_k_size g - A2B1_idx * b_kc (g_blocks g)))
                 (b_mr (g_blocks g)) (b_nr (g_blocks g))"
    and i: "i < size1 C" and j: "j < size2 C"
    and a: "a \<notin> cell_addresses (wrapper_of (row_major C) C) (size1 C) (size2 C)"
  shows "(A2B1_idx * b_kc (g_blocks g) < g_k_size g
          \<and> num_micros_slivers g A2B1_idx
              = min (b_kc (g_blocks g)) (g_k_size g - A2B1_idx * b_kc (g_blocks g))
          \<and> 0 < num_micros_slivers g A2B1_idx
          \<and> A2B1_idx * b_kc (g_blocks g) + num_micros_slivers g A2B1_idx \<le> g_k_size g)
       \<and> (row0 < g_m_size g
          \<and> tile_rows g row0 = min (b_mr (g_blocks g)) (g_m_size g - row0)
          \<and> 0 < tile_rows g row0 \<and> row0 + tile_rows g row0 \<le> g_m_size g)
       \<and> (col0 < g_n_size g
          \<and> tile_cols g col0 = min (b_nr (g_blocks g)) (g_n_size g - col0)
          \<and> 0 < tile_cols g col0 \<and> col0 + tile_cols g col0 \<le> g_n_size g)
       \<and> buffer_C (micro_tile g C2B2_idx A2B1_idx C1A1_idx sliver_B_idx sliver_A_idx s) = tile
       \<and> data_C (micro_tile g C2B2_idx A2B1_idx C1A1_idx sliver_B_idx sliver_A_idx s)
           = fold (\<lambda>x. fold (\<lambda>y D.
                     D(wrapper_index (wrapper_of (row_major C) C) (row0 + x) (col0 + y) :=
                        cell_update alpha beta A2B1_idx (tile (x * b_nr (g_blocks g) + y))
                          (D (wrapper_index (wrapper_of (row_major C) C) (row0 + x) (col0 + y)))))
                   [0..<min (b_nr (g_blocks g)) (g_n_size g - col0)])
               [0..<min (b_mr (g_blocks g)) (g_m_size g - row0)] (data_C s)
       \<and> \<not> isl (prod_impl get_block_sizes fresh A trans_A B trans_B C alpha beta)
       \<and> entry (projr (prod_impl get_block_sizes fresh A trans_A B trans_B C alpha beta)) i j
           = fold (\<lambda>t c. cell_update alpha beta t
                     (fold (\<lambda>p acc. acc + op_entry A trans_A i (t * b_kc (g_blocks g) + p)
                                        * op_entry B trans_B (t * b_kc (g_blocks g) + p) j)
                        [0..<min (b_kc (g_blocks g)) (g_k_size g - t * b_kc (g_blocks g))] 0) c)
               [0..<(g_k_size g + (b_kc (g_blocks g) - 1)) div b_kc (g_blocks g)] (entry C i j)
       \<and> elements (projr (prod_impl get_block_sizes fresh A trans_A B trans_B C alpha beta)) a
           = elements C a"
proof -
  have gok: "gemm_ok g" unfolding g using ok by (rule prod_impl_ok_gemm_ok)
  note blocks = gemm_ok_blocks [OF gok]
  have f: "g_alpha g = alpha" "g_beta g = beta" "g_A g = A" "g_A_trans g = trans_A"
    "g_B g = B" "g_B_trans g = trans_B" "g_C g = wrapper_of (row_major C) C"
    unfolding g by (simp_all add: gemm_setup_of_fields)
  have k: "A2B1_idx * b_kc (g_blocks g) < g_k_size g"
    using blocks(2) kb by (rule ceil_blocks_origin)
  have m: "C1A1_idx * b_mc (g_blocks g) < g_m_size g"
    using blocks(1) bm by (rule ceil_blocks_origin)
  have n: "C2B2_idx * b_nc (g_blocks g) < g_n_size g"
    using blocks(3) bn by (rule ceil_blocks_origin)
  have r: "row0 < g_m_size g"
    unfolding row0 using sliver_origin [OF blocks(1,4,6) m sa] by simp
  have c: "col0 < g_n_size g"
    unfolding col0 using sliver_origin [OF blocks(3,5,7) n sb] by simp
  have c1: "A2B1_idx * b_kc (g_blocks g) < g_k_size g
          \<and> num_micros_slivers g A2B1_idx
              = min (b_kc (g_blocks g)) (g_k_size g - A2B1_idx * b_kc (g_blocks g))
          \<and> 0 < num_micros_slivers g A2B1_idx
          \<and> A2B1_idx * b_kc (g_blocks g) + num_micros_slivers g A2B1_idx \<le> g_k_size g"
    using k blocks(2) by (simp add: num_micros_slivers_def)
  have c2: "row0 < g_m_size g
          \<and> tile_rows g row0 = min (b_mr (g_blocks g)) (g_m_size g - row0)
          \<and> 0 < tile_rows g row0 \<and> row0 + tile_rows g row0 \<le> g_m_size g"
    using r blocks(4) by (simp add: tile_rows_def)
  have c3: "col0 < g_n_size g
          \<and> tile_cols g col0 = min (b_nr (g_blocks g)) (g_n_size g - col0)
          \<and> 0 < tile_cols g col0 \<and> col0 + tile_cols g col0 \<le> g_n_size g"
    using c blocks(5) by (simp add: tile_cols_def)
  note mt = micro_tile_clipped [OF k r [unfolded row0] c [unfolded col0] tile,
      folded row0 col0, unfolded f]
  have c6: "entry (projr (prod_impl get_block_sizes fresh A trans_A B trans_B C alpha beta)) i j
           = fold (\<lambda>t c. cell_update alpha beta t
                     (fold (\<lambda>p acc. acc + op_entry A trans_A i (t * b_kc (g_blocks g) + p)
                                        * op_entry B trans_B (t * b_kc (g_blocks g) + p) j)
                        [0..<min (b_kc (g_blocks g)) (g_k_size g - t * b_kc (g_blocks g))] 0) c)
               [0..<(g_k_size g + (b_kc (g_blocks g) - 1)) div b_kc (g_blocks g)] (entry C i j)"
    using prod_impl_cells(2) [OF ok i j, of fresh alpha beta]
    unfolding g [symmetric] gemm_cell_clipped f .
  show ?thesis
    using c1 c2 c3 mt c6 prod_impl_cells(1) [OF ok] prod_impl_cells(3) [OF ok a] by blast
qed

text \<open>
  A 3 by 3 product with \<open>k = 2\<close> and \<open>mc = 2\<close>, \<open>kc = 3\<close>, \<open>nc = 4\<close>, \<open>mr = nr = 2\<close>: the only
  \<open>k\<close>-block has two micro-slivers, and the last micro-tile starts at \<open>(2, 2)\<close> and is
  clipped to one row and one column. From \<open>example_state\<close> the micro-kernel leaves
  \<open>1 * 1 + 1 * 1 = 2\<close> in the accumulator, the write-back changes offset 10, cell
  \<open>(2, 2)\<close> of the 4 by 4 buffer, from 60 to 62 and leaves the offsets 11 and 14, the
  cells \<open>(2, 3)\<close> and \<open>(3, 2)\<close> of the padding, as they were. Whatever the fresh buffers
  hold, the whole product leaves \<open>60 + 4 * 4 + 5 * 5 = 101\<close> in cell \<open>(2, 2)\<close> and keeps
  the padding at offset 3.
\<close>

theorem prod_clips_remainder_tiles_witness:
  "num_micros_slivers odd_setup 0 = 2
   \<and> tile_rows odd_setup 2 = 1 \<and> tile_cols odd_setup 2 = 1
   \<and> buffer_C (micro_tile odd_setup 0 0 1 1 0 example_state) 0 = 2
   \<and> data_C (micro_tile odd_setup 0 0 1 1 0 example_state) 10 = 62
   \<and> data_C (micro_tile odd_setup 0 0 1 1 0 example_state) 11 = 61
   \<and> data_C (micro_tile odd_setup 0 0 1 1 0 example_state) 14 = 64
   \<and> (\<forall>fresh. entry (projr (prod_impl odd_blocks fresh example_3x2 False example_2x3 False
                                example_3x3 1 1)) 2 2 = 101)
   \<and> (\<forall>fresh. elements (projr (prod_impl odd_blocks fresh example_3x2 False example_2x3 False
                                   example_3x3 1 1)) 3 = 53)"
proof -
  have ok: "prod_impl_ok odd_blocks example_3x2 False example_2x3 False example_3x3"
    by code_simp
  have h: "0 < (g_k_size odd_setup + (b_kc (g_blocks odd_setup) - 1)) div b_kc (g_blocks odd_setup)"
    "1 < (g_m_size odd_setup + (b_mc (g_blocks odd_setup) - 1)) div b_mc (g_blocks odd_setup)"
    "0 < max_sliver_idx (g_m_size odd_setup) (b_mc (g_blocks odd_setup))
           (b_mr (g_blocks odd_setup)) 1"
    "0 < (g_n_size odd_setup + (b_nc (g_blocks odd_setup) - 1)) div b_nc (g_blocks odd_setup)"
    "1 < max_sliver_idx (g_n_size odd_setup) (b_nc (g_blocks odd_setup))
           (b_nr (g_blocks odd_setup)) 0"
    "2 = 1 * b_mc (g_blocks odd_setup) + 0 * b_mr (g_blocks odd_setup)"
    "2 = 0 * b_nc (g_blocks odd_setup) + 1 * b_nr (g_blocks odd_setup)"
    by code_simp+
  have c: "2 < size1 example_3x3" "2 < size2 example_3x3"
    "3 \<notin> cell_addresses (wrapper_of (row_major example_3x3) example_3x3)
           (size1 example_3x3) (size2 example_3x3)"
    by code_simp+
  note t = prod_clips_remainder_tiles [where s = example_state, OF ok odd_setup_def h refl c]
  have v: "min (b_kc (g_blocks odd_setup)) (g_k_size odd_setup - 0 * b_kc (g_blocks odd_setup)) = 2"
    "min (b_mr (g_blocks odd_setup)) (g_m_size odd_setup - 2) = 1"
    "min (b_nr (g_blocks odd_setup)) (g_n_size odd_setup - 2) = 1"
    by code_simp+
  have n: "num_micros_slivers odd_setup 0 = 2"
    using t [THEN conjunct1] unfolding v(1) by simp
  have r: "tile_rows odd_setup 2 = 1"
    using t [THEN conjunct2, THEN conjunct1] unfolding v(2) by simp
  have l: "tile_cols odd_setup 2 = 1"
    using t [THEN conjunct2, THEN conjunct2, THEN conjunct1] unfolding v(3) by simp
  note b = t [THEN conjunct2, THEN conjunct2, THEN conjunct2, THEN conjunct1]
  note d = t [THEN conjunct2, THEN conjunct2, THEN conjunct2, THEN conjunct2, THEN conjunct1]
  have b0: "buffer_C (micro_tile odd_setup 0 0 1 1 0 example_state) 0 = 2"
    unfolding b by code_simp
  have d10: "data_C (micro_tile odd_setup 0 0 1 1 0 example_state) 10 = 62"
    unfolding d by code_simp
  have d11: "data_C (micro_tile odd_setup 0 0 1 1 0 example_state) 11 = 61"
    unfolding d by code_simp
  have d14: "data_C (micro_tile odd_setup 0 0 1 1 0 example_state) 14 = 64"
    unfolding d by code_simp
  have e: "entry (projr (prod_impl odd_blocks fresh example_3x2 False example_2x3 False
                           example_3x3 1 1)) 2 2 = 101" for fresh
  proof -
    note u = t [where fresh = fresh, THEN conjunct2, THEN conjunct2, THEN conjunct2,
        THEN conjunct2, THEN conjunct2, THEN conjunct2, THEN conjunct1]
    show ?thesis unfolding u by code_simp
  qed
  have f: "elements (projr (prod_impl odd_blocks fresh example_3x2 False example_2x3 False
                              example_3x3 1 1)) 3 = 53" for fresh
  proof -
    note u = t [where fresh = fresh, THEN conjunct2, THEN conjunct2, THEN conjunct2,
        THEN conjunct2, THEN conjunct2, THEN conjunct2, THEN conjunct2]
    show ?thesis unfolding u by code_simp
  qed
  from n r l b0 d10 d11 d14 e f show ?thesis by blast
qed

text \<open>
  Claim C3. With \<open>beta\<close> exactly zero and \<open>m, k, n \<ge> 1\<close>, every logical cell of \<open>C\<close> is
  assigned: the write-back of the \<open>k\<close>-block 0 stores \<open>alpha * tile\<close>, the write-backs of
  the later \<open>k\<close>-blocks add \<open>alpha * tile\<close>, and the cell ends as
  \<open>alpha * (op(A) * op(B))(i, j)\<close> whatever \<open>C\<close> held before, NaN included. The scalars
  are the reals extended by NaN.
\<close>

theorem prod_beta_zero_overwrites:
  fixes A B C :: "numeric matrix_base"
  assumes ok: "prod_impl_ok get_block_sizes A trans_A B trans_B C"
    and k: "0 < (if trans_A then size1 A else size2 A)"
    and i: "i < size1 C" and j: "j < size2 C"
  shows "\<not> isl (prod_impl get_block_sizes fresh A trans_A B trans_B C alpha 0)
       \<and> entry (projr (prod_impl get_block_sizes fresh A trans_A B trans_B C alpha 0)) i j
           = alpha * dot A trans_A B trans_B (if trans_A then size1 A else size2 A) i j
       \<and> cell_update alpha 0 0 tile old = alpha * tile
       \<and> cell_update alpha 0 (Suc A2B1_idx) tile old = old + alpha * tile"
proof -
  let ?g = "gemm_setup_of get_block_sizes A trans_A B trans_B (wrapper_of (row_major C) C) alpha 0"
  have z: "\<not> ((0::numeric) > 0 \<or> (0::numeric) < 0)" by (simp add: zero_numeric_def)
  have gok: "gemm_ok ?g" using ok by (rule prod_impl_ok_gemm_ok)
  have "gemm_cell ?g i j (entry C i j)
      = g_alpha ?g * dot (g_A ?g) (g_A_trans ?g) (g_B ?g) (g_B_trans ?g) (g_k_size ?g) i j"
    using z k gemm_ok_blocks(2) [OF gok]
    by (intro gemm_cell_zero_path) (simp_all add: gemm_setup_of_fields)
  then have "gemm_cell ?g i j (entry C i j)
      = alpha * dot A trans_A B trans_B (if trans_A then size1 A else size2 A) i j"
    by (simp add: gemm_setup_of_fields)
  then show ?thesis
    using prod_impl_cells(1) [OF ok] prod_impl_cells(2) [OF ok i j, of fresh alpha 0] z
    by (simp add: cell_update_def)
qed

text \<open>
  Two \<open>k\<close>-blocks and a \<open>C\<close> that holds NaN: the cell ends as \<open>2 * (1 * 3 + 2 * 4)\<close>.
\<close>

theorem prod_beta_zero_overwrites_witness:
  "entry numeric_cell 0 0 = NaN
   \<and> entry (projr (prod_impl unit_blocks (\<lambda>_ _ _. NaN) numeric_row False numeric_col False
                     numeric_cell (Num 2) 0)) 0 0 = Num 22"
proof -
  have ok: "prod_impl_ok unit_blocks numeric_row False numeric_col False numeric_cell"
    by code_simp
  have h: "0 < (if False then size1 numeric_row else size2 numeric_row)"
    "0 < size1 numeric_cell" "0 < size2 numeric_cell"
    by code_simp+
  note t = prod_beta_zero_overwrites [OF ok h, of "\<lambda>_ _ _. NaN" "Num 2"]
  have "Num 2 * dot numeric_row False numeric_col False
          (if False then size1 numeric_row else size2 numeric_row) 0 0 = Num 22"
    "entry numeric_cell 0 0 = NaN"
    by code_simp+
  with t show ?thesis by simp
qed


text \<open>
  Claim C1, as stated: with \<open>beta = NaN\<close> the write-back would take the general path and
  compute \<open>C = beta * C + alpha * tile\<close> in every \<open>k\<close>-block. It does not: for a tile
  that holds 3, a cell that holds 5 and \<open>alpha = 2\<close>, the general path would store NaN,
  and the write-back stores 6, which is what the overwrite path stores in the \<open>k\<close>-block
  0; in a later \<open>k\<close>-block it stores \<open>5 + 6\<close>, the accumulation without \<open>beta\<close>.
\<close>

theorem write_result_nan_counterexample:
  "write_general nan_setup 0 0 (\<lambda>_. Num 3) (\<lambda>_. Num 5) 0 = NaN
   \<and> write_result nan_setup 0 0 0 (\<lambda>_. Num 3) (\<lambda>_. Num 5) 0 = Num 6
   \<and> write_zero nan_setup 0 0 0 (\<lambda>_. Num 3) (\<lambda>_. Num 5) 0 = Num 6
   \<and> write_result nan_setup 1 0 0 (\<lambda>_. Num 3) (\<lambda>_. Num 5) 0 = Num 11
   \<and> g_beta nan_setup = NaN"
  by code_simp

text \<open>
  Claim C1, amended. With \<open>beta = NaN\<close> both comparisons \<open>beta > 0\<close> and \<open>beta < 0\<close> are
  false, so every write-back takes the branch written for \<open>beta = 0\<close>: the \<open>k\<close>-block 0
  assigns \<open>C = alpha * tile\<close> and the later \<open>k\<close>-blocks accumulate \<open>C += alpha * tile\<close>.
  For a validated call with \<open>k \<ge> 1\<close> every logical cell of \<open>C\<close> ends as
  \<open>alpha * (op(A) * op(B))(i, j)\<close>: neither \<open>beta\<close> nor the old \<open>C\<close> enters the result.
\<close>

theorem prod_nan_beta_zero_path:
  fixes A B C :: "numeric matrix_base"
  assumes ok: "prod_impl_ok get_block_sizes A trans_A B trans_B C"
    and k: "0 < (if trans_A then size1 A else size2 A)"
    and i: "i < size1 C" and j: "j < size2 C"
    and b: "g_beta g = NaN"
  shows "write_result g A2B1_idx row0 col0 tile C_data = write_zero g A2B1_idx row0 col0 tile C_data
       \<and> \<not> isl (prod_impl get_block_sizes fresh A trans_A B trans_B C alpha NaN)
       \<and> entry (projr (prod_impl get_block_sizes fresh A trans_A B trans_B C alpha NaN)) i j
           = alpha * dot A trans_A B trans_B (if trans_A then size1 A else size2 A) i j"
proof -
  let ?g = "gemm_setup_of get_block_sizes A trans_A B trans_B (wrapper_of (row_major C) C) alpha NaN"
  have z: "\<not> (NaN > (0::numeric) \<or> NaN < (0::numeric))" by (simp add: zero_numeric_def)
  have gok: "gemm_ok ?g" using ok by (rule prod_impl_ok_gemm_ok)
  have "gemm_cell ?g i j (entry C i j)
      = g_alpha ?g * dot (g_A ?g) (g_A_trans ?g) (g_B ?g) (g_B_trans ?g) (g_k_size ?g) i j"
    using z k gemm_ok_blocks(2) [OF gok]
    by (intro gemm_cell_zero_path) (simp_all add: gemm_setup_of_fields)
  then have "gemm_cell ?g i j (entry C i j)
      = alpha * dot A trans_A B trans_B (if trans_A then size1 A else size2 A) i j"
    by (simp add: gemm_setup_of_fields)
  moreover have "write_result g A2B1_idx row0 col0 tile C_data
      = write_zero g A2B1_idx row0 col0 tile C_data"
    using z b by (simp add: write_result_def)
  ultimately show ?thesis
    using prod_impl_cells(1) [OF ok] prod_impl_cells(2) [OF ok i j, of fresh alpha NaN]
    by simp
qed

theorem prod_nan_beta_zero_path_witness:
  "write_result nan_setup 0 0 0 (\<lambda>_. Num 3) (\<lambda>_. Num 5)
     = write_zero nan_setup 0 0 0 (\<lambda>_. Num 3) (\<lambda>_. Num 5)
   \<and> entry (projr (prod_impl unit_blocks (\<lambda>_ _ _. NaN) numeric_row False numeric_col False
                     numeric_cell (Num 2) NaN)) 0 0 = Num 22"
proof -
  have ok: "prod_impl_ok unit_blocks numeric_row False numeric_col False numeric_cell"
    by code_simp
  have h: "0 < (if False then size1 numeric_row else size2 numeric_row)"
    "0 < size1 numeric_cell" "0 < size2 numeric_cell" "g_beta nan_setup = NaN"
    by code_simp+
  note t = prod_nan_beta_zero_path [OF ok h, of 0 0 0 "\<lambda>_. Num 3" "\<lambda>_. Num 5" "\<lambda>_ _ _. NaN" "Num 2"]
  have "Num 2 * dot numeric_row False numeric_col False
          (if False then size1 numeric_row else size2 numeric_row) 0 0 = Num 22"
    by code_simp
  with t show ?thesis by simp
qed

text \<open>
  Claim C2 fails on the code when \<open>beta\<close> is neither 0 nor 1 and the \<open>k\<close> dimension
  spans more than one \<open>k\<close>-block: the general write-back computes
  \<open>C = beta * C + alpha * tile\<close> in every \<open>k\<close>-block, so \<open>beta\<close> is applied to \<open>C\<close>, and to
  the sums of the earlier \<open>k\<close>-blocks, once per \<open>k\<close>-block. For a validated call with
  \<open>beta > 0\<close> or \<open>beta < 0\<close> and \<open>kc < k \<le> 2 * kc\<close>, so two \<open>k\<close>-blocks with the sums \<open>t0\<close>
  and \<open>t1\<close>, the cell ends as \<open>beta * (beta * C(i, j) + alpha * t0) + alpha * t1\<close>, where
  the reference has \<open>alpha * (t0 + t1) + beta * C(i, j)\<close>.
\<close>

theorem prod_beta_applied_per_k_block:
  fixes C :: "'a::{comm_monoid_add, semiring, ord} matrix_base"
  assumes ok: "prod_impl_ok get_block_sizes A trans_A B trans_B C"
    and g: "g = gemm_setup_of get_block_sizes A trans_A B trans_B
                  (wrapper_of (row_major C) C) alpha beta"
    and b: "beta > 0 \<or> beta < 0"
    and lo: "b_kc (g_blocks g) < g_k_size g" and hi: "g_k_size g \<le> 2 * b_kc (g_blocks g)"
    and i: "i < size1 C" and j: "j < size2 C"
  shows "entry (projr (prod_impl get_block_sizes fresh A trans_A B trans_B C alpha beta)) i j
           = beta * (beta * entry C i j + alpha * tile_dot g 0 i j) + alpha * tile_dot g 1 i j
       \<and> gemm_reference A trans_A B trans_B C alpha beta i j
           = alpha * (tile_dot g 0 i j + tile_dot g 1 i j) + beta * entry C i j"
proof -
  have f: "g_alpha g = alpha" "g_beta g = beta" "g_A g = A" "g_A_trans g = trans_A"
    "g_B g = B" "g_B_trans g = trans_B"
    "g_k_size g = (if trans_A then size1 A else size2 A)"
    unfolding g by (simp_all add: gemm_setup_of_fields)
  have "g_beta g > 0 \<or> g_beta g < 0" using b unfolding f .
  from gemm_cell_two_k_blocks [OF this lo hi, of i j "entry C i j"]
  have "gemm_cell g i j (entry C i j)
      = beta * (beta * entry C i j + alpha * tile_dot g 0 i j) + alpha * tile_dot g 1 i j"
    unfolding f .
  moreover have "dot A trans_A B trans_B (if trans_A then size1 A else size2 A) i j
      = tile_dot g 0 i j + tile_dot g 1 i j"
    using dot_two_k_blocks [OF lo hi, of i j] unfolding f .
  ultimately show ?thesis
    using prod_impl_cells(2) [OF ok i j, of fresh alpha beta]
    unfolding g by (simp add: gemm_reference_def)
qed

text \<open>
  \<open>A = (1 1)\<close>, \<open>B\<close> its transpose, \<open>C = (1)\<close>, \<open>alpha = 1\<close>, \<open>beta = 2\<close> and \<open>kc = 1\<close>: the
  product leaves \<open>2 * (2 * 1 + 1) + 1 = 7\<close> where the reference has \<open>1 * 2 + 2 * 1 = 4\<close>.
\<close>

theorem prod_beta_applied_per_k_block_witness:
  "entry (projr (prod_impl unit_blocks (\<lambda>_ _ _. 0) example_row False example_col False
                   example_cell 1 2)) 0 0 = 7
   \<and> gemm_reference example_row False example_col False example_cell 1 2 0 0 = 4"
proof -
  have ok: "prod_impl_ok unit_blocks example_row False example_col False example_cell"
    by code_simp
  have h: "(2::int) > 0 \<or> (2::int) < 0"
    "b_kc (g_blocks two_block_setup) < g_k_size two_block_setup"
    "g_k_size two_block_setup \<le> 2 * b_kc (g_blocks two_block_setup)"
    "0 < size1 example_cell" "0 < size2 example_cell"
    by code_simp+
  note t = prod_beta_applied_per_k_block [OF ok two_block_setup_def h, of "\<lambda>_ _ _. 0"]
  have v: "2 * (2 * entry example_cell 0 0 + 1 * tile_dot two_block_setup 0 0 0)
             + 1 * tile_dot two_block_setup 1 0 0 = 7"
    "1 * (tile_dot two_block_setup 0 0 0 + tile_dot two_block_setup 1 0 0)
       + 2 * entry example_cell 0 0 = 4"
    by code_simp+
  show ?thesis using t unfolding v .
qed

text \<open>
  The same call evaluated on the loops themselves: with \<open>kc = 1\<close>, two \<open>k\<close>-blocks, it
  leaves 7; with \<open>kc = 3\<close>, one \<open>k\<close>-block, it leaves the reference value 4.
\<close>

lemma prod_depends_on_k_blocks:
  "entry (projr (prod_impl unit_blocks (\<lambda>_ _ _. 0) example_row False example_col False
                   example_cell 1 2)) 0 0 = 7
   \<and> entry (projr (prod_impl odd_blocks (\<lambda>_ _ _. 0) example_row False example_col False
                   example_cell 1 2)) 0 0 = 4
   \<and> gemm_reference example_row False example_col False example_cell 1 2 0 0 = 4"
  by code_simp

end
